theory Spec2Isabelle
  imports Main "HOL-Library.Word"
begin

unbundle bit_operations_syntax

section \<open>Data model (cpuid\_topology.h)\<close>

text \<open>
  The program works on C \<open>unsigned int\<close> values throughout; they are 32-bit words here, so
  that \<open>+\<close>, \<open>-\<close> and \<open>*\<close> wrap as the C arithmetic does. The signed \<open>int\<close> constant \<open>1\<close>
  in expressions such as \<open>~((1<<s)-1)\<close> is computed on the same 32 bits (two's complement),
  which is what the compilers of the supported platforms produce for shift counts below 32.
\<close>

type_synonym u32 = "32 word"

definition MAX_PROCESSORS :: u32 where "MAX_PROCESSORS = 1024"
definition MAX_SIMULATED_LEAFS :: u32 where "MAX_SIMULATED_LEAFS = 0x20"
definition MAX_SIMULATED_SUBLEAFS :: u32 where "MAX_SIMULATED_SUBLEAFS = 10"
definition MAX_CACHE_PER_LP :: u32 where "MAX_CACHE_PER_LP = 10"
definition MAX_TLB_PER_LP :: u32 where "MAX_TLB_PER_LP = 25"
definition INVALID_CACHE_INDEX :: u32 where "INVALID_CACHE_INDEX = - 1"
definition INVALID_TLB_INDEX :: u32 where "INVALID_TLB_INDEX = - 1"
definition MAXIMUM_DOMAINS :: nat where "MAXIMUM_DOMAINS = 32"

text \<open>\<open>CPUID_REGISTERS\<close>: the union of \<open>Registers[4]\<close> with the four named registers;
  \<open>Registers[0..3]\<close> are \<open>Eax\<close>, \<open>Ebx\<close>, \<open>Ecx\<close>, \<open>Edx\<close>.\<close>

record CPUID_REGISTERS =
  Eax :: u32
  Ebx :: u32
  Ecx :: u32
  Edx :: u32

definition zero_registers :: CPUID_REGISTERS where
  "zero_registers = \<lparr>Eax = 0, Ebx = 0, Ecx = 0, Edx = 0\<rparr>"

text \<open>The enumeration \<open>CPU_DOMAIN\<close>, as the numeric codes the switch statements compare with.\<close>

definition InvalidDomain :: u32 where "InvalidDomain = 0"
definition LogicalProcessorDomain :: u32 where "LogicalProcessorDomain = 1"
definition CoreDomain :: u32 where "CoreDomain = 2"
definition ModuleDomain :: u32 where "ModuleDomain = 3"
definition TileDomain :: u32 where "TileDomain = 4"
definition DieDomain :: u32 where "DieDomain = 5"
definition DieGrpDomain :: u32 where "DieGrpDomain = 6"

definition CacheType_NoMoreCaches :: u32 where "CacheType_NoMoreCaches = 0"

text \<open>
  \<open>GLOBAL_DATA\<close>. The simulated tables are C arrays of fixed dimensions; they are total
  functions of the index here. Every index the program uses on them is checked against the
  dimension before the access (\<open>Tools_ReadCpuid\<close>), or is \<open>CurrentProcessorAffinity\<close>, which
  only \<open>Tools_SetAffinity\<close> writes, with a value below \<open>NumberOfSimulatedProcessors\<close>.
\<close>

record GLOBAL_DATA =
  UseNativeCpuid :: bool
  SimulatedCpuid :: "nat \<Rightarrow> nat \<Rightarrow> CPUID_REGISTERS"
  SimulatedCpuidLeaf4 :: "nat \<Rightarrow> nat \<Rightarrow> CPUID_REGISTERS"
  SimulatedCpuidLeaf18 :: "nat \<Rightarrow> nat \<Rightarrow> CPUID_REGISTERS"
  SimulatedApicIds :: "nat \<Rightarrow> u32"
  NumberOfSimulatedProcessors :: u32
  CurrentProcessorAffinity :: u32

text \<open>
  The OS-specific layer (\<open>linux_os_util.c\<close>, \<open>win_os_util.c\<close>) executes the CPUID instruction
  and calls the scheduler; it is a parameter of the model: what the instruction answers in
  a given state of the operating system, how many processors there are, and what binding the
  thread to a processor does to that state.
\<close>

record 'os OS_API =
  Os_Platform_Read_Cpuid :: "'os \<Rightarrow> u32 \<Rightarrow> u32 \<Rightarrow> CPUID_REGISTERS"
  Os_GetNumberOfProcessors :: "'os \<Rightarrow> u32"
  Os_SetAffinity :: "u32 \<Rightarrow> 'os \<Rightarrow> 'os"

text \<open>The state a run of the program threads through: the global variable and the OS.\<close>

record 'os world =
  g_GlobalData :: GLOBAL_DATA
  os_state :: 'os

section \<open>Common support tools (cpuid\_topology\_tools.c)\<close>

definition Tools_ReadCpuid :: "'os OS_API \<Rightarrow> 'os world \<Rightarrow> u32 \<Rightarrow> u32 \<Rightarrow> CPUID_REGISTERS" where
  "Tools_ReadCpuid api w Leaf Subleaf =
     (let g = g_GlobalData w; cpu = unat (CurrentProcessorAffinity g) in
      if UseNativeCpuid g then Os_Platform_Read_Cpuid api (os_state w) Leaf Subleaf
      else if Leaf < MAX_SIMULATED_LEAFS then
        (if Subleaf < MAX_SIMULATED_SUBLEAFS then
           (if Leaf = 0x4 then SimulatedCpuidLeaf4 g cpu (unat Subleaf)
            else if Leaf = 0x18 then SimulatedCpuidLeaf18 g cpu (unat Subleaf)
            else
              (let r0 = SimulatedCpuid g (unat Leaf) (unat Subleaf);
                   r1 = (if (Leaf = 0xB \<or> Leaf = 0x1F) \<and> Ebx r0 \<noteq> 0
                         then r0\<lparr>Edx := SimulatedApicIds g cpu\<rparr> else r0)
               in if Leaf = 0x1
                  then r1\<lparr>Ecx := (Ecx r1 AND NOT (push_bit 24 0xFF))
                                     OR push_bit 24 (SimulatedApicIds g cpu)\<rparr>
                  else r1))
         else zero_registers)
      else zero_registers)"

text \<open>
  \<open>Tools_CreateTopologyShift\<close>: the \<open>for\<close> loop scans \<open>Index = 1<<31, 1<<30, ...\<close> with
  \<open>Shift = 31, 30, ...\<close> and leaves at the first bit of \<open>count\<close> that is set; if \<open>Index\<close>
  reaches \<open>0\<close> the loop ends with \<open>Shift\<close> wrapped below zero.
\<close>

function Tools_CreateTopologyShift_loop :: "u32 \<Rightarrow> u32 \<Rightarrow> u32 \<Rightarrow> u32" where
  "Tools_CreateTopologyShift_loop count Index Shift =
     (if Index = 0 then Shift
      else if count AND Index \<noteq> 0 then Shift
      else Tools_CreateTopologyShift_loop count (drop_bit 1 Index) (Shift - 1))"
  by pat_completeness auto
termination
proof (relation "measure (\<lambda>(c, i, s). unat i)")
  show "wf (measure (\<lambda>(c :: u32, i :: u32, s :: u32). unat i))" by simp
next
  fix count Index Shift :: u32
  assume "Index \<noteq> 0"
  then have "0 < unat Index" by (simp add: unat_gt_0)
  moreover have "unat (drop_bit 1 Index) = unat Index div 2"
    by (simp add: drop_bit_eq_div unat_div)
  ultimately show "((count, drop_bit 1 Index, Shift - 1), (count, Index, Shift))
      \<in> measure (\<lambda>(c, i, s). unat i)" by simp
qed

declare Tools_CreateTopologyShift_loop.simps [simp del]

definition Tools_CreateTopologyShift :: "u32 \<Rightarrow> u32" where
  "Tools_CreateTopologyShift count =
     Tools_CreateTopologyShift_loop (count * 2 - 1) (push_bit 31 1) 31"

definition Tools_SetAffinity :: "'os OS_API \<Rightarrow> u32 \<Rightarrow> 'os world \<Rightarrow> 'os world" where
  "Tools_SetAffinity api ProcessorNumber w =
     (if UseNativeCpuid (g_GlobalData w)
      then w\<lparr>os_state := Os_SetAffinity api ProcessorNumber (os_state w)\<rparr>
      else if ProcessorNumber < NumberOfSimulatedProcessors (g_GlobalData w)
      then w\<lparr>g_GlobalData := (g_GlobalData w)\<lparr>CurrentProcessorAffinity := ProcessorNumber\<rparr>\<rparr>
      else w)"

definition Tools_GetNumberOfProcessors :: "'os OS_API \<Rightarrow> 'os world \<Rightarrow> u32" where
  "Tools_GetNumberOfProcessors api w =
     (if UseNativeCpuid (g_GlobalData w) then Os_GetNumberOfProcessors api (os_state w)
      else NumberOfSimulatedProcessors (g_GlobalData w))"

definition Tools_IsDomainKnownEnumeration :: "u32 \<Rightarrow> bool" where
  "Tools_IsDomainKnownEnumeration DomainType \<longleftrightarrow>
     DomainType = InvalidDomain \<or> DomainType = LogicalProcessorDomain \<or>
     DomainType = CoreDomain \<or> DomainType = ModuleDomain \<or> DomainType = TileDomain \<or>
     DomainType = DieDomain \<or> DomainType = DieGrpDomain"

text \<open>
  \<open>Tools_GatherPlatformApicIds\<close>. The body of the \<open>for\<close> loop, after \<open>Tools_SetAffinity\<close>:
  \<open>CpuidRegisters\<close> is the answer of leaf 0, read once before the loop, and the result is the
  value stored into \<open>pApicIdArray[Index]\<close>.
\<close>

definition Tools_GatherPlatformApicIds_body ::
  "'os OS_API \<Rightarrow> CPUID_REGISTERS \<Rightarrow> 'os world \<Rightarrow> u32" where
  "Tools_GatherPlatformApicIds_body api CpuidRegisters w =
     (let (bApicIdFound, ApicId) =
            (if 0x1F \<le> Eax CpuidRegisters then
               (let CpuidRegistersApicid = Tools_ReadCpuid api w 0x1F 0 in
                if Ebx CpuidRegistersApicid \<noteq> 0 then (True, Edx CpuidRegistersApicid)
                else (False, 0))
             else (False, 0))
      in if \<not> bApicIdFound then
           (let (bApicIdFound, ApicId) =
                  (if 0xB \<le> Eax CpuidRegisters then
                     (let CpuidRegistersApicid = Tools_ReadCpuid api w 0xB 0 in
                      if Ebx CpuidRegistersApicid \<noteq> 0 then (True, Edx CpuidRegistersApicid)
                      else (bApicIdFound, ApicId))
                   else (bApicIdFound, ApicId))
            in if \<not> bApicIdFound
               then drop_bit 24 (Ebx (Tools_ReadCpuid api w 1 0))
               else ApicId)
         else ApicId)"

text \<open>
  The loop: \<open>pApicIdArray\<close> is the caller's buffer, of \<open>ArraySize\<close> elements by the
  caller's promise. The result is the final state, the buffer and the returned \<open>Index\<close>.
\<close>

function Tools_GatherPlatformApicIds_loop ::
  "'os OS_API \<Rightarrow> CPUID_REGISTERS \<Rightarrow> u32 \<Rightarrow> u32 \<Rightarrow> u32 \<Rightarrow> 'os world \<Rightarrow> (nat \<Rightarrow> u32) \<Rightarrow>
   'os world \<times> (nat \<Rightarrow> u32) \<times> u32" where
  "Tools_GatherPlatformApicIds_loop api CpuidRegisters NumberOfProcessors ArraySize Index w
       pApicIdArray =
     (if Index < NumberOfProcessors \<and> Index < ArraySize then
        (let w' = Tools_SetAffinity api Index w;
             ApicId = Tools_GatherPlatformApicIds_body api CpuidRegisters w'
         in Tools_GatherPlatformApicIds_loop api CpuidRegisters NumberOfProcessors ArraySize
              (Index + 1) w' (pApicIdArray(unat Index := ApicId)))
      else (w, pApicIdArray, Index))"
  by pat_completeness auto
termination
proof (relation "measure (\<lambda>(api, r, n, a, i, w, p). unat n - unat i)")
  show "wf (measure (\<lambda>(api :: 'os OS_API, r :: CPUID_REGISTERS, n :: u32, a :: u32, i :: u32,
      w :: 'os world, p :: nat \<Rightarrow> u32). unat n - unat i))" by simp
next
  fix api :: "'os OS_API" and CpuidRegisters :: CPUID_REGISTERS
    and NumberOfProcessors ArraySize Index :: u32 and w x :: "'os world" and xa :: u32
    and pApicIdArray :: "nat \<Rightarrow> u32"
  assume "Index < NumberOfProcessors \<and> Index < ArraySize"
  then have "unat Index < unat NumberOfProcessors" by (simp add: word_less_nat_alt)
  moreover have "unat NumberOfProcessors < 2 ^ 32"
    using unsigned_less [of NumberOfProcessors, where 'a = nat] by simp
  ultimately have "unat Index + 1 < 2 ^ 32" by simp
  then have "unat (Index + 1) = unat Index + 1"
    by (simp add: unat_word_ariths)
  moreover note \<open>unat Index < unat NumberOfProcessors\<close>
  ultimately show "((api, CpuidRegisters, NumberOfProcessors, ArraySize, Index + 1, x,
        pApicIdArray(unat Index := xa)),
       (api, CpuidRegisters, NumberOfProcessors, ArraySize, Index, w, pApicIdArray))
      \<in> measure (\<lambda>(api, r, n, a, i, w, p). unat n - unat i)" by simp
qed

declare Tools_GatherPlatformApicIds_loop.simps [simp del]

definition Tools_GatherPlatformApicIds ::
  "'os OS_API \<Rightarrow> 'os world \<Rightarrow> (nat \<Rightarrow> u32) \<Rightarrow> u32 \<Rightarrow> 'os world \<times> (nat \<Rightarrow> u32) \<times> u32" where
  "Tools_GatherPlatformApicIds api w pApicIdArray ArraySize =
     (let NumberOfProcessors = Tools_GetNumberOfProcessors api w;
          NumberOfProcessors =
            (if MAX_PROCESSORS < NumberOfProcessors then MAX_PROCESSORS else NumberOfProcessors);
          CpuidRegisters = Tools_ReadCpuid api w 0 0
      in Tools_GatherPlatformApicIds_loop api CpuidRegisters NumberOfProcessors ArraySize 0 w
           pApicIdArray)"

section \<open>Topology decoding (cpuid\_topology\_parsecpu.c)\<close>

text \<open>
  C leaves an access outside an array and a shift by the width of the type or more
  undefined. The model makes both a result of their own, so that a theorem about a
  successful run says that the run stayed inside its arrays.
\<close>

datatype fault = OutOfBounds | ShiftOutOfRange

text \<open>
  \<open>APICID_BIT_LAYOUT_CTX\<close>. \<open>ShiftValues\<close> and \<open>ShiftValueDomain\<close> have \<open>MAXIMUM_DOMAINS\<close>
  elements and \<open>DomainRelativeMasks\<close> has \<open>MAXIMUM_DOMAINS\<close> rows and columns; the functions
  below compare every index with \<open>MAXIMUM_DOMAINS\<close> before they use it.
\<close>

record APICID_BIT_LAYOUT_CTX =
  NumberOfApicIdBits :: u32
  ShiftValues :: "nat \<Rightarrow> u32"
  ShiftValueDomain :: "nat \<Rightarrow> u32"
  DomainRelativeMasks :: "nat \<Rightarrow> nat \<Rightarrow> u32"
  PackageDomainIndex :: u32
  szDescription :: string

text \<open>The context after \<open>memset(&ApicidBitLayoutCtx, 0, sizeof(APICID_BIT_LAYOUT_CTX))\<close>.\<close>

definition zero_APICID_BIT_LAYOUT_CTX :: APICID_BIT_LAYOUT_CTX where
  "zero_APICID_BIT_LAYOUT_CTX =
     \<lparr>NumberOfApicIdBits = 0, ShiftValues = (\<lambda>_. 0), ShiftValueDomain = (\<lambda>_. 0),
      DomainRelativeMasks = (\<lambda>_ _. 0), PackageDomainIndex = 0, szDescription = []\<rparr>"

text \<open>
  \<open>ParseCpu_CpuidThreeDomainExample\<close>. The \<open>while\<close> loop runs until a subleaf answers
  \<open>Ebx = 0\<close>; nothing in the program bounds it, so it is a partial function and \<open>None\<close>
  stands for a run that never leaves the loop. The result is the pair
  \<open>(PackageShift, LogicalProcessorShift)\<close> handed to \<open>Display_ThreeDomainDisplay\<close>.
\<close>

partial_function (option) ParseCpu_CpuidThreeDomainExample_loop ::
  "'os OS_API \<Rightarrow> 'os world \<Rightarrow> u32 \<Rightarrow> u32 \<Rightarrow> CPUID_REGISTERS \<Rightarrow> u32 \<Rightarrow> u32 \<Rightarrow>
   (u32 \<times> u32) option" where
  "ParseCpu_CpuidThreeDomainExample_loop api w Leaf Subleaf CpuidRegisters
       LogicalProcessorShift PackageShift =
     (if Ebx CpuidRegisters \<noteq> 0 then
        (let DomainType = drop_bit 8 (Ecx CpuidRegisters) AND 0xFF;
             DomainShift = Eax CpuidRegisters AND 0x1F;
             LogicalProcessorShift' =
               (if DomainType = InvalidDomain then LogicalProcessorShift
                else if DomainType = LogicalProcessorDomain then DomainShift
                else LogicalProcessorShift)
         in ParseCpu_CpuidThreeDomainExample_loop api w Leaf (Subleaf + 1)
              (Tools_ReadCpuid api w Leaf (Subleaf + 1)) LogicalProcessorShift' DomainShift)
      else Some (PackageShift, LogicalProcessorShift))"

declare ParseCpu_CpuidThreeDomainExample_loop.simps [code]

definition ParseCpu_CpuidThreeDomainExample ::
  "'os OS_API \<Rightarrow> 'os world \<Rightarrow> u32 \<Rightarrow> (u32 \<times> u32) option" where
  "ParseCpu_CpuidThreeDomainExample api w Leaf =
     ParseCpu_CpuidThreeDomainExample_loop api w Leaf 0 (Tools_ReadCpuid api w Leaf 0) 0 0"

text \<open>
  The body of the \<open>switch\<close> in \<open>ParseCpu_CpuidManyDomainExample\<close>: the seven known codes
  store shift and type at \<open>PackageDomainIndex\<close> and increment it; every other code stores the
  shift at \<open>PackageDomainIndex - 1\<close>, which wraps to \<open>0xFFFFFFFF\<close> when no level has been
  stored yet.
\<close>

definition ParseCpu_CpuidManyDomainExample_switch ::
  "u32 \<Rightarrow> u32 \<Rightarrow> APICID_BIT_LAYOUT_CTX \<Rightarrow> fault + APICID_BIT_LAYOUT_CTX" where
  "ParseCpu_CpuidManyDomainExample_switch DomainType DomainShift ctx =
     (if DomainType = InvalidDomain \<or> DomainType = LogicalProcessorDomain \<or>
         DomainType = CoreDomain \<or> DomainType = ModuleDomain \<or> DomainType = TileDomain \<or>
         DomainType = DieDomain \<or> DomainType = DieGrpDomain
      then
        (if MAXIMUM_DOMAINS \<le> unat (PackageDomainIndex ctx) then Inl OutOfBounds
         else Inr (ctx\<lparr>ShiftValues := (ShiftValues ctx)(unat (PackageDomainIndex ctx) := DomainShift),
                       ShiftValueDomain :=
                         (ShiftValueDomain ctx)(unat (PackageDomainIndex ctx) := DomainType),
                       PackageDomainIndex := PackageDomainIndex ctx + 1\<rparr>))
      else
        (if MAXIMUM_DOMAINS \<le> unat (PackageDomainIndex ctx - 1) then Inl OutOfBounds
         else Inr (ctx\<lparr>ShiftValues :=
                         (ShiftValues ctx)(unat (PackageDomainIndex ctx - 1) := DomainShift)\<rparr>)))"

partial_function (option) ParseCpu_CpuidManyDomainExample_loop ::
  "'os OS_API \<Rightarrow> 'os world \<Rightarrow> u32 \<Rightarrow> u32 \<Rightarrow> CPUID_REGISTERS \<Rightarrow> APICID_BIT_LAYOUT_CTX \<Rightarrow>
   (fault + APICID_BIT_LAYOUT_CTX) option" where
  "ParseCpu_CpuidManyDomainExample_loop api w Leaf Subleaf CpuidRegisters ctx =
     (if Ebx CpuidRegisters \<noteq> 0 then
        (case ParseCpu_CpuidManyDomainExample_switch
                (drop_bit 8 (Ecx CpuidRegisters) AND 0xFF) (Eax CpuidRegisters AND 0x1F) ctx of
           Inl f \<Rightarrow> Some (Inl f)
         | Inr ctx' \<Rightarrow>
             ParseCpu_CpuidManyDomainExample_loop api w Leaf (Subleaf + 1)
               (Tools_ReadCpuid api w Leaf (Subleaf + 1)) ctx')
      else Some (Inr ctx))"

declare ParseCpu_CpuidManyDomainExample_loop.simps [code]

text \<open>
  \<open>ParseCpu_Internal_CreateDomainMaskMatrix\<close>. Its loops write \<open>DomainRelativeMasks\<close> only
  and read \<open>ShiftValues\<close> and \<open>PackageDomainIndex\<close>, so each loop is a function of the
  matrix. The loop counters never pass \<open>MAXIMUM_DOMAINS\<close> (the access at that index is out
  of bounds), so they are natural numbers.
\<close>

function CreateDomainMaskMatrix_global ::
  "(nat \<Rightarrow> u32) \<Rightarrow> u32 \<Rightarrow> nat \<Rightarrow> u32 \<Rightarrow> (nat \<Rightarrow> nat \<Rightarrow> u32) \<Rightarrow> fault + (nat \<Rightarrow> nat \<Rightarrow> u32)" where
  "CreateDomainMaskMatrix_global shifts pdi DomainIndex PreviousBit M =
     (if DomainIndex \<le> unat pdi then
        (if MAXIMUM_DOMAINS \<le> DomainIndex then Inl OutOfBounds
         else if 32 \<le> unat PreviousBit then Inl ShiftOutOfRange
         else CreateDomainMaskMatrix_global shifts pdi (DomainIndex + 1) (shifts DomainIndex)
                (M(DomainIndex := (M DomainIndex)
                     (DomainIndex := NOT (push_bit (unat PreviousBit) 1 - 1)))))
      else Inr M)"
  by pat_completeness auto
termination
  by (relation "measure (\<lambda>(shifts, pdi, DomainIndex, PreviousBit, M). MAXIMUM_DOMAINS - DomainIndex)")
     auto

declare CreateDomainMaskMatrix_global.simps [simp del]

function CreateDomainMaskMatrix_relative_inner ::
  "u32 \<Rightarrow> nat \<Rightarrow> nat \<Rightarrow> (nat \<Rightarrow> nat \<Rightarrow> u32) \<Rightarrow> fault + (nat \<Rightarrow> nat \<Rightarrow> u32)" where
  "CreateDomainMaskMatrix_relative_inner pdi DomainIndex NextDomainIndex M =
     (if NextDomainIndex \<le> unat pdi then
        (if MAXIMUM_DOMAINS \<le> NextDomainIndex \<or> MAXIMUM_DOMAINS \<le> DomainIndex
         then Inl OutOfBounds
         else CreateDomainMaskMatrix_relative_inner pdi DomainIndex (NextDomainIndex + 1)
                (M(DomainIndex := (M DomainIndex)
                     (NextDomainIndex :=
                        NOT (M NextDomainIndex NextDomainIndex) AND M DomainIndex DomainIndex))))
      else Inr M)"
  by pat_completeness auto
termination
  by (relation "measure (\<lambda>(pdi, DomainIndex, NextDomainIndex, M). MAXIMUM_DOMAINS - NextDomainIndex)")
     auto

declare CreateDomainMaskMatrix_relative_inner.simps [simp del]

function CreateDomainMaskMatrix_relative ::
  "u32 \<Rightarrow> nat \<Rightarrow> (nat \<Rightarrow> nat \<Rightarrow> u32) \<Rightarrow> fault + (nat \<Rightarrow> nat \<Rightarrow> u32)" where
  "CreateDomainMaskMatrix_relative pdi DomainIndex M =
     (if DomainIndex < unat pdi then
        (case CreateDomainMaskMatrix_relative_inner pdi DomainIndex (DomainIndex + 1) M of
           Inl f \<Rightarrow> Inl f
         | Inr M' \<Rightarrow> CreateDomainMaskMatrix_relative pdi (DomainIndex + 1) M')
      else Inr M)"
  by pat_completeness auto
termination
  by (relation "measure (\<lambda>(pdi, DomainIndex, M). unat pdi - DomainIndex)") auto

declare CreateDomainMaskMatrix_relative.simps [simp del]

definition ParseCpu_Internal_CreateDomainMaskMatrix ::
  "APICID_BIT_LAYOUT_CTX \<Rightarrow> fault + APICID_BIT_LAYOUT_CTX" where
  "ParseCpu_Internal_CreateDomainMaskMatrix ctx =
     (case CreateDomainMaskMatrix_global (ShiftValues ctx) (PackageDomainIndex ctx) 0 0
             (DomainRelativeMasks ctx) of
        Inl f \<Rightarrow> Inl f
      | Inr M \<Rightarrow>
          (case CreateDomainMaskMatrix_relative (PackageDomainIndex ctx) 0 M of
             Inl f \<Rightarrow> Inl f
           | Inr M' \<Rightarrow> Inr (ctx\<lparr>DomainRelativeMasks := M'\<rparr>)))"

text \<open>
  \<open>ParseCpu_CpuidManyDomainExample\<close>: the result is the context handed to
  \<open>Display_ManyDomainExample\<close>.
\<close>

definition ParseCpu_CpuidManyDomainExample ::
  "'os OS_API \<Rightarrow> 'os world \<Rightarrow> u32 \<Rightarrow> (fault + APICID_BIT_LAYOUT_CTX) option" where
  "ParseCpu_CpuidManyDomainExample api w Leaf =
     (case ParseCpu_CpuidManyDomainExample_loop api w Leaf 0 (Tools_ReadCpuid api w Leaf 0)
             (zero_APICID_BIT_LAYOUT_CTX\<lparr>NumberOfApicIdBits := 32\<rparr>) of
        None \<Rightarrow> None
      | Some (Inl f) \<Rightarrow> Some (Inl f)
      | Some (Inr ctx) \<Rightarrow> Some (ParseCpu_Internal_CreateDomainMaskMatrix ctx))"

section \<open>Cache and TLB grouping (cpuid\_topology\_parsecachetlb.c)\<close>

record CPUID_CACHE_INFO =
  CacheType :: u32
  CacheLevel :: u32
  CacheId :: u32
  CacheMask :: u32
  CacheWays :: u32
  CachePartitions :: u32
  CacheLineSize :: u32
  CacheSets :: u32
  CacheSizeInBytes :: u32
  SelfInitializing :: bool
  CacheIsFullyAssociative :: bool
  WbinvdFlushsLowerLevelsSharing :: bool
  CacheIsInclusive :: bool
  CacheIsDirectMapped :: bool
  CacheIsComplex :: bool
  NumberOfLPsSharingThisCache :: u32
  ListOfApicIDsSharingThisCache :: "nat \<Rightarrow> u32"
  CachedCpuidRegisters :: CPUID_REGISTERS

text \<open>An element of the array that \<open>calloc\<close> returns: every byte is zero.\<close>

definition zero_CPUID_CACHE_INFO :: CPUID_CACHE_INFO where
  "zero_CPUID_CACHE_INFO =
     \<lparr>CacheType = 0, CacheLevel = 0, CacheId = 0, CacheMask = 0, CacheWays = 0,
      CachePartitions = 0, CacheLineSize = 0, CacheSets = 0, CacheSizeInBytes = 0,
      SelfInitializing = False, CacheIsFullyAssociative = False,
      WbinvdFlushsLowerLevelsSharing = False, CacheIsInclusive = False,
      CacheIsDirectMapped = False, CacheIsComplex = False,
      NumberOfLPsSharingThisCache = 0, ListOfApicIDsSharingThisCache = (\<lambda>_. 0),
      CachedCpuidRegisters = zero_registers\<rparr>"

text \<open>
  \<open>ParseCache_Internal_FindMatchingCacheEntry\<close>. \<open>pCacheInfo\<close> is the allocated array: a
  list whose length is the number of elements allocated. \<open>memcmp\<close> over the sixteen bytes of
  a \<open>CPUID_REGISTERS\<close> is \<open>0\<close> exactly when the four registers are equal.
\<close>

function ParseCache_Internal_FindMatchingCacheEntry_loop ::
  "CPUID_CACHE_INFO list \<Rightarrow> u32 \<Rightarrow> u32 \<Rightarrow> CPUID_REGISTERS \<Rightarrow> u32 \<Rightarrow> u32 \<Rightarrow> fault + u32" where
  "ParseCache_Internal_FindMatchingCacheEntry_loop pCacheInfo NumberOfCaches CacheId'
       pCpuidRegisters CacheIndex CacheFoundIndex =
     (if CacheIndex < NumberOfCaches \<and> CacheFoundIndex = INVALID_CACHE_INDEX then
        (if length pCacheInfo \<le> unat CacheIndex then Inl OutOfBounds
         else ParseCache_Internal_FindMatchingCacheEntry_loop pCacheInfo NumberOfCaches CacheId'
                pCpuidRegisters (CacheIndex + 1)
                (if CacheId (pCacheInfo ! unat CacheIndex) = CacheId' then
                   (if CachedCpuidRegisters (pCacheInfo ! unat CacheIndex) = pCpuidRegisters
                    then CacheIndex else CacheFoundIndex)
                 else CacheFoundIndex))
      else Inr CacheFoundIndex)"
  by pat_completeness auto
termination
proof (relation "measure (\<lambda>(p, n, c, r, i, f). unat n - unat i)")
  show "wf (measure (\<lambda>(p :: CPUID_CACHE_INFO list, n :: u32, c :: u32, r :: CPUID_REGISTERS,
      i :: u32, f :: u32). unat n - unat i))" by simp
next
  fix pCacheInfo :: "CPUID_CACHE_INFO list" and NumberOfCaches CacheId' CacheIndex CacheFoundIndex :: u32
    and pCpuidRegisters :: CPUID_REGISTERS
  assume "CacheIndex < NumberOfCaches \<and> CacheFoundIndex = INVALID_CACHE_INDEX"
  then have lt: "unat CacheIndex < unat NumberOfCaches" by (simp add: word_less_nat_alt)
  moreover have "unat NumberOfCaches < 2 ^ 32"
    using unsigned_less [of NumberOfCaches, where 'a = nat] by simp
  ultimately have "unat CacheIndex + 1 < 2 ^ 32" by simp
  then have "unat (CacheIndex + 1) = unat CacheIndex + 1"
    by (simp add: unat_word_ariths)
  with lt show "((pCacheInfo, NumberOfCaches, CacheId', pCpuidRegisters, CacheIndex + 1,
        if CacheId (pCacheInfo ! unat CacheIndex) = CacheId'
        then if CachedCpuidRegisters (pCacheInfo ! unat CacheIndex) = pCpuidRegisters
             then CacheIndex else CacheFoundIndex
        else CacheFoundIndex),
       (pCacheInfo, NumberOfCaches, CacheId', pCpuidRegisters, CacheIndex, CacheFoundIndex))
      \<in> measure (\<lambda>(p, n, c, r, i, f). unat n - unat i)" by simp
qed

declare ParseCache_Internal_FindMatchingCacheEntry_loop.simps [simp del]

definition ParseCache_Internal_FindMatchingCacheEntry ::
  "CPUID_CACHE_INFO list \<Rightarrow> u32 \<Rightarrow> u32 \<Rightarrow> CPUID_REGISTERS \<Rightarrow> fault + u32" where
  "ParseCache_Internal_FindMatchingCacheEntry pCacheInfo NumberOfCaches CacheId' pCpuidRegisters =
     ParseCache_Internal_FindMatchingCacheEntry_loop pCacheInfo NumberOfCaches CacheId'
       pCpuidRegisters 0 INVALID_CACHE_INDEX"

text \<open>
  \<open>ParseCache_Internal_AddCacheEntry\<close>: the new element is the one at the old
  \<open>*pNumberOfCaches\<close>; the function does not compare that index with the number of elements
  allocated. The result is the array, the new \<open>*pNumberOfCaches\<close> and the returned index.
\<close>

definition ParseCache_Internal_AddCacheEntry ::
  "CPUID_CACHE_INFO list \<Rightarrow> u32 \<Rightarrow> u32 \<Rightarrow> u32 \<Rightarrow> CPUID_REGISTERS \<Rightarrow>
   fault + (CPUID_CACHE_INFO list \<times> u32 \<times> u32)" where
  "ParseCache_Internal_AddCacheEntry pCacheInfo NumberOfCaches CacheId' CacheMask' pCpuidRegisters =
     (let NewCacheIndex = NumberOfCaches;
          NumberOfCaches' = NumberOfCaches + 1
      in if length pCacheInfo \<le> unat NewCacheIndex then Inl OutOfBounds
         else
           (let Ways = drop_bit 22 (Ebx pCpuidRegisters) + 1;
                Partitions = (drop_bit 12 (Ebx pCpuidRegisters) AND 0x3FF) + 1;
                LineSize = (Ebx pCpuidRegisters AND 0xFFF) + 1;
                Sets = Ecx pCpuidRegisters + 1;
                Complex = (Edx pCpuidRegisters AND 4 \<noteq> 0)
            in Inr (pCacheInfo[unat NewCacheIndex := (pCacheInfo ! unat NewCacheIndex)
                      \<lparr>CacheType := Eax pCpuidRegisters AND 0x1F,
                       CacheLevel := drop_bit 5 (Eax pCpuidRegisters) AND 0x7,
                       CacheId := CacheId',
                       CacheMask := CacheMask',
                       CacheWays := Ways,
                       CachePartitions := Partitions,
                       CacheLineSize := LineSize,
                       CacheSets := Sets,
                       CacheSizeInBytes := Ways * LineSize * Partitions * Sets,
                       SelfInitializing := (Eax pCpuidRegisters AND push_bit 8 1 \<noteq> 0),
                       CacheIsFullyAssociative := (Eax pCpuidRegisters AND push_bit 9 1 \<noteq> 0),
                       WbinvdFlushsLowerLevelsSharing := \<not> (Edx pCpuidRegisters AND 1 \<noteq> 0),
                       CacheIsInclusive := (Edx pCpuidRegisters AND 2 \<noteq> 0),
                       CacheIsDirectMapped := \<not> Complex,
                       CacheIsComplex := Complex,
                       NumberOfLPsSharingThisCache := 0,
                       CachedCpuidRegisters := pCpuidRegisters\<rparr>],
                    NumberOfCaches', NewCacheIndex)))"

text \<open>
  The body of the \<open>while\<close> loop of \<open>ParseCache_CpuidCacheExample\<close> for one subleaf
  \<open>CpuidRegisters\<close> of the processor whose identifier is \<open>ApicId\<close>
  (\<open>ApicIdList[ProcessorIndex]\<close>), up to the read of the next subleaf. The result is the
  array, \<open>NumberOfCaches\<close> and \<open>CacheIndex\<close>. \<open>Tools_CreateTopologyShift\<close> returns at most 31
  (lemma \<open>Tools_CreateTopologyShift_le_31\<close>), so the shift of \<open>1\<close> is defined.
\<close>

definition ParseCache_CpuidCacheExample_subleaf ::
  "u32 \<Rightarrow> CPUID_REGISTERS \<Rightarrow> CPUID_CACHE_INFO list \<Rightarrow> u32 \<Rightarrow>
   fault + (CPUID_CACHE_INFO list \<times> u32 \<times> u32)" where
  "ParseCache_CpuidCacheExample_subleaf ApicId CpuidRegisters pCacheInfo NumberOfCaches =
     (let MaxAddressibleIdSharingCache = (drop_bit 14 (Eax CpuidRegisters) AND 0xFFF) + 1;
          CacheShift = Tools_CreateTopologyShift MaxAddressibleIdSharingCache;
          CacheMask' = NOT (push_bit (unat CacheShift) 1 - 1);
          CacheId' = ApicId AND CacheMask'
      in case ParseCache_Internal_FindMatchingCacheEntry pCacheInfo NumberOfCaches CacheId'
                CpuidRegisters of
           Inl f \<Rightarrow> Inl f
         | Inr Found \<Rightarrow>
             (case (if Found = INVALID_CACHE_INDEX
                    then ParseCache_Internal_AddCacheEntry pCacheInfo NumberOfCaches CacheId' CacheMask'
                           CpuidRegisters
                    else Inr (pCacheInfo, NumberOfCaches, Found)) of
                Inl f \<Rightarrow> Inl f
              | Inr (pCacheInfo', NumberOfCaches', CacheIndex) \<Rightarrow>
                  (if CacheIndex \<noteq> INVALID_CACHE_INDEX then
                     (if length pCacheInfo' \<le> unat CacheIndex then Inl OutOfBounds
                      else
                        (let e = pCacheInfo' ! unat CacheIndex in
                         if unat MAX_PROCESSORS \<le> unat (NumberOfLPsSharingThisCache e)
                         then Inl OutOfBounds
                         else Inr (pCacheInfo'[unat CacheIndex := e
                                     \<lparr>NumberOfLPsSharingThisCache :=
                                        NumberOfLPsSharingThisCache e + 1,
                                      ListOfApicIDsSharingThisCache :=
                                        (ListOfApicIDsSharingThisCache e)
                                          (unat (NumberOfLPsSharingThisCache e) := ApicId)\<rparr>],
                                   NumberOfCaches', CacheIndex)))
                   else Inr (pCacheInfo', NumberOfCaches', CacheIndex))))"

text \<open>The \<open>while\<close> loop over the subleaves of one processor, ended by the cache type
  \<open>CacheType_NoMoreCaches\<close> only.\<close>

partial_function (option) ParseCache_CpuidCacheExample_subleafs ::
  "'os OS_API \<Rightarrow> 'os world \<Rightarrow> u32 \<Rightarrow> u32 \<Rightarrow> CPUID_REGISTERS \<Rightarrow> CPUID_CACHE_INFO list \<Rightarrow> u32 \<Rightarrow>
   (fault + (CPUID_CACHE_INFO list \<times> u32)) option" where
  "ParseCache_CpuidCacheExample_subleafs api w ApicId SubleafIndex CpuidRegisters pCacheInfo
       NumberOfCaches =
     (if Eax CpuidRegisters AND 0x1F \<noteq> CacheType_NoMoreCaches then
        (case ParseCache_CpuidCacheExample_subleaf ApicId CpuidRegisters pCacheInfo
                NumberOfCaches of
           Inl f \<Rightarrow> Some (Inl f)
         | Inr (pCacheInfo', NumberOfCaches', CacheIndex) \<Rightarrow>
             ParseCache_CpuidCacheExample_subleafs api w ApicId (SubleafIndex + 1)
               (Tools_ReadCpuid api w 4 (SubleafIndex + 1)) pCacheInfo' NumberOfCaches')
      else Some (Inr (pCacheInfo, NumberOfCaches)))"

declare ParseCache_CpuidCacheExample_subleafs.simps [code]

text \<open>The \<open>for\<close> loop over the processors.\<close>

function ParseCache_CpuidCacheExample_processors ::
  "'os OS_API \<Rightarrow> (nat \<Rightarrow> u32) \<Rightarrow> u32 \<Rightarrow> u32 \<Rightarrow> 'os world \<Rightarrow> CPUID_CACHE_INFO list \<Rightarrow> u32 \<Rightarrow>
   (fault + (CPUID_CACHE_INFO list \<times> u32)) option" where
  "ParseCache_CpuidCacheExample_processors api ApicIdList NumberOfProcessors ProcessorIndex w
       pCacheInfo NumberOfCaches =
     (if ProcessorIndex < NumberOfProcessors then
        (case ParseCache_CpuidCacheExample_subleafs api
                (Tools_SetAffinity api ProcessorIndex w) (ApicIdList (unat ProcessorIndex)) 0
                (Tools_ReadCpuid api (Tools_SetAffinity api ProcessorIndex w) 4 0)
                pCacheInfo NumberOfCaches of
           None \<Rightarrow> None
         | Some (Inl f) \<Rightarrow> Some (Inl f)
         | Some (Inr (pCacheInfo', NumberOfCaches')) \<Rightarrow>
             ParseCache_CpuidCacheExample_processors api ApicIdList NumberOfProcessors
               (ProcessorIndex + 1) (Tools_SetAffinity api ProcessorIndex w)
               pCacheInfo' NumberOfCaches')
      else Some (Inr (pCacheInfo, NumberOfCaches)))"
  by pat_completeness auto
termination
proof (relation "measure (\<lambda>(api, l, n, i, w, p, c). unat n - unat i)")
  show "wf (measure (\<lambda>(api :: 'os OS_API, l :: nat \<Rightarrow> u32, n :: u32, i :: u32, w :: 'os world,
      p :: CPUID_CACHE_INFO list, c :: u32). unat n - unat i))" by simp
next
  fix api :: "'os OS_API" and ApicIdList :: "nat \<Rightarrow> u32"
    and NumberOfProcessors ProcessorIndex NumberOfCaches y :: u32 and w :: "'os world"
    and pCacheInfo x :: "CPUID_CACHE_INFO list"
  assume "ProcessorIndex < NumberOfProcessors"
  then have lt: "unat ProcessorIndex < unat NumberOfProcessors" by (simp add: word_less_nat_alt)
  moreover have "unat NumberOfProcessors < 2 ^ 32"
    using unsigned_less [of NumberOfProcessors, where 'a = nat] by simp
  ultimately have "unat ProcessorIndex + 1 < 2 ^ 32" by simp
  then have "unat (ProcessorIndex + 1) = unat ProcessorIndex + 1"
    by (simp add: unat_word_ariths)
  with lt show "((api, ApicIdList, NumberOfProcessors, ProcessorIndex + 1,
        Tools_SetAffinity api ProcessorIndex w, x, y),
       (api, ApicIdList, NumberOfProcessors, ProcessorIndex, w, pCacheInfo, NumberOfCaches))
      \<in> measure (\<lambda>(api, l, n, i, w, p, c). unat n - unat i)" by simp
qed

declare ParseCache_CpuidCacheExample_processors.simps [simp del]

text \<open>
  \<open>ParseCache_CpuidCacheExample\<close>. \<open>ApicIdList\<close> is the local array as the function finds it
  on the stack; \<open>calloc\<close> is taken to succeed. The result is \<open>None\<close> when a subleaf loop
  never ends; otherwise a fault, or \<open>Inr None\<close> when leaf 4 is not supported and nothing is
  displayed, or the array and \<open>NumberOfCaches\<close> handed to \<open>Display_DisplayProcessorCaches\<close>.
\<close>

definition ParseCache_CpuidCacheExample ::
  "'os OS_API \<Rightarrow> 'os world \<Rightarrow> (nat \<Rightarrow> u32) \<Rightarrow>
   (fault + (CPUID_CACHE_INFO list \<times> u32) option) option" where
  "ParseCache_CpuidCacheExample api w ApicIdList =
     (if 4 \<le> Eax (Tools_ReadCpuid api w 0 0) then
        (case Tools_GatherPlatformApicIds api w ApicIdList MAX_PROCESSORS of
           (w', ApicIdList', NumberOfProcessors) \<Rightarrow>
             (case ParseCache_CpuidCacheExample_processors api ApicIdList' NumberOfProcessors 0
                     w' (replicate (unat (NumberOfProcessors * MAX_CACHE_PER_LP))
                           zero_CPUID_CACHE_INFO) 0 of
                None \<Rightarrow> None
              | Some (Inl f) \<Rightarrow> Some (Inl f)
              | Some (Inr r) \<Rightarrow> Some (Inr (Some r))))
      else Some (Inr None))"

record CPUID_TLB_INFO =
  TlbType :: u32
  TlbLevel :: u32
  TlbId :: u32
  TlbMask :: u32
  TlbWays :: u32
  TlbParitioning :: u32
  TlbSets :: u32
  PageSizeEntries_4K :: bool
  PageSizeEntries_2MB :: bool
  PageSizeEntries_4MB :: bool
  PageSizeEntries_1GB :: bool
  FullyAssociative :: bool
  NumberOfLPsSharingThisTlb :: u32
  ListOfApicIDsSharingThisTlb :: "nat \<Rightarrow> u32"
  TlbCachedCpuidRegisters :: CPUID_REGISTERS

text \<open>\<open>ParseTlb_Internal_FindMatchingTlbEntry\<close>; the field \<open>CachedCpuidRegisters\<close> of
  \<open>CPUID_TLB_INFO\<close> is \<open>TlbCachedCpuidRegisters\<close> here.\<close>

function ParseTlb_Internal_FindMatchingTlbEntry_loop ::
  "CPUID_TLB_INFO list \<Rightarrow> u32 \<Rightarrow> u32 \<Rightarrow> CPUID_REGISTERS \<Rightarrow> u32 \<Rightarrow> u32 \<Rightarrow> fault + u32" where
  "ParseTlb_Internal_FindMatchingTlbEntry_loop pTlbInfo NumberOfTlbs TlbId' pCpuidRegisters
       TlbIndex TlbFoundIndex =
     (if TlbIndex < NumberOfTlbs \<and> TlbFoundIndex = INVALID_TLB_INDEX then
        (if length pTlbInfo \<le> unat TlbIndex then Inl OutOfBounds
         else ParseTlb_Internal_FindMatchingTlbEntry_loop pTlbInfo NumberOfTlbs TlbId'
                pCpuidRegisters (TlbIndex + 1)
                (if TlbId (pTlbInfo ! unat TlbIndex) = TlbId' then
                   (if TlbCachedCpuidRegisters (pTlbInfo ! unat TlbIndex) = pCpuidRegisters
                    then TlbIndex else TlbFoundIndex)
                 else TlbFoundIndex))
      else Inr TlbFoundIndex)"
  by pat_completeness auto
termination
proof (relation "measure (\<lambda>(p, n, c, r, i, f). unat n - unat i)")
  show "wf (measure (\<lambda>(p :: CPUID_TLB_INFO list, n :: u32, c :: u32, r :: CPUID_REGISTERS,
      i :: u32, f :: u32). unat n - unat i))" by simp
next
  fix pTlbInfo :: "CPUID_TLB_INFO list" and NumberOfTlbs TlbId' TlbIndex TlbFoundIndex :: u32
    and pCpuidRegisters :: CPUID_REGISTERS
  assume "TlbIndex < NumberOfTlbs \<and> TlbFoundIndex = INVALID_TLB_INDEX"
  then have lt: "unat TlbIndex < unat NumberOfTlbs" by (simp add: word_less_nat_alt)
  moreover have "unat NumberOfTlbs < 2 ^ 32"
    using unsigned_less [of NumberOfTlbs, where 'a = nat] by simp
  ultimately have "unat TlbIndex + 1 < 2 ^ 32" by simp
  then have "unat (TlbIndex + 1) = unat TlbIndex + 1"
    by (simp add: unat_word_ariths)
  with lt show "((pTlbInfo, NumberOfTlbs, TlbId', pCpuidRegisters, TlbIndex + 1,
        if TlbId (pTlbInfo ! unat TlbIndex) = TlbId'
        then if TlbCachedCpuidRegisters (pTlbInfo ! unat TlbIndex) = pCpuidRegisters
             then TlbIndex else TlbFoundIndex
        else TlbFoundIndex),
       (pTlbInfo, NumberOfTlbs, TlbId', pCpuidRegisters, TlbIndex, TlbFoundIndex))
      \<in> measure (\<lambda>(p, n, c, r, i, f). unat n - unat i)" by simp
qed

declare ParseTlb_Internal_FindMatchingTlbEntry_loop.simps [simp del]

definition ParseTlb_Internal_FindMatchingTlbEntry ::
  "CPUID_TLB_INFO list \<Rightarrow> u32 \<Rightarrow> u32 \<Rightarrow> CPUID_REGISTERS \<Rightarrow> fault + u32" where
  "ParseTlb_Internal_FindMatchingTlbEntry pTlbInfo NumberOfTlbs TlbId' pCpuidRegisters =
     ParseTlb_Internal_FindMatchingTlbEntry_loop pTlbInfo NumberOfTlbs TlbId' pCpuidRegisters 0
       INVALID_TLB_INDEX"

text \<open>An element of the TLB array that \<open>calloc\<close> returns.\<close>

definition zero_CPUID_TLB_INFO :: CPUID_TLB_INFO where
  "zero_CPUID_TLB_INFO =
     \<lparr>TlbType = 0, TlbLevel = 0, TlbId = 0, TlbMask = 0, TlbWays = 0, TlbParitioning = 0,
      TlbSets = 0, PageSizeEntries_4K = False, PageSizeEntries_2MB = False,
      PageSizeEntries_4MB = False, PageSizeEntries_1GB = False, FullyAssociative = False,
      NumberOfLPsSharingThisTlb = 0, ListOfApicIDsSharingThisTlb = (\<lambda>_. 0),
      TlbCachedCpuidRegisters = zero_registers\<rparr>"

definition TlbType_InvalidSubleaf :: u32 where "TlbType_InvalidSubleaf = 0"

text \<open>\<open>ParseTlb_Internal_AddTlbEntry\<close>: as for the caches, the new element is the one at the
  old \<open>*pNumberOfTlbs\<close>, and that index is not compared with the number of elements
  allocated.\<close>

definition ParseTlb_Internal_AddTlbEntry ::
  "CPUID_TLB_INFO list \<Rightarrow> u32 \<Rightarrow> u32 \<Rightarrow> u32 \<Rightarrow> CPUID_REGISTERS \<Rightarrow>
   fault + (CPUID_TLB_INFO list \<times> u32 \<times> u32)" where
  "ParseTlb_Internal_AddTlbEntry pTlbInfo NumberOfTlbs TlbId' TlbMask' pCpuidRegisters =
     (let NewTlbIndex = NumberOfTlbs;
          NumberOfTlbs' = NumberOfTlbs + 1
      in if length pTlbInfo \<le> unat NewTlbIndex then Inl OutOfBounds
         else Inr (pTlbInfo[unat NewTlbIndex := (pTlbInfo ! unat NewTlbIndex)
                     \<lparr>TlbType := Edx pCpuidRegisters AND 0x1F,
                      TlbLevel := drop_bit 5 (Edx pCpuidRegisters) AND 0x7,
                      TlbId := TlbId',
                      TlbMask := TlbMask',
                      PageSizeEntries_4K := (Ebx pCpuidRegisters AND 1 \<noteq> 0),
                      PageSizeEntries_2MB := (Ebx pCpuidRegisters AND 2 \<noteq> 0),
                      PageSizeEntries_4MB := (Ebx pCpuidRegisters AND 4 \<noteq> 0),
                      PageSizeEntries_1GB := (Ebx pCpuidRegisters AND 8 \<noteq> 0),
                      TlbParitioning := drop_bit 8 (Ebx pCpuidRegisters) AND 0x7,
                      TlbWays := drop_bit 16 (Ebx pCpuidRegisters) AND 0xFF,
                      TlbSets := Ecx pCpuidRegisters,
                      FullyAssociative := (Edx pCpuidRegisters AND push_bit 8 1 \<noteq> 0),
                      NumberOfLPsSharingThisTlb := 0,
                      TlbCachedCpuidRegisters := pCpuidRegisters\<rparr>],
                   NumberOfTlbs', NewTlbIndex))"

text \<open>
  The body of the subleaf loop of \<open>ParseTlb_CpuidTlbExample\<close> after \<open>MaxSubleaf\<close> has been
  read: \<open>Registers\<close> is the answer of leaf 0x18 for the subleaf, \<open>ApicId\<close> is
  \<open>ApicIdList[ProcessorIndex]\<close>, and \<open>TlbIndex\<close> is the local variable, which a subleaf of
  type \<open>TlbType_InvalidSubleaf\<close> leaves as it was. The result is the array, \<open>NumberOfTlbs\<close>
  and \<open>TlbIndex\<close>.
\<close>

definition ParseTlb_CpuidTlbExample_subleaf ::
  "u32 \<Rightarrow> CPUID_REGISTERS \<Rightarrow> CPUID_TLB_INFO list \<Rightarrow> u32 \<Rightarrow> u32 \<Rightarrow>
   fault + (CPUID_TLB_INFO list \<times> u32 \<times> u32)" where
  "ParseTlb_CpuidTlbExample_subleaf ApicId Registers pTlbInfo NumberOfTlbs TlbIndex =
     (let CpuidRegisters = Registers\<lparr>Eax := 0\<rparr>;
          TlbType' = Edx CpuidRegisters AND 0x1F
      in if TlbType' \<noteq> TlbType_InvalidSubleaf then
           (let MaxAddressibleIdSharingTlb = (drop_bit 14 (Edx CpuidRegisters) AND 0xFFF) + 1;
                TlbShift = Tools_CreateTopologyShift MaxAddressibleIdSharingTlb;
                TlbMask' = NOT (push_bit (unat TlbShift) 1 - 1);
                TlbId' = ApicId AND TlbMask'
            in case ParseTlb_Internal_FindMatchingTlbEntry pTlbInfo NumberOfTlbs TlbId'
                      CpuidRegisters of
                 Inl f \<Rightarrow> Inl f
               | Inr Found \<Rightarrow>
                   (case (if Found = INVALID_TLB_INDEX
                          then ParseTlb_Internal_AddTlbEntry pTlbInfo NumberOfTlbs TlbId' TlbMask'
                                 CpuidRegisters
                          else Inr (pTlbInfo, NumberOfTlbs, Found)) of
                      Inl f \<Rightarrow> Inl f
                    | Inr (pTlbInfo', NumberOfTlbs', TlbIndex') \<Rightarrow>
                        (if TlbIndex' \<noteq> INVALID_TLB_INDEX then
                           (if length pTlbInfo' \<le> unat TlbIndex' then Inl OutOfBounds
                            else
                              (let e = pTlbInfo' ! unat TlbIndex' in
                               if unat MAX_PROCESSORS \<le> unat (NumberOfLPsSharingThisTlb e)
                               then Inl OutOfBounds
                               else Inr (pTlbInfo'[unat TlbIndex' := e
                                           \<lparr>NumberOfLPsSharingThisTlb :=
                                              NumberOfLPsSharingThisTlb e + 1,
                                            ListOfApicIDsSharingThisTlb :=
                                              (ListOfApicIDsSharingThisTlb e)
                                                (unat (NumberOfLPsSharingThisTlb e) := ApicId)\<rparr>],
                                         NumberOfTlbs', TlbIndex')))
                         else Inr (pTlbInfo', NumberOfTlbs', TlbIndex'))))
         else Inr (pTlbInfo, NumberOfTlbs, TlbIndex))"

text \<open>
  The \<open>for\<close> loop over the subleaves of one processor: \<open>MaxSubleaf\<close> is \<open>0\<close> at first and is
  read from \<open>Eax\<close> of subleaf 0. The loop runs while \<open>SubleafIndex <= MaxSubleaf\<close>, which never
  fails for \<open>MaxSubleaf = 0xFFFFFFFF\<close>, so it is a partial function. \<open>TlbIndex\<close> is the local
  variable of the function, which is not initialised and is written before it is read.
\<close>

partial_function (option) ParseTlb_CpuidTlbExample_subleafs ::
  "'os OS_API \<Rightarrow> 'os world \<Rightarrow> u32 \<Rightarrow> u32 \<Rightarrow> u32 \<Rightarrow> CPUID_TLB_INFO list \<Rightarrow> u32 \<Rightarrow> u32 \<Rightarrow>
   (fault + (CPUID_TLB_INFO list \<times> u32 \<times> u32)) option" where
  "ParseTlb_CpuidTlbExample_subleafs api w ApicId SubleafIndex MaxSubleaf pTlbInfo NumberOfTlbs
       TlbIndex =
     (if SubleafIndex \<le> MaxSubleaf then
        (case ParseTlb_CpuidTlbExample_subleaf ApicId (Tools_ReadCpuid api w 0x18 SubleafIndex)
                pTlbInfo NumberOfTlbs TlbIndex of
           Inl f \<Rightarrow> Some (Inl f)
         | Inr (pTlbInfo', NumberOfTlbs', TlbIndex') \<Rightarrow>
             ParseTlb_CpuidTlbExample_subleafs api w ApicId (SubleafIndex + 1)
               (if SubleafIndex = 0 then Eax (Tools_ReadCpuid api w 0x18 SubleafIndex)
                else MaxSubleaf)
               pTlbInfo' NumberOfTlbs' TlbIndex')
      else Some (Inr (pTlbInfo, NumberOfTlbs, TlbIndex)))"

declare ParseTlb_CpuidTlbExample_subleafs.simps [code]

text \<open>The \<open>for\<close> loop over the processors.\<close>

function ParseTlb_CpuidTlbExample_processors ::
  "'os OS_API \<Rightarrow> (nat \<Rightarrow> u32) \<Rightarrow> u32 \<Rightarrow> u32 \<Rightarrow> 'os world \<Rightarrow> CPUID_TLB_INFO list \<Rightarrow> u32 \<Rightarrow> u32 \<Rightarrow>
   (fault + (CPUID_TLB_INFO list \<times> u32)) option" where
  "ParseTlb_CpuidTlbExample_processors api ApicIdList NumberOfProcessors ProcessorIndex w
       pTlbInfo NumberOfTlbs TlbIndex =
     (if ProcessorIndex < NumberOfProcessors then
        (case ParseTlb_CpuidTlbExample_subleafs api
                (Tools_SetAffinity api ProcessorIndex w) (ApicIdList (unat ProcessorIndex)) 0 0
                pTlbInfo NumberOfTlbs TlbIndex of
           None \<Rightarrow> None
         | Some (Inl f) \<Rightarrow> Some (Inl f)
         | Some (Inr (pTlbInfo', NumberOfTlbs', TlbIndex')) \<Rightarrow>
             ParseTlb_CpuidTlbExample_processors api ApicIdList NumberOfProcessors
               (ProcessorIndex + 1) (Tools_SetAffinity api ProcessorIndex w)
               pTlbInfo' NumberOfTlbs' TlbIndex')
      else Some (Inr (pTlbInfo, NumberOfTlbs)))"
  by pat_completeness auto
termination
proof (relation "measure (\<lambda>(api, l, n, i, w, p, c, t). unat n - unat i)")
  show "wf (measure (\<lambda>(api :: 'os OS_API, l :: nat \<Rightarrow> u32, n :: u32, i :: u32, w :: 'os world,
      p :: CPUID_TLB_INFO list, c :: u32, t :: u32). unat n - unat i))" by simp
next
  fix api :: "'os OS_API" and ApicIdList :: "nat \<Rightarrow> u32"
    and NumberOfProcessors ProcessorIndex NumberOfTlbs TlbIndex y z :: u32 and w :: "'os world"
    and pTlbInfo x :: "CPUID_TLB_INFO list"
  assume "ProcessorIndex < NumberOfProcessors"
  then have lt: "unat ProcessorIndex < unat NumberOfProcessors" by (simp add: word_less_nat_alt)
  moreover have "unat NumberOfProcessors < 2 ^ 32"
    using unsigned_less [of NumberOfProcessors, where 'a = nat] by simp
  ultimately have "unat ProcessorIndex + 1 < 2 ^ 32" by simp
  then have "unat (ProcessorIndex + 1) = unat ProcessorIndex + 1"
    by (simp add: unat_word_ariths)
  with lt show "((api, ApicIdList, NumberOfProcessors, ProcessorIndex + 1,
        Tools_SetAffinity api ProcessorIndex w, x, y, z),
       (api, ApicIdList, NumberOfProcessors, ProcessorIndex, w, pTlbInfo, NumberOfTlbs, TlbIndex))
      \<in> measure (\<lambda>(api, l, n, i, w, p, c, t). unat n - unat i)" by simp
qed

declare ParseTlb_CpuidTlbExample_processors.simps [simp del]

text \<open>
  \<open>ParseTlb_CpuidTlbExample\<close>, with \<open>ApicIdList\<close> and \<open>TlbIndex\<close> as the function finds its local
  variables on the stack and \<open>calloc\<close> taken to succeed. The result is \<open>None\<close> when a subleaf
  loop never ends; otherwise a fault, or \<open>Inr None\<close> when leaf 0x18 is not supported, or the
  array and \<open>NumberOfTlbs\<close> handed to \<open>Display_DisplayProcessorTlbs\<close>.
\<close>

definition ParseTlb_CpuidTlbExample ::
  "'os OS_API \<Rightarrow> 'os world \<Rightarrow> (nat \<Rightarrow> u32) \<Rightarrow> u32 \<Rightarrow>
   (fault + (CPUID_TLB_INFO list \<times> u32) option) option" where
  "ParseTlb_CpuidTlbExample api w ApicIdList TlbIndex =
     (if 0x18 \<le> Eax (Tools_ReadCpuid api w 0 0) then
        (case Tools_GatherPlatformApicIds api w ApicIdList MAX_PROCESSORS of
           (w', ApicIdList', NumberOfProcessors) \<Rightarrow>
             (case ParseTlb_CpuidTlbExample_processors api ApicIdList' NumberOfProcessors 0
                     w' (replicate (unat (NumberOfProcessors * MAX_TLB_PER_LP))
                           zero_CPUID_TLB_INFO) 0 TlbIndex of
                None \<Rightarrow> None
              | Some (Inl f) \<Rightarrow> Some (Inl f)
              | Some (Inr r) \<Rightarrow> Some (Inr (Some r))))
      else Some (Inr None))"

section \<open>What the specification says\<close>

text \<open>
  The definitions of this section follow the words of the specification, not the code; the
  theorems below compare the code with them.
\<close>

text \<open>The answers of subleaves \<open>0, ..., n - 1\<close> of a leaf, in the current state.\<close>

definition enumerated_subleafs ::
  "'os OS_API \<Rightarrow> 'os world \<Rightarrow> u32 \<Rightarrow> nat \<Rightarrow> CPUID_REGISTERS list" where
  "enumerated_subleafs api w Leaf n = map (\<lambda>k. Tools_ReadCpuid api w Leaf (of_nat k)) [0..<n]"

text \<open>
  Three-domain decoding: the package shift is the shift of the last enumerated subleaf,
  whatever its domain type; the logical-processor shift is the shift of the last subleaf
  whose domain type is LogicalProcessor, and \<open>0\<close> if there is none.
\<close>

definition ThreeDomain_PackageShift_spec :: "CPUID_REGISTERS list \<Rightarrow> u32" where
  "ThreeDomain_PackageShift_spec subleafs =
     (if subleafs = [] then 0 else Eax (last subleafs) AND 0x1F)"

definition ThreeDomain_LogicalProcessorShift_spec :: "CPUID_REGISTERS list \<Rightarrow> u32" where
  "ThreeDomain_LogicalProcessorShift_spec subleafs =
     (case filter (\<lambda>r. drop_bit 8 (Ecx r) AND 0xFF = LogicalProcessorDomain) subleafs of
        [] \<Rightarrow> 0
      | r # rs \<Rightarrow> Eax (last (r # rs)) AND 0x1F)"

text \<open>
  Many-domain decoding. The levels a context holds are the pairs of domain type and shift at
  the indices below \<open>PackageDomainIndex\<close>. The levels the specification describes: a subleaf
  of a known kind appends a level with its type and shift; a subleaf of any other kind
  overwrites the shift of the most recently appended level.
\<close>

definition ManyDomain_levels :: "APICID_BIT_LAYOUT_CTX \<Rightarrow> (u32 \<times> u32) list" where
  "ManyDomain_levels ctx =
     map (\<lambda>i. (ShiftValueDomain ctx i, ShiftValues ctx i)) [0..<unat (PackageDomainIndex ctx)]"

fun ManyDomain_levels_spec ::
  "(u32 \<times> u32) list \<Rightarrow> CPUID_REGISTERS list \<Rightarrow> (u32 \<times> u32) list" where
  "ManyDomain_levels_spec levels [] = levels"
| "ManyDomain_levels_spec levels (r # rs) =
     (let DomainType = drop_bit 8 (Ecx r) AND 0xFF; DomainShift = Eax r AND 0x1F in
      if Tools_IsDomainKnownEnumeration DomainType
      then ManyDomain_levels_spec (levels @ [(DomainType, DomainShift)]) rs
      else ManyDomain_levels_spec (butlast levels @ [(fst (last levels), DomainShift)]) rs)"

text \<open>The domain mask matrix: the cumulative shift of the level below level \<open>i\<close>, which is
  \<open>0\<close> below level \<open>0\<close>.\<close>

definition previous_shift :: "(nat \<Rightarrow> u32) \<Rightarrow> nat \<Rightarrow> u32" where
  "previous_shift shifts i = (if i = 0 then 0 else shifts (i - 1))"

text \<open>
  Resource grouping: the group mask is the 12-bit field of addressable identifiers, plus
  one, rounded up to a power of two by the shift calculator, as a mask; the group id is the
  platform identifier under that mask; a resource belongs to an existing group when its
  group id equals the group's id and its register snapshot equals the group's stored
  snapshot.
\<close>

definition group_mask :: "u32 \<Rightarrow> u32" where
  "group_mask reg =
     NOT (push_bit (unat (Tools_CreateTopologyShift ((drop_bit 14 reg AND 0xFFF) + 1))) 1 - 1)"

definition group_id :: "u32 \<Rightarrow> u32 \<Rightarrow> u32" where
  "group_id ApicId reg = ApicId AND group_mask reg"

definition cache_group_matches :: "CPUID_CACHE_INFO \<Rightarrow> u32 \<Rightarrow> CPUID_REGISTERS \<Rightarrow> bool" where
  "cache_group_matches e gid snapshot \<longleftrightarrow>
     CacheId e = gid \<and> CachedCpuidRegisters e = snapshot"

definition tlb_group_matches :: "CPUID_TLB_INFO \<Rightarrow> u32 \<Rightarrow> CPUID_REGISTERS \<Rightarrow> bool" where
  "tlb_group_matches e gid snapshot \<longleftrightarrow>
     TlbId e = gid \<and> TlbCachedCpuidRegisters e = snapshot"

text \<open>A processor joins a group: its identifier is appended to the group's member list.\<close>

definition cache_add_member :: "u32 \<Rightarrow> CPUID_CACHE_INFO \<Rightarrow> CPUID_CACHE_INFO" where
  "cache_add_member ApicId e =
     e\<lparr>NumberOfLPsSharingThisCache := NumberOfLPsSharingThisCache e + 1,
       ListOfApicIDsSharingThisCache :=
         (ListOfApicIDsSharingThisCache e)(unat (NumberOfLPsSharingThisCache e) := ApicId)\<rparr>"

definition tlb_add_member :: "u32 \<Rightarrow> CPUID_TLB_INFO \<Rightarrow> CPUID_TLB_INFO" where
  "tlb_add_member ApicId e =
     e\<lparr>NumberOfLPsSharingThisTlb := NumberOfLPsSharingThisTlb e + 1,
       ListOfApicIDsSharingThisTlb :=
         (ListOfApicIDsSharingThisTlb e)(unat (NumberOfLPsSharingThisTlb e) := ApicId)\<rparr>"

text \<open>
  The identifier gatherer: of the strategies that are tried (leaf 0x1F, leaf 0xB), the first
  whose second register is non-zero supplies the identifier from its fourth register;
  otherwise the top 8 bits of the second register of leaf 1 do. And the state in which
  processor \<open>i\<close> is queried: the thread has been bound to the processors \<open>first, ..., i\<close> in
  turn.
\<close>

definition first_successful_strategy ::
  "bool \<Rightarrow> bool \<Rightarrow> (u32 \<Rightarrow> u32 \<Rightarrow> CPUID_REGISTERS) \<Rightarrow> u32" where
  "first_successful_strategy try_1F try_B query =
     (if try_1F \<and> Ebx (query 0x1F 0) \<noteq> 0 then Edx (query 0x1F 0)
      else if try_B \<and> Ebx (query 0xB 0) \<noteq> 0 then Edx (query 0xB 0)
      else drop_bit 24 (Ebx (query 1 0)))"

definition bound_to :: "'os OS_API \<Rightarrow> 'os world \<Rightarrow> nat \<Rightarrow> nat \<Rightarrow> 'os world" where
  "bound_to api w first i =
     foldl (\<lambda>w k. Tools_SetAffinity api (of_nat k) w) w [first..<Suc i]"

section \<open>A recorded platform\<close>

text \<open>
  A trace as \<open>File_ReadCpuidFromFile\<close> leaves it in \<open>g_GlobalData\<close>: eight processors with the
  identifiers \<open>0, ..., 7\<close>; leaf 0 reports leaf 0x1F as the highest; leaf 0xB enumerates
  \<open>LogicalProcessor\<close> at shift 1 and \<open>Core\<close> at shift 2; leaf 0x1F enumerates
  \<open>LogicalProcessor\<close> at shift 1, the unknown domain type 99 at shift 2 and \<open>Core\<close> at
  shift 3; leaf 4 describes a first-level data cache shared by two identifiers and a
  second-level cache shared by four; leaf 0x18 reports the highest subleaf 2 and a
  first-level data TLB in subleaf 0, a second-level unified TLB in subleaf 1, each shared by
  two identifiers, and the invalid type in subleaf 2. In simulated mode the OS layer is
  never called.
\<close>

definition recorded_os :: "unit OS_API" where
  "recorded_os =
     \<lparr>Os_Platform_Read_Cpuid = (\<lambda>_ _ _. zero_registers),
      Os_GetNumberOfProcessors = (\<lambda>_. 0),
      Os_SetAffinity = (\<lambda>_ os. os)\<rparr>"

definition recorded_cpuid :: "nat \<Rightarrow> nat \<Rightarrow> CPUID_REGISTERS" where
  "recorded_cpuid Leaf Subleaf =
     (if Leaf = 0 \<and> Subleaf = 0
      then \<lparr>Eax = 0x1F, Ebx = 0x756E6547, Ecx = 0x6C65746E, Edx = 0x49656E69\<rparr>
      else if Leaf = 1 \<and> Subleaf = 0
      then \<lparr>Eax = 0x806F8, Ebx = 0x00040800, Ecx = 0, Edx = 0x10000000\<rparr>
      else if Leaf = 0xB \<and> Subleaf = 0 then \<lparr>Eax = 1, Ebx = 2, Ecx = 0x100, Edx = 0\<rparr>
      else if Leaf = 0xB \<and> Subleaf = 1 then \<lparr>Eax = 2, Ebx = 4, Ecx = 0x201, Edx = 0\<rparr>
      else if Leaf = 0x1F \<and> Subleaf = 0 then \<lparr>Eax = 1, Ebx = 2, Ecx = 0x100, Edx = 0\<rparr>
      else if Leaf = 0x1F \<and> Subleaf = 1 then \<lparr>Eax = 2, Ebx = 4, Ecx = 0x6301, Edx = 0\<rparr>
      else if Leaf = 0x1F \<and> Subleaf = 2 then \<lparr>Eax = 3, Ebx = 8, Ecx = 0x202, Edx = 0\<rparr>
      else zero_registers)"

definition recorded_leaf4 :: "nat \<Rightarrow> nat \<Rightarrow> CPUID_REGISTERS" where
  "recorded_leaf4 Processor Subleaf =
     (if Subleaf = 0 then \<lparr>Eax = 0x4121, Ebx = 0x02C0003F, Ecx = 0x3F, Edx = 0\<rparr>
      else if Subleaf = 1 then \<lparr>Eax = 0xC143, Ebx = 0x03C0003F, Ecx = 0x7FF, Edx = 0\<rparr>
      else zero_registers)"

definition recorded_leaf18 :: "nat \<Rightarrow> nat \<Rightarrow> CPUID_REGISTERS" where
  "recorded_leaf18 Processor Subleaf =
     (if Subleaf = 0 then \<lparr>Eax = 2, Ebx = 0x00040001, Ecx = 0x10, Edx = 0x4121\<rparr>
      else if Subleaf = 1 then \<lparr>Eax = 0, Ebx = 0x00080003, Ecx = 0x80, Edx = 0x4043\<rparr>
      else zero_registers)"

definition recorded_trace :: GLOBAL_DATA where
  "recorded_trace =
     \<lparr>UseNativeCpuid = False,
      SimulatedCpuid = recorded_cpuid,
      SimulatedCpuidLeaf4 = recorded_leaf4,
      SimulatedCpuidLeaf18 = recorded_leaf18,
      SimulatedApicIds = of_nat,
      NumberOfSimulatedProcessors = 8,
      CurrentProcessorAffinity = 0\<rparr>"

definition recorded_world :: "unit world" where
  "recorded_world = \<lparr>g_GlobalData = recorded_trace, os_state = ()\<rparr>"

text \<open>The levels that many-domain decoding finds on the recorded platform (leaf 0x1F), before
  the masks are built.\<close>

definition recorded_layout :: APICID_BIT_LAYOUT_CTX where
  "recorded_layout =
     zero_APICID_BIT_LAYOUT_CTX
       \<lparr>NumberOfApicIdBits := 32,
        ShiftValues := (\<lambda>_. 0)(0 := 2, 1 := 3),
        ShiftValueDomain := (\<lambda>_. 0)(0 := LogicalProcessorDomain, 1 := CoreDomain),
        PackageDomainIndex := 2\<rparr>"

text \<open>The cache array as \<open>calloc\<close> returns it for the eight processors of the recorded
  platform, and the array with one group in it: identifier \<open>0\<close>, the first-level data cache
  of leaf 4.\<close>

definition recorded_cache_table :: "CPUID_CACHE_INFO list" where
  "recorded_cache_table = replicate 80 zero_CPUID_CACHE_INFO"

definition one_group_table :: "CPUID_CACHE_INFO list" where
  "one_group_table =
     recorded_cache_table
       [0 := zero_CPUID_CACHE_INFO
          \<lparr>CacheId := 0, CacheMask := 0xFFFFFFFE, NumberOfLPsSharingThisCache := 1,
           CachedCpuidRegisters := recorded_leaf4 0 0\<rparr>]"

text \<open>The TLB array for the eight processors of the recorded platform with one group in it:
  identifier \<open>0\<close>, the TLB of subleaf 0 of leaf 0x18.\<close>

definition one_tlb_table :: "CPUID_TLB_INFO list" where
  "one_tlb_table =
     (replicate 200 zero_CPUID_TLB_INFO)
       [0 := zero_CPUID_TLB_INFO
          \<lparr>TlbId := 0, TlbMask := 0xFFFFFFFE, NumberOfLPsSharingThisTlb := 1,
           TlbCachedCpuidRegisters := (recorded_leaf18 0 0)\<lparr>Eax := 0\<rparr>\<rparr>]"

section \<open>A large native platform\<close>

text \<open>
  Native mode on 1792 logical processors whose highest basic leaf is 0x16. The state of the
  OS is the processor the thread is bound to; leaf 0xB answers that processor's identifier;
  a leaf above the highest one answers the data of leaf 0x16, as the processors of this
  family do.
\<close>

definition large_native_cpuid :: "u32 \<Rightarrow> u32 \<Rightarrow> u32 \<Rightarrow> CPUID_REGISTERS" where
  "large_native_cpuid cpu Leaf Subleaf =
     (if Leaf = 0 then \<lparr>Eax = 0x16, Ebx = 0x756E6547, Ecx = 0x6C65746E, Edx = 0x49656E69\<rparr>
      else if Leaf = 1
      then \<lparr>Eax = 0x50654, Ebx = push_bit 24 (cpu AND 0xFF) OR 0x400800, Ecx = 0,
            Edx = 0x10000000\<rparr>
      else if Leaf = 0xB \<and> Subleaf = 0 then \<lparr>Eax = 1, Ebx = 2, Ecx = 0x100, Edx = cpu\<rparr>
      else if Leaf = 0xB \<and> Subleaf = 1 then \<lparr>Eax = 6, Ebx = 56, Ecx = 0x201, Edx = cpu\<rparr>
      else if Leaf = 0xB then \<lparr>Eax = 0, Ebx = 0, Ecx = Subleaf AND 0xFF, Edx = cpu\<rparr>
      else \<lparr>Eax = 0x834, Ebx = 0xE74, Ecx = 0x64, Edx = 0\<rparr>)"

definition large_native_os :: "u32 OS_API" where
  "large_native_os =
     \<lparr>Os_Platform_Read_Cpuid = large_native_cpuid,
      Os_GetNumberOfProcessors = (\<lambda>_. 1792),
      Os_SetAffinity = (\<lambda>ProcessorNumber cpu. if ProcessorNumber < 1792 then ProcessorNumber else cpu)\<rparr>"

definition large_native_world :: "u32 world" where
  "large_native_world =
     \<lparr>g_GlobalData = recorded_trace\<lparr>UseNativeCpuid := True\<rparr>, os_state = 0\<rparr>"

section \<open>A native platform with eleven caches\<close>

text \<open>
  Native mode on one logical processor whose leaf 4 enumerates eleven caches, which differ in
  their number of sets, before the subleaf of type \<open>CacheType_NoMoreCaches\<close>. The highest basic
  leaf is 4, so the processor's identifier comes from leaf 1.
\<close>

definition eleven_caches_cpuid :: "unit \<Rightarrow> u32 \<Rightarrow> u32 \<Rightarrow> CPUID_REGISTERS" where
  "eleven_caches_cpuid os Leaf Subleaf =
     (if Leaf = 0 then \<lparr>Eax = 4, Ebx = 0x756E6547, Ecx = 0x6C65746E, Edx = 0x49656E69\<rparr>
      else if Leaf = 4 \<and> Subleaf < 11
      then \<lparr>Eax = 0x121, Ebx = 0x01C0003F, Ecx = 0x3F + Subleaf, Edx = 0\<rparr>
      else zero_registers)"

definition eleven_caches_os :: "unit OS_API" where
  "eleven_caches_os =
     \<lparr>Os_Platform_Read_Cpuid = eleven_caches_cpuid,
      Os_GetNumberOfProcessors = (\<lambda>_. 1),
      Os_SetAffinity = (\<lambda>_ os. os)\<rparr>"

definition eleven_caches_world :: "unit world" where
  "eleven_caches_world =
     \<lparr>g_GlobalData = recorded_trace\<lparr>UseNativeCpuid := True\<rparr>, os_state = ()\<rparr>"

section \<open>A native platform with thirty-two domains\<close>

text \<open>
  Native mode on one logical processor whose leaf 0x1F enumerates thirty-two subleaves of
  known types before the terminator: \<open>LogicalProcessor\<close> at shift 0, then \<open>Core\<close> at the
  shifts \<open>1, ..., 31\<close>. And the context that many-domain decoding has built when it reaches
  the terminator: thirty-two levels in ascending order of shift, which fill \<open>ShiftValues\<close> and
  \<open>ShiftValueDomain\<close>, and \<open>PackageDomainIndex = 32\<close>.
\<close>

definition many_domains_cpuid :: "unit \<Rightarrow> u32 \<Rightarrow> u32 \<Rightarrow> CPUID_REGISTERS" where
  "many_domains_cpuid os Leaf Subleaf =
     (if Leaf = 0 then \<lparr>Eax = 0x1F, Ebx = 0x756E6547, Ecx = 0x6C65746E, Edx = 0x49656E69\<rparr>
      else if Leaf = 0x1F \<and> Subleaf = 0 then \<lparr>Eax = 0, Ebx = 1, Ecx = 0x100, Edx = 0\<rparr>
      else if Leaf = 0x1F \<and> Subleaf < 32
      then \<lparr>Eax = Subleaf, Ebx = 1, Ecx = 0x200 OR Subleaf, Edx = 0\<rparr>
      else \<lparr>Eax = 0, Ebx = 0, Ecx = Subleaf AND 0xFF, Edx = 0\<rparr>)"

definition many_domains_os :: "unit OS_API" where
  "many_domains_os =
     \<lparr>Os_Platform_Read_Cpuid = many_domains_cpuid,
      Os_GetNumberOfProcessors = (\<lambda>_. 1),
      Os_SetAffinity = (\<lambda>_ os. os)\<rparr>"

definition many_domains_world :: "unit world" where
  "many_domains_world =
     \<lparr>g_GlobalData = recorded_trace\<lparr>UseNativeCpuid := True\<rparr>, os_state = ()\<rparr>"

definition full_layout :: APICID_BIT_LAYOUT_CTX where
  "full_layout =
     zero_APICID_BIT_LAYOUT_CTX
       \<lparr>NumberOfApicIdBits := 32,
        ShiftValues := (\<lambda>i. if i < 32 then of_nat i else 0),
        ShiftValueDomain :=
          (\<lambda>i. if i = 0 then LogicalProcessorDomain else if i < 32 then CoreDomain else 0),
        PackageDomainIndex := 32\<rparr>"

section \<open>Properties of the support tools\<close>

subsection \<open>The shift calculator\<close>

lemma bit_iff_odd_unat_div: "bit (n::u32) k \<longleftrightarrow> odd (unat n div 2 ^ k)"
proof -
  have "bit n k \<longleftrightarrow> bit (unat n) k" by (simp add: bit_unsigned_iff)
  then show ?thesis by (simp add: bit_iff_odd)
qed

lemma odd_div_pow_ge: "odd ((m::nat) div 2 ^ k) \<Longrightarrow> 2 ^ k \<le> m"
  by (metis even_zero Euclidean_Rings.div_eq_0_iff linorder_not_less)

lemma even_div_pow_less:
  assumes e: "\<not> odd ((m::nat) div 2 ^ k)" and b: "m < 2 ^ Suc k"
  shows "m < 2 ^ k"
proof -
  from b have "m div 2 ^ k < 2" by (simp add: less_mult_imp_div_less mult.commute)
  with e have "m div 2 ^ k = 0" by (cases "m div 2 ^ k") auto
  then show ?thesis by (simp add: Euclidean_Rings.div_eq_0_iff)
qed

lemma drop_bit_pow_Suc: "Suc k < 32 \<Longrightarrow> drop_bit (Suc 0) (2 ^ Suc k :: u32) = 2 ^ k"
  by (simp add: drop_bit_exp_eq del: power_Suc)

text \<open>The loop, started on bit \<open>k\<close> with \<open>Shift = k\<close> on a non-zero value below
  \<open>2 ^ (k + 1)\<close>, returns the position of the highest set bit.\<close>

lemma loop_highest_bit:
  "k < 32 \<Longrightarrow> n \<noteq> 0 \<Longrightarrow> unat n < 2 ^ Suc k \<Longrightarrow>
   \<exists>r\<le>k. Tools_CreateTopologyShift_loop n (2 ^ k) (of_nat k) = of_nat r \<and>
          2 ^ r \<le> unat n \<and> unat n < 2 ^ Suc r"
proof (induction k)
  case 0
  then have "unat n = 1" by (cases "unat n") (auto simp: unat_eq_0)
  then have "n = 1" by (metis unat_1 word_unat_eq_iff)
  then show ?case by (simp add: Tools_CreateTopologyShift_loop.simps)
next
  case (Suc k)
  show ?case
  proof (cases "bit n (Suc k)")
    case True
    then have "n AND 2 ^ Suc k \<noteq> 0"
      by (simp add: and_exp_eq_0_iff_not_bit del: power_Suc)
    then have "Tools_CreateTopologyShift_loop n (2 ^ Suc k) (of_nat (Suc k)) = of_nat (Suc k)"
      using Suc.prems(1) by (subst Tools_CreateTopologyShift_loop.simps) simp
    moreover from True have "2 ^ Suc k \<le> unat n"
      by (metis bit_iff_odd_unat_div odd_div_pow_ge)
    ultimately show ?thesis using Suc.prems(3) by blast
  next
    case False
    then have z: "n AND 2 ^ Suc k = 0"
      by (simp add: and_exp_eq_0_iff_not_bit del: power_Suc)
    from False Suc.prems(3) have lt: "unat n < 2 ^ Suc k"
      by (metis bit_iff_odd_unat_div even_div_pow_less)
    have "Tools_CreateTopologyShift_loop n (2 ^ Suc k) (of_nat (Suc k)) =
          Tools_CreateTopologyShift_loop n (2 ^ k) (of_nat k)"
      using Suc.prems(1) z
      by (subst Tools_CreateTopologyShift_loop.simps) (simp add: drop_bit_pow_Suc del: power_Suc)
    moreover from Suc.IH [OF _ Suc.prems(2) lt] Suc.prems(1)
    obtain r where "r \<le> k" "Tools_CreateTopologyShift_loop n (2 ^ k) (of_nat k) = of_nat r"
      "2 ^ r \<le> unat n" "unat n < 2 ^ Suc r" by auto
    ultimately show ?thesis by (metis le_Suc_eq)
  qed
qed

text \<open>\<open>count * 2 - 1\<close> does not wrap for \<open>1 \<le> count \<le> 2 ^ 31\<close>.\<close>

lemma unat_twice_minus_one:
  assumes "1 \<le> unat (c::u32)" "unat c \<le> 2 ^ 31"
  shows "unat (c * 2 - 1) = 2 * unat c - 1"
proof -
  have "Suc (2 * unat c - 1) = 2 * unat c" using assms(1) by simp
  then have "(of_nat (2 * unat c - 1) :: u32) + 1 = of_nat (2 * unat c)"
    by (metis of_nat_Suc add.commute)
  also have "\<dots> = c * 2" by simp
  finally have "c * 2 - 1 = (of_nat (2 * unat c - 1) :: u32)"
    by (metis add_diff_cancel_right')
  moreover have "2 * unat c - 1 < 2 ^ 32" using assms by simp
  ultimately show ?thesis by (simp add: unat_of_nat)
qed

lemma pow_sandwich:
  assumes "2 ^ r \<le> 2 * c - 1" "2 * c - 1 < 2 ^ Suc r" "1 \<le> (c::nat)"
  shows "c \<le> 2 ^ r \<and> (\<forall>t<r. 2 ^ t < c)"
proof
  from assms(2,3) show "c \<le> 2 ^ r" by simp
  show "\<forall>t<r. 2 ^ t < c"
  proof (intro allI impI)
    fix t assume "t < r"
    then have "(2::nat) ^ Suc t \<le> 2 ^ r"
      by (simp add: Suc_leI power_increasing del: power_Suc)
    with assms(1,3) show "2 ^ t < c" by simp
  qed
qed

lemma shift_least_upto_2_31:
  assumes "1 \<le> unat count" "unat count \<le> 2 ^ 31"
  shows "unat count \<le> 2 ^ unat (Tools_CreateTopologyShift count) \<and>
         (\<forall>t < unat (Tools_CreateTopologyShift count). 2 ^ t < unat count)"
proof -
  let ?n = "count * 2 - 1"
  have u: "unat ?n = 2 * unat count - 1" using assms by (rule unat_twice_minus_one)
  have "unat ?n \<noteq> 0" using assms(1) u by simp
  then have nz: "?n \<noteq> 0" by (simp add: unat_eq_0)
  have lt: "unat ?n < 2 ^ Suc 31" using unsigned_less [of ?n] by simp
  from loop_highest_bit [of 31 ?n, OF _ nz lt]
  obtain r where r: "r \<le> 31" "Tools_CreateTopologyShift_loop ?n (2 ^ 31) (of_nat 31) = of_nat r"
    "2 ^ r \<le> unat ?n" "unat ?n < 2 ^ Suc r" by auto
  have "Tools_CreateTopologyShift count = of_nat r"
    using r(2) by (simp add: Tools_CreateTopologyShift_def)
  then have "unat (Tools_CreateTopologyShift count) = r"
    using r(1) by (simp add: unat_of_nat)
  with pow_sandwich [of r "unat count"] r(3,4) u assms(1) show ?thesis by simp
qed

text \<open>The result is a valid shift count for every argument: \<open>count * 2 - 1\<close> is odd.\<close>

lemma Tools_CreateTopologyShift_le_31: "unat (Tools_CreateTopologyShift count) \<le> 31"
proof -
  let ?n = "count * 2 - 1"
  have nz: "?n \<noteq> 0"
  proof
    assume "?n = 0"
    then have "count * 2 = 1" by simp
    moreover have "even (count * 2)" by simp
    ultimately show False by simp
  qed
  have lt: "unat ?n < 2 ^ Suc 31" using unsigned_less [of ?n, where 'a = nat] by simp
  from loop_highest_bit [of 31 ?n, OF _ nz lt]
  obtain r where r: "r \<le> 31" "Tools_CreateTopologyShift_loop ?n (2 ^ 31) (of_nat 31) = of_nat r"
    by auto
  have "Tools_CreateTopologyShift count = of_nat r"
    using r(2) by (simp add: Tools_CreateTopologyShift_def)
  then show ?thesis using r(1) by (simp add: unat_of_nat)
qed

text \<open>
  Claim C1, as stated for every \<open>count \<ge> 1\<close>, fails once \<open>count * 2\<close> wraps: for
  \<open>count = 0x80000001\<close> the function computes \<open>n = 1\<close> and returns \<open>0\<close>, and \<open>1 << 0\<close> is
  below \<open>count\<close>.
\<close>

theorem C1_shift_counterexample:
  "\<not> (unat (0x80000001 :: u32) \<le> 2 ^ unat (Tools_CreateTopologyShift 0x80000001))"
proof -
  have "Tools_CreateTopologyShift 0x80000001 = 0" by code_simp
  then show ?thesis by simp
qed

text \<open>
  Claim C1 (amended): for every \<open>count\<close> with \<open>1 \<le> count \<le> 2 ^ 31\<close>,
  \<open>Tools_CreateTopologyShift count\<close> is the smallest \<open>s\<close> with \<open>2 ^ s \<ge> count\<close>; and the
  function returns \<open>0, 1, 2, 2, 3\<close> for \<open>count = 1, 2, 3, 4, 5\<close>.
\<close>

theorem C1_shift_smallest:
  "(1 \<le> unat count \<and> unat count \<le> 2 ^ 31 \<longrightarrow>
      unat count \<le> 2 ^ unat (Tools_CreateTopologyShift count) \<and>
      (\<forall>t < unat (Tools_CreateTopologyShift count). 2 ^ t < unat count)) \<and>
   Tools_CreateTopologyShift 1 = 0 \<and> Tools_CreateTopologyShift 2 = 1 \<and>
   Tools_CreateTopologyShift 3 = 2 \<and> Tools_CreateTopologyShift 4 = 2 \<and>
   Tools_CreateTopologyShift 5 = 3"
proof -
  have "Tools_CreateTopologyShift 1 = 0" "Tools_CreateTopologyShift 2 = 1"
    "Tools_CreateTopologyShift 3 = 2" "Tools_CreateTopologyShift 4 = 2"
    "Tools_CreateTopologyShift 5 = 3" by code_simp+
  then show ?thesis using shift_least_upto_2_31 [of count] by blast
qed

theorem C1_shift_smallest_witness:
  "1 \<le> unat (4096 :: u32) \<and> unat (4096 :: u32) \<le> 2 ^ 31 \<and>
   unat (4096 :: u32) \<le> 2 ^ unat (Tools_CreateTopologyShift 4096) \<and>
   (2::nat) ^ 11 < unat (4096 :: u32) \<and> Tools_CreateTopologyShift 4096 = 12"
proof -
  have v: "Tools_CreateTopologyShift 4096 = 12" by code_simp
  from C1_shift_smallest [of 4096]
  have "unat (4096 :: u32) \<le> 2 ^ unat (Tools_CreateTopologyShift 4096) \<and>
        (\<forall>t < unat (Tools_CreateTopologyShift 4096). 2 ^ t < unat (4096 :: u32))" by simp
  then have "unat (4096 :: u32) \<le> 2 ^ unat (Tools_CreateTopologyShift 4096)"
    and "(2::nat) ^ 11 < unat (4096 :: u32)" by (simp_all add: v)
  with v show ?thesis by simp
qed

subsection \<open>Simulated mode: queries outside the tables, binding to an absent processor\<close>

text \<open>
  Claim C9: in simulated mode a query with \<open>Leaf \<ge> MAX_SIMULATED_LEAFS\<close> (0x20) or
  \<open>Subleaf \<ge> MAX_SIMULATED_SUBLEAFS\<close> (10) answers four zero registers, whatever the
  tables and the current affinity are.
\<close>

theorem C9_simulated_out_of_range_zero:
  "\<not> UseNativeCpuid (g_GlobalData w) \<Longrightarrow>
   MAX_SIMULATED_LEAFS \<le> Leaf \<or> MAX_SIMULATED_SUBLEAFS \<le> Subleaf \<Longrightarrow>
   Tools_ReadCpuid api w Leaf Subleaf = \<lparr>Eax = 0, Ebx = 0, Ecx = 0, Edx = 0\<rparr>"
  by (auto simp: Tools_ReadCpuid_def Let_def zero_registers_def not_less [symmetric])

text \<open>
  Claim C10: in simulated mode \<open>Tools_SetAffinity\<close> with a processor number that is not
  below \<open>NumberOfSimulatedProcessors\<close> returns the state as it was, so every later query
  answers as before the call.
\<close>

theorem C10_set_affinity_absent_processor:
  "\<not> UseNativeCpuid (g_GlobalData w) \<Longrightarrow>
   NumberOfSimulatedProcessors (g_GlobalData w) \<le> ProcessorNumber \<Longrightarrow>
   Tools_SetAffinity api ProcessorNumber w = w \<and>
   Tools_ReadCpuid api (Tools_SetAffinity api ProcessorNumber w) Leaf Subleaf =
     Tools_ReadCpuid api w Leaf Subleaf"
  by (simp add: Tools_SetAffinity_def not_less [symmetric])

text \<open>Witnesses of the two claims above, on the recorded platform.\<close>

theorem C9_simulated_out_of_range_zero_witness:
  "\<not> UseNativeCpuid (g_GlobalData recorded_world) \<and>
   (MAX_SIMULATED_LEAFS \<le> 0xB \<or> MAX_SIMULATED_SUBLEAFS \<le> 10) \<and>
   Tools_ReadCpuid recorded_os recorded_world 0xB 10 = \<lparr>Eax = 0, Ebx = 0, Ecx = 0, Edx = 0\<rparr>"
proof -
  have h1: "\<not> UseNativeCpuid (g_GlobalData recorded_world)"
    by (simp add: recorded_world_def recorded_trace_def)
  have h2: "MAX_SIMULATED_LEAFS \<le> 0xB \<or> MAX_SIMULATED_SUBLEAFS \<le> 10"
    by (simp add: MAX_SIMULATED_SUBLEAFS_def)
  from C9_simulated_out_of_range_zero [OF h1 h2] h1 h2 show ?thesis by blast
qed

theorem C10_set_affinity_absent_processor_witness:
  "\<not> UseNativeCpuid (g_GlobalData recorded_world) \<and>
   NumberOfSimulatedProcessors (g_GlobalData recorded_world) \<le> 8 \<and>
   Tools_SetAffinity recorded_os 8 recorded_world = recorded_world \<and>
   Tools_ReadCpuid recorded_os (Tools_SetAffinity recorded_os 8 recorded_world) 0x1F 0 =
     Tools_ReadCpuid recorded_os recorded_world 0x1F 0"
proof -
  have h1: "\<not> UseNativeCpuid (g_GlobalData recorded_world)"
    by (simp add: recorded_world_def recorded_trace_def)
  have h2: "NumberOfSimulatedProcessors (g_GlobalData recorded_world) \<le> 8"
    by (simp add: recorded_world_def recorded_trace_def)
  from C10_set_affinity_absent_processor [OF h1 h2] h1 h2 show ?thesis by blast
qed

section \<open>Three-domain decoding\<close>

lemma foldl_last_shift:
  "foldl (\<lambda>P r. f r) P xs = (if xs = [] then P else f (last xs))"
  by (induction xs arbitrary: P) auto

lemma foldl_last_filtered:
  "foldl (\<lambda>L r. if p r then f r else L) L xs =
     (case filter p xs of [] \<Rightarrow> L | y # ys \<Rightarrow> f (last (y # ys)))"
  by (induction xs arbitrary: L) (auto split: list.splits)

text \<open>The loop, entered at subleaf \<open>s\<close> with \<open>n\<close> more subleaves before the terminator,
  folds its two variables over these subleaves.\<close>

lemma ThreeDomain_loop_fold:
  "\<forall>k<n. Ebx (Tools_ReadCpuid api w Leaf (s + of_nat k)) \<noteq> 0 \<Longrightarrow>
   Ebx (Tools_ReadCpuid api w Leaf (s + of_nat n)) = 0 \<Longrightarrow>
   ParseCpu_CpuidThreeDomainExample_loop api w Leaf s (Tools_ReadCpuid api w Leaf s) L P =
     Some (foldl (\<lambda>P r. Eax r AND 0x1F) P
             (map (\<lambda>k. Tools_ReadCpuid api w Leaf (s + of_nat k)) [0..<n]),
           foldl (\<lambda>L r. if drop_bit 8 (Ecx r) AND 0xFF = LogicalProcessorDomain
                         then Eax r AND 0x1F else L) L
             (map (\<lambda>k. Tools_ReadCpuid api w Leaf (s + of_nat k)) [0..<n]))"
proof (induction n arbitrary: s L P)
  case 0
  then show ?case by (subst ParseCpu_CpuidThreeDomainExample_loop.simps) simp
next
  case (Suc n)
  from Suc.prems(1) have "Ebx (Tools_ReadCpuid api w Leaf (s + of_nat 0)) \<noteq> 0"
    by blast
  then have nz: "Ebx (Tools_ReadCpuid api w Leaf s) \<noteq> 0" by simp
  have sh: "\<And>k. s + 1 + of_nat k = s + of_nat (Suc k)" by simp
  have a: "\<forall>k<n. Ebx (Tools_ReadCpuid api w Leaf (s + 1 + of_nat k)) \<noteq> 0"
    using Suc.prems(1) by (simp only: sh) auto
  have b: "Ebx (Tools_ReadCpuid api w Leaf (s + 1 + of_nat n)) = 0"
    using Suc.prems(2) by (simp only: sh)
  have m: "\<And>f :: nat \<Rightarrow> CPUID_REGISTERS.
      map f [0..<Suc n] = f 0 # map (\<lambda>k. f (Suc k)) [0..<n]"
    by (rule map_upt_Suc)
  show ?case
    apply (subst ParseCpu_CpuidThreeDomainExample_loop.simps)
    apply (simp only: nz Let_def if_True simp_thms)
    apply (subst Suc.IH [OF a b])
    apply (simp only: m sh)
    apply (simp add: InvalidDomain_def LogicalProcessorDomain_def del: upt_Suc)
    done
qed

text \<open>
  Claim C6: when subleaves \<open>0, ..., n - 1\<close> of the leaf answer a non-zero \<open>Ebx\<close> and subleaf
  \<open>n\<close> answers \<open>Ebx = 0\<close>, three-domain decoding returns, and reports as package shift the
  shift of subleaf \<open>n - 1\<close> whatever its domain type (\<open>0\<close> when \<open>n = 0\<close>) and as
  logical-processor shift the shift of the last subleaf of type LogicalProcessor (\<open>0\<close> if
  there is none).
\<close>

theorem C6_three_domain_shifts:
  assumes "\<forall>k<n. Ebx (Tools_ReadCpuid api w Leaf (of_nat k)) \<noteq> 0"
    and "Ebx (Tools_ReadCpuid api w Leaf (of_nat n)) = 0"
  shows "ParseCpu_CpuidThreeDomainExample api w Leaf =
           Some (ThreeDomain_PackageShift_spec (enumerated_subleafs api w Leaf n),
                 ThreeDomain_LogicalProcessorShift_spec (enumerated_subleafs api w Leaf n))"
  using ThreeDomain_loop_fold [of n api w Leaf 0 0 0] assms
  by (simp add: ParseCpu_CpuidThreeDomainExample_def ThreeDomain_PackageShift_spec_def
      ThreeDomain_LogicalProcessorShift_spec_def enumerated_subleafs_def
      foldl_last_shift foldl_last_filtered del: upt_Suc)

lemma recorded_leaf_1F:
  "Tools_ReadCpuid recorded_os recorded_world 0x1F 0 = \<lparr>Eax = 1, Ebx = 2, Ecx = 0x100, Edx = 0\<rparr>"
  "Tools_ReadCpuid recorded_os recorded_world 0x1F 1 = \<lparr>Eax = 2, Ebx = 4, Ecx = 0x6301, Edx = 0\<rparr>"
  "Tools_ReadCpuid recorded_os recorded_world 0x1F 2 = \<lparr>Eax = 3, Ebx = 8, Ecx = 0x202, Edx = 0\<rparr>"
  "Tools_ReadCpuid recorded_os recorded_world 0x1F 3 = \<lparr>Eax = 0, Ebx = 0, Ecx = 0, Edx = 0\<rparr>"
  by (simp_all add: Tools_ReadCpuid_def recorded_world_def recorded_trace_def recorded_cpuid_def
      MAX_SIMULATED_LEAFS_def MAX_SIMULATED_SUBLEAFS_def zero_registers_def)

lemma recorded_leaf_1F_subleafs:
  "enumerated_subleafs recorded_os recorded_world 0x1F 3 =
     [\<lparr>Eax = 1, Ebx = 2, Ecx = 0x100, Edx = 0\<rparr>, \<lparr>Eax = 2, Ebx = 4, Ecx = 0x6301, Edx = 0\<rparr>,
      \<lparr>Eax = 3, Ebx = 8, Ecx = 0x202, Edx = 0\<rparr>]"
  by (simp add: enumerated_subleafs_def upt_rec numeral_3_eq_3 recorded_leaf_1F)

lemma recorded_leaf_1F_enumerates:
  "\<forall>k<3. Ebx (Tools_ReadCpuid recorded_os recorded_world 0x1F (of_nat k)) \<noteq> 0"
  "Ebx (Tools_ReadCpuid recorded_os recorded_world 0x1F (of_nat 3)) = 0"
  by (auto simp: less_Suc_eq numeral_3_eq_3 recorded_leaf_1F)

text \<open>On the recorded platform leaf 0x1F ends with \<open>Core\<close> at shift 3: the package shift
  is 3 and the logical-processor shift is 1.\<close>

theorem C6_three_domain_shifts_witness:
  "Ebx (Tools_ReadCpuid recorded_os recorded_world 0x1F 0) \<noteq> 0 \<and>
   Ebx (Tools_ReadCpuid recorded_os recorded_world 0x1F 1) \<noteq> 0 \<and>
   Ebx (Tools_ReadCpuid recorded_os recorded_world 0x1F 2) \<noteq> 0 \<and>
   Ebx (Tools_ReadCpuid recorded_os recorded_world 0x1F 3) = 0 \<and>
   ParseCpu_CpuidThreeDomainExample recorded_os recorded_world 0x1F = Some (3, 1)"
  using C6_three_domain_shifts [OF recorded_leaf_1F_enumerates]
  by (simp add: recorded_leaf_1F recorded_leaf_1F_subleafs ThreeDomain_PackageShift_spec_def
      ThreeDomain_LogicalProcessorShift_spec_def LogicalProcessorDomain_def)

section \<open>The domain mask matrix\<close>

text \<open>The first loop writes the diagonal from \<open>DomainIndex\<close> on and nothing else.\<close>

lemma global_loop_result:
  "unat pdi < MAXIMUM_DOMAINS \<Longrightarrow> (d \<le> unat pdi \<longrightarrow> unat p < 32) \<Longrightarrow>
   \<forall>i. d \<le> i \<and> i < unat pdi \<longrightarrow> unat (shifts i) < 32 \<Longrightarrow>
   \<exists>M'. CreateDomainMaskMatrix_global shifts pdi d p M = Inr M' \<and>
     (\<forall>i j. M' i j =
        (if i = j \<and> d \<le> i \<and> i \<le> unat pdi
         then NOT (push_bit (unat (if i = d then p else shifts (i - 1))) 1 - 1)
         else M i j))"
proof (induction shifts pdi d p M rule: CreateDomainMaskMatrix_global.induct)
  case (1 shifts pdi d p M)
  show ?case
  proof (cases "d \<le> unat pdi")
    case False
    then show ?thesis
      by (subst CreateDomainMaskMatrix_global.simps) auto
  next
    case True
    let ?M1 = "M(d := (M d)(d := NOT (push_bit (unat p) 1 - 1)))"
    from True "1.prems" have b: "\<not> MAXIMUM_DOMAINS \<le> d" "\<not> 32 \<le> unat p" by auto
    have pre2: "d + 1 \<le> unat pdi \<longrightarrow> unat (shifts d) < 32" using "1.prems"(3) by auto
    have pre3: "\<forall>i. d + 1 \<le> i \<and> i < unat pdi \<longrightarrow> unat (shifts i) < 32"
      using "1.prems"(3) by auto
    from "1.IH" [OF True b "1.prems"(1) pre2 pre3]
    obtain M' where M': "CreateDomainMaskMatrix_global shifts pdi (d + 1) (shifts d) ?M1 = Inr M'"
      "\<forall>i j. M' i j =
        (if i = j \<and> d + 1 \<le> i \<and> i \<le> unat pdi
         then NOT (push_bit (unat (if i = d + 1 then shifts d else shifts (i - 1))) 1 - 1)
         else ?M1 i j)" by blast
    have "CreateDomainMaskMatrix_global shifts pdi d p M = Inr M'"
      using True b M'(1) by (subst CreateDomainMaskMatrix_global.simps) simp
    moreover have "\<forall>i j. M' i j =
        (if i = j \<and> d \<le> i \<and> i \<le> unat pdi
         then NOT (push_bit (unat (if i = d then p else shifts (i - 1))) 1 - 1)
         else M i j)"
      using M'(2) True by (auto simp: fun_upd_def)
    ultimately show ?thesis by blast
  qed
qed

text \<open>The inner loop writes row \<open>DomainIndex\<close> from column \<open>NextDomainIndex\<close> on; the
  diagonal is not touched, as \<open>DomainIndex < NextDomainIndex\<close>.\<close>

lemma inner_loop_result:
  "unat pdi < MAXIMUM_DOMAINS \<Longrightarrow> d < n \<Longrightarrow>
   \<exists>M'. CreateDomainMaskMatrix_relative_inner pdi d n M = Inr M' \<and>
     (\<forall>i j. M' i j =
        (if i = d \<and> n \<le> j \<and> j \<le> unat pdi then NOT (M j j) AND M d d else M i j))"
proof (induction pdi d n M rule: CreateDomainMaskMatrix_relative_inner.induct)
  case (1 pdi d n M)
  show ?case
  proof (cases "n \<le> unat pdi")
    case False
    then show ?thesis
      by (subst CreateDomainMaskMatrix_relative_inner.simps) auto
  next
    case True
    let ?M1 = "M(d := (M d)(n := NOT (M n n) AND M d d))"
    from True "1.prems" have b: "\<not> (MAXIMUM_DOMAINS \<le> n \<or> MAXIMUM_DOMAINS \<le> d)" by auto
    from "1.prems"(2) have dn: "d < n + 1" by simp
    from "1.IH" [OF True b "1.prems"(1) dn]
    obtain M' where M': "CreateDomainMaskMatrix_relative_inner pdi d (n + 1) ?M1 = Inr M'"
      "\<forall>i j. M' i j =
        (if i = d \<and> n + 1 \<le> j \<and> j \<le> unat pdi then NOT (?M1 j j) AND ?M1 d d else ?M1 i j)"
      by blast
    have "CreateDomainMaskMatrix_relative_inner pdi d n M = Inr M'"
      using True b M'(1) by (subst CreateDomainMaskMatrix_relative_inner.simps) simp
    moreover have "\<forall>i j. M' i j =
        (if i = d \<and> n \<le> j \<and> j \<le> unat pdi then NOT (M j j) AND M d d else M i j)"
      using M'(2) True "1.prems"(2) by (auto simp: fun_upd_def)
    ultimately show ?thesis by blast
  qed
qed

lemma relative_loop_result:
  "unat pdi < MAXIMUM_DOMAINS \<Longrightarrow>
   \<exists>M'. CreateDomainMaskMatrix_relative pdi d M = Inr M' \<and>
     (\<forall>i j. M' i j =
        (if d \<le> i \<and> i < j \<and> j \<le> unat pdi then NOT (M j j) AND M i i else M i j))"
proof (induction pdi d M rule: CreateDomainMaskMatrix_relative.induct)
  case (1 pdi d M)
  show ?case
  proof (cases "d < unat pdi")
    case False
    then show ?thesis
      by (subst CreateDomainMaskMatrix_relative.simps) auto
  next
    case True
    from inner_loop_result [OF "1.prems", of d "d + 1" M]
    obtain M1 where M1: "CreateDomainMaskMatrix_relative_inner pdi d (d + 1) M = Inr M1"
      "\<forall>i j. M1 i j =
        (if i = d \<and> d + 1 \<le> j \<and> j \<le> unat pdi then NOT (M j j) AND M d d else M i j)"
      by auto
    from "1.IH" [OF True M1(1) "1.prems"]
    obtain M' where M': "CreateDomainMaskMatrix_relative pdi (d + 1) M1 = Inr M'"
      "\<forall>i j. M' i j =
        (if d + 1 \<le> i \<and> i < j \<and> j \<le> unat pdi then NOT (M1 j j) AND M1 i i else M1 i j)"
      by blast
    have "CreateDomainMaskMatrix_relative pdi d M = Inr M'"
      using True M1(1) M'(1) by (subst CreateDomainMaskMatrix_relative.simps) simp
    moreover have "\<forall>i j. M' i j =
        (if d \<le> i \<and> i < j \<and> j \<le> unat pdi then NOT (M j j) AND M i i else M i j)"
      using M'(2) M1(2) by auto
    ultimately show ?thesis by blast
  qed
qed

text \<open>Both loops together.\<close>

lemma CreateDomainMaskMatrix_result:
  assumes "unat (PackageDomainIndex ctx) < MAXIMUM_DOMAINS"
    and "\<forall>i < unat (PackageDomainIndex ctx). unat (ShiftValues ctx i) < 32"
  shows "\<exists>M. ParseCpu_Internal_CreateDomainMaskMatrix ctx = Inr (ctx\<lparr>DomainRelativeMasks := M\<rparr>) \<and>
     (\<forall>i \<le> unat (PackageDomainIndex ctx).
        M i i = NOT (push_bit (unat (previous_shift (ShiftValues ctx) i)) 1 - 1)) \<and>
     (\<forall>i j. i < j \<and> j \<le> unat (PackageDomainIndex ctx) \<longrightarrow> M i j = NOT (M j j) AND M i i)"
proof -
  let ?P = "PackageDomainIndex ctx"
  from global_loop_result [OF assms(1), of 0 0 "ShiftValues ctx" "DomainRelativeMasks ctx"] assms(2)
  obtain M1 where M1: "CreateDomainMaskMatrix_global (ShiftValues ctx) ?P 0 0
        (DomainRelativeMasks ctx) = Inr M1"
    "\<forall>i j. M1 i j =
        (if i = j \<and> 0 \<le> i \<and> i \<le> unat ?P
         then NOT (push_bit (unat (if i = 0 then 0 else ShiftValues ctx (i - 1))) 1 - 1)
         else DomainRelativeMasks ctx i j)" by auto
  from relative_loop_result [OF assms(1), of 0 M1]
  obtain M2 where M2: "CreateDomainMaskMatrix_relative ?P 0 M1 = Inr M2"
    "\<forall>i j. M2 i j =
        (if 0 \<le> i \<and> i < j \<and> j \<le> unat ?P then NOT (M1 j j) AND M1 i i else M1 i j)"
    by blast
  have "ParseCpu_Internal_CreateDomainMaskMatrix ctx = Inr (ctx\<lparr>DomainRelativeMasks := M2\<rparr>)"
    using M1(1) M2(1) by (simp add: ParseCpu_Internal_CreateDomainMaskMatrix_def)
  moreover have d: "\<forall>i. M2 i i = M1 i i" using M2(2) by simp
  then have "\<forall>i \<le> unat ?P.
        M2 i i = NOT (push_bit (unat (previous_shift (ShiftValues ctx) i)) 1 - 1)"
    using M1(2) by (simp add: previous_shift_def)
  moreover have "\<forall>i j. i < j \<and> j \<le> unat ?P \<longrightarrow> M2 i j = NOT (M2 j j) AND M2 i i"
    using M2(2) d by simp
  ultimately show ?thesis by blast
qed

text \<open>
  Claim C2 (amended): for a context with fewer than \<open>MAXIMUM_DOMAINS\<close> levels below the package
  level and shifts below 32 (ascending or not), \<open>ParseCpu_Internal_CreateDomainMaskMatrix\<close>
  succeeds, changes \<open>DomainRelativeMasks\<close> only, sets every diagonal entry \<open>(i, i)\<close>,
  \<open>i \<le> PackageDomainIndex\<close>, to \<open>~((1 << previous shift) - 1)\<close>, where the previous shift
  of level \<open>0\<close> is \<open>0\<close>, and every entry \<open>(i, j)\<close> with \<open>i < j \<le> PackageDomainIndex\<close> to
  \<open>(~M[j][j]) & M[i][i]\<close>.
\<close>

theorem C2_domain_mask_matrix:
  assumes "unat (PackageDomainIndex ctx) < MAXIMUM_DOMAINS"
    and "\<forall>i < unat (PackageDomainIndex ctx). unat (ShiftValues ctx i) < 32"
  shows "\<exists>M. ParseCpu_Internal_CreateDomainMaskMatrix ctx = Inr (ctx\<lparr>DomainRelativeMasks := M\<rparr>) \<and>
     (\<forall>i \<le> unat (PackageDomainIndex ctx).
        M i i = NOT (push_bit (unat (previous_shift (ShiftValues ctx) i)) 1 - 1)) \<and>
     (\<forall>i j. i < j \<and> j \<le> unat (PackageDomainIndex ctx) \<longrightarrow> M i j = NOT (M j j) AND M i i)"
  using assms by (rule CreateDomainMaskMatrix_result)

text \<open>For the shifts 2 and 3: the global masks are \<open>0xFFFFFFFF\<close>, \<open>0xFFFFFFFC\<close> and
  \<open>0xFFFFFFF8\<close>, the relative masks \<open>0x3\<close>, \<open>0x7\<close> and \<open>0x4\<close>.\<close>

theorem C2_domain_mask_matrix_witness:
  "unat (PackageDomainIndex recorded_layout) < MAXIMUM_DOMAINS \<and>
   unat (ShiftValues recorded_layout 0) < 32 \<and> unat (ShiftValues recorded_layout 1) < 32 \<and>
   (\<exists>M. ParseCpu_Internal_CreateDomainMaskMatrix recorded_layout =
          Inr (recorded_layout\<lparr>DomainRelativeMasks := M\<rparr>) \<and>
        M 0 0 = 0xFFFFFFFF \<and> M 1 1 = 0xFFFFFFFC \<and> M 2 2 = 0xFFFFFFF8 \<and>
        M 0 1 = 0x3 \<and> M 0 2 = 0x7 \<and> M 1 2 = 0x4)"
proof -
  have h1: "unat (PackageDomainIndex recorded_layout) < MAXIMUM_DOMAINS"
    by (simp add: recorded_layout_def MAXIMUM_DOMAINS_def)
  have h2: "\<forall>i < unat (PackageDomainIndex recorded_layout). unat (ShiftValues recorded_layout i) < 32"
  proof (intro allI impI)
    fix i assume "i < unat (PackageDomainIndex recorded_layout)"
    then have "i = 0 \<or> i = 1" by (auto simp: recorded_layout_def)
    then show "unat (ShiftValues recorded_layout i) < 32"
      by (auto simp: recorded_layout_def)
  qed
  from C2_domain_mask_matrix [OF h1 h2]
  obtain M where r: "ParseCpu_Internal_CreateDomainMaskMatrix recorded_layout =
          Inr (recorded_layout\<lparr>DomainRelativeMasks := M\<rparr>)"
    and d: "\<forall>i \<le> unat (PackageDomainIndex recorded_layout).
        M i i = NOT (push_bit (unat (previous_shift (ShiftValues recorded_layout) i)) 1 - 1)"
    and o: "\<forall>i j. i < j \<and> j \<le> unat (PackageDomainIndex recorded_layout) \<longrightarrow>
        M i j = NOT (M j j) AND M i i" by blast
  from d have d0: "M 0 0 = 0xFFFFFFFF" and d1: "M 1 1 = 0xFFFFFFFC" and d2: "M 2 2 = 0xFFFFFFF8"
    by (simp_all add: recorded_layout_def previous_shift_def)
  from o have "M 0 1 = NOT (M 1 1) AND M 0 0" "M 0 2 = NOT (M 2 2) AND M 0 0"
    "M 1 2 = NOT (M 2 2) AND M 1 1"
    by (simp_all add: recorded_layout_def)
  with d0 d1 d2 have "M 0 1 = 0x3" "M 0 2 = 0x7" "M 1 2 = 0x4" by simp_all
  with r d0 d1 d2 h1 show ?thesis
    by (auto simp: recorded_layout_def)
qed

text \<open>
  Claim C2, as stated for every shift list, fails on a list of \<open>MAXIMUM_DOMAINS\<close> levels: for
  the thirty-two levels with the ascending shifts \<open>0, ..., 31\<close> the package level is level 32,
  and the first loop, which runs up to \<open>PackageDomainIndex\<close> inclusive, writes
  \<open>DomainRelativeMasks[32][32]\<close>, outside the matrix; no entry is set as the claim says.
\<close>

theorem C2_domain_mask_matrix_counterexample:
  "unat (PackageDomainIndex full_layout) = MAXIMUM_DOMAINS \<and>
   sorted_wrt (<) (map (ShiftValues full_layout) [0..<MAXIMUM_DOMAINS]) \<and>
   ParseCpu_Internal_CreateDomainMaskMatrix full_layout = Inl OutOfBounds"
proof -
  have a: "unat (PackageDomainIndex full_layout) = MAXIMUM_DOMAINS"
    by (simp add: full_layout_def MAXIMUM_DOMAINS_def)
  have b: "sorted_wrt (<) (map (ShiftValues full_layout) [0..<MAXIMUM_DOMAINS])"
    by code_simp
  have "case ParseCpu_Internal_CreateDomainMaskMatrix full_layout of
          Inl f \<Rightarrow> f = OutOfBounds | Inr ctx \<Rightarrow> False"
    by code_simp
  then have c: "ParseCpu_Internal_CreateDomainMaskMatrix full_layout = Inl OutOfBounds"
    by (cases "ParseCpu_Internal_CreateDomainMaskMatrix full_layout") simp_all
  from a b c show ?thesis by simp
qed

section \<open>Many-domain decoding\<close>

lemma unat_plus_one: "unat (x::u32) < MAXIMUM_DOMAINS \<Longrightarrow> unat (x + 1) = Suc (unat x)"
  by (simp add: unat_word_ariths MAXIMUM_DOMAINS_def)

lemma and_1F_less: "unat ((x::u32) AND 0x1F) < 32"
proof -
  have "x AND 0x1F \<le> 0x1F" by (rule word_and_le1)
  then have "unat (x AND 0x1F) \<le> unat (0x1F :: u32)" by (simp add: word_le_nat_alt)
  then show ?thesis by simp
qed

text \<open>The two branches of the \<open>switch\<close>.\<close>

lemma switch_known:
  assumes "Tools_IsDomainKnownEnumeration t" "unat (PackageDomainIndex ctx) < MAXIMUM_DOMAINS"
  shows "\<exists>ctx'. ParseCpu_CpuidManyDomainExample_switch t sh ctx = Inr ctx' \<and>
           ManyDomain_levels ctx' = ManyDomain_levels ctx @ [(t, sh)] \<and>
           unat (PackageDomainIndex ctx') = Suc (unat (PackageDomainIndex ctx)) \<and>
           ((\<forall>i < unat (PackageDomainIndex ctx). unat (ShiftValues ctx i) < 32) \<and> unat sh < 32 \<longrightarrow>
            (\<forall>i < unat (PackageDomainIndex ctx'). unat (ShiftValues ctx' i) < 32))"
  using assms
  by (auto simp: ParseCpu_CpuidManyDomainExample_switch_def Tools_IsDomainKnownEnumeration_def
      ManyDomain_levels_def unat_plus_one less_Suc_eq)

lemma switch_unknown:
  assumes "\<not> Tools_IsDomainKnownEnumeration t" "0 < unat (PackageDomainIndex ctx)"
    "unat (PackageDomainIndex ctx) \<le> MAXIMUM_DOMAINS"
  shows "\<exists>ctx'. ParseCpu_CpuidManyDomainExample_switch t sh ctx = Inr ctx' \<and>
           ManyDomain_levels ctx' =
             butlast (ManyDomain_levels ctx) @ [(fst (last (ManyDomain_levels ctx)), sh)] \<and>
           PackageDomainIndex ctx' = PackageDomainIndex ctx \<and>
           ((\<forall>i < unat (PackageDomainIndex ctx). unat (ShiftValues ctx i) < 32) \<and> unat sh < 32 \<longrightarrow>
            (\<forall>i < unat (PackageDomainIndex ctx'). unat (ShiftValues ctx' i) < 32))"
proof -
  from assms(2) have nz: "PackageDomainIndex ctx \<noteq> 0" by (auto simp: unat_eq_0)
  then have m: "unat (PackageDomainIndex ctx - 1) = unat (PackageDomainIndex ctx) - 1"
    by (rule unat_minus_one)
  with assms(2,3) have b: "\<not> MAXIMUM_DOMAINS \<le> unat (PackageDomainIndex ctx - 1)" by simp
  obtain q where q: "unat (PackageDomainIndex ctx) = Suc q"
    using assms(2) by (cases "unat (PackageDomainIndex ctx)") auto
  show ?thesis
    using assms(1) b
    by (auto simp: ParseCpu_CpuidManyDomainExample_switch_def Tools_IsDomainKnownEnumeration_def
        ManyDomain_levels_def m q less_Suc_eq)
qed

lemma ManyDomain_loop_levels:
  "\<forall>k<n. Ebx (Tools_ReadCpuid api w Leaf (s + of_nat k)) \<noteq> 0 \<Longrightarrow>
   Ebx (Tools_ReadCpuid api w Leaf (s + of_nat n)) = 0 \<Longrightarrow>
   unat (PackageDomainIndex ctx) +
     length (filter (\<lambda>r. Tools_IsDomainKnownEnumeration (drop_bit 8 (Ecx r) AND 0xFF))
       (map (\<lambda>k. Tools_ReadCpuid api w Leaf (s + of_nat k)) [0..<n])) \<le> MAXIMUM_DOMAINS \<Longrightarrow>
   n = 0 \<or> 0 < unat (PackageDomainIndex ctx) \<or>
     Tools_IsDomainKnownEnumeration (drop_bit 8 (Ecx (Tools_ReadCpuid api w Leaf s)) AND 0xFF) \<Longrightarrow>
   \<forall>i < unat (PackageDomainIndex ctx). unat (ShiftValues ctx i) < 32 \<Longrightarrow>
   \<exists>ctx'. ParseCpu_CpuidManyDomainExample_loop api w Leaf s (Tools_ReadCpuid api w Leaf s) ctx =
             Some (Inr ctx') \<and>
          ManyDomain_levels ctx' =
            ManyDomain_levels_spec (ManyDomain_levels ctx)
              (map (\<lambda>k. Tools_ReadCpuid api w Leaf (s + of_nat k)) [0..<n]) \<and>
          unat (PackageDomainIndex ctx') = unat (PackageDomainIndex ctx) +
            length (filter (\<lambda>r. Tools_IsDomainKnownEnumeration (drop_bit 8 (Ecx r) AND 0xFF))
              (map (\<lambda>k. Tools_ReadCpuid api w Leaf (s + of_nat k)) [0..<n])) \<and>
          (\<forall>i < unat (PackageDomainIndex ctx'). unat (ShiftValues ctx' i) < 32)"
proof (induction n arbitrary: s ctx)
  case 0
  then show ?case by (subst ParseCpu_CpuidManyDomainExample_loop.simps) simp
next
  case (Suc n)
  let ?K = "\<lambda>r. Tools_IsDomainKnownEnumeration (drop_bit 8 (Ecx r) AND 0xFF)"
  let ?r = "Tools_ReadCpuid api w Leaf s"
  let ?t = "drop_bit 8 (Ecx ?r) AND 0xFF"
  let ?sh = "Eax ?r AND 0x1F"
  let ?rest = "map (\<lambda>k. Tools_ReadCpuid api w Leaf (s + 1 + of_nat k)) [0..<n]"
  from Suc.prems(1) have "Ebx (Tools_ReadCpuid api w Leaf (s + of_nat 0)) \<noteq> 0" by blast
  then have nz: "Ebx ?r \<noteq> 0" by simp
  have sh: "\<And>k. s + 1 + of_nat k = s + of_nat (Suc k)" by simp
  have a: "\<forall>k<n. Ebx (Tools_ReadCpuid api w Leaf (s + 1 + of_nat k)) \<noteq> 0"
    using Suc.prems(1) by (simp only: sh) auto
  have b: "Ebx (Tools_ReadCpuid api w Leaf (s + 1 + of_nat n)) = 0"
    using Suc.prems(2) by (simp only: sh)
  have m: "map (\<lambda>k. Tools_ReadCpuid api w Leaf (s + of_nat k)) [0..<Suc n] = ?r # ?rest"
    by (simp only: sh map_upt_Suc) simp
  from Suc.prems(3) have cnt: "unat (PackageDomainIndex ctx) +
      (if ?K ?r then Suc (length (filter ?K ?rest)) else length (filter ?K ?rest))
      \<le> MAXIMUM_DOMAINS"
    by (simp only: m filter.simps) (simp split: if_splits)
  have "\<exists>ctx1. ParseCpu_CpuidManyDomainExample_switch ?t ?sh ctx = Inr ctx1 \<and>
      ManyDomain_levels ctx1 =
        (if ?K ?r then ManyDomain_levels ctx @ [(?t, ?sh)]
         else butlast (ManyDomain_levels ctx) @ [(fst (last (ManyDomain_levels ctx)), ?sh)]) \<and>
      unat (PackageDomainIndex ctx1) =
        (if ?K ?r then Suc (unat (PackageDomainIndex ctx)) else unat (PackageDomainIndex ctx)) \<and>
      0 < unat (PackageDomainIndex ctx1) \<and>
      (\<forall>i < unat (PackageDomainIndex ctx1). unat (ShiftValues ctx1 i) < 32)"
  proof (cases "?K ?r")
    case True
    with cnt have "unat (PackageDomainIndex ctx) < MAXIMUM_DOMAINS" by simp
    from switch_known [OF True this, of ?sh] Suc.prems(5) and_1F_less [of "Eax ?r"] True
    show ?thesis by auto
  next
    case False
    with Suc.prems(4) have p: "0 < unat (PackageDomainIndex ctx)" by simp
    from cnt False have "unat (PackageDomainIndex ctx) \<le> MAXIMUM_DOMAINS" by simp
    from switch_unknown [OF False p this, of ?sh] Suc.prems(5) and_1F_less [of "Eax ?r"] False p
    show ?thesis by auto
  qed
  then obtain ctx1 where c1: "ParseCpu_CpuidManyDomainExample_switch ?t ?sh ctx = Inr ctx1"
    and l1: "ManyDomain_levels ctx1 =
        (if ?K ?r then ManyDomain_levels ctx @ [(?t, ?sh)]
         else butlast (ManyDomain_levels ctx) @ [(fst (last (ManyDomain_levels ctx)), ?sh)])"
    and g1: "unat (PackageDomainIndex ctx1) =
        (if ?K ?r then Suc (unat (PackageDomainIndex ctx)) else unat (PackageDomainIndex ctx))"
    and p1: "0 < unat (PackageDomainIndex ctx1)"
    and i1: "\<forall>i < unat (PackageDomainIndex ctx1). unat (ShiftValues ctx1 i) < 32" by blast
  from cnt g1 have b1: "unat (PackageDomainIndex ctx1) + length (filter ?K ?rest)
      \<le> MAXIMUM_DOMAINS" by (simp split: if_splits)
  from p1 have d1: "n = 0 \<or> 0 < unat (PackageDomainIndex ctx1) \<or>
     ?K (Tools_ReadCpuid api w Leaf (s + 1))" by simp
  from Suc.IH [OF a b b1 d1 i1]
  obtain ctx' where r: "ParseCpu_CpuidManyDomainExample_loop api w Leaf (s + 1)
        (Tools_ReadCpuid api w Leaf (s + 1)) ctx1 = Some (Inr ctx')"
    and l: "ManyDomain_levels ctx' = ManyDomain_levels_spec (ManyDomain_levels ctx1) ?rest"
    and g: "unat (PackageDomainIndex ctx') =
        unat (PackageDomainIndex ctx1) + length (filter ?K ?rest)"
    and i: "\<forall>i < unat (PackageDomainIndex ctx'). unat (ShiftValues ctx' i) < 32" by blast
  have "ParseCpu_CpuidManyDomainExample_loop api w Leaf s ?r ctx = Some (Inr ctx')"
    using nz c1 r by (subst ParseCpu_CpuidManyDomainExample_loop.simps) simp
  moreover have "ManyDomain_levels ctx' =
            ManyDomain_levels_spec (ManyDomain_levels ctx)
              (map (\<lambda>k. Tools_ReadCpuid api w Leaf (s + of_nat k)) [0..<Suc n])"
    using l l1 by (simp add: m Let_def del: upt_Suc)
  moreover have "unat (PackageDomainIndex ctx') = unat (PackageDomainIndex ctx) +
      length (filter ?K (map (\<lambda>k. Tools_ReadCpuid api w Leaf (s + of_nat k)) [0..<Suc n]))"
    using g g1 by (simp only: m filter.simps) (simp split: if_splits)
  ultimately show ?case using i by blast
qed

lemma CreateDomainMaskMatrix_succeeds:
  assumes "unat (PackageDomainIndex ctx) < MAXIMUM_DOMAINS"
    and "\<forall>i < unat (PackageDomainIndex ctx). unat (ShiftValues ctx i) < 32"
  shows "\<exists>M. ParseCpu_Internal_CreateDomainMaskMatrix ctx = Inr (ctx\<lparr>DomainRelativeMasks := M\<rparr>)"
  using CreateDomainMaskMatrix_result [OF assms] by blast

text \<open>
  Claim C3 (amended): when subleaves \<open>0, ..., n - 1\<close> answer a non-zero \<open>Ebx\<close>, subleaf \<open>n\<close> answers
  \<open>Ebx = 0\<close>, subleaf \<open>0\<close> has the type LogicalProcessor and fewer than \<open>MAXIMUM_DOMAINS\<close>
  of the subleaves have a known type (so that the levels fit the arrays), many-domain decoding
  returns a context whose levels are those of the specification: a level appended for each
  subleaf of one of the seven known codes, the shift of the last level overwritten for each
  subleaf of any other code.
\<close>

theorem C3_many_domain_levels:
  assumes "\<forall>k<n. Ebx (Tools_ReadCpuid api w Leaf (of_nat k)) \<noteq> 0"
    and "Ebx (Tools_ReadCpuid api w Leaf (of_nat n)) = 0"
    and "0 < n"
    and "drop_bit 8 (Ecx (Tools_ReadCpuid api w Leaf 0)) AND 0xFF = LogicalProcessorDomain"
    and "length (filter (\<lambda>r. Tools_IsDomainKnownEnumeration (drop_bit 8 (Ecx r) AND 0xFF))
           (enumerated_subleafs api w Leaf n)) < MAXIMUM_DOMAINS"
  shows "\<exists>ctx. ParseCpu_CpuidManyDomainExample api w Leaf = Some (Inr ctx) \<and>
           ManyDomain_levels ctx =
             ManyDomain_levels_spec [] (enumerated_subleafs api w Leaf n)"
proof -
  let ?c0 = "zero_APICID_BIT_LAYOUT_CTX\<lparr>NumberOfApicIdBits := 32\<rparr>"
  have z: "PackageDomainIndex zero_APICID_BIT_LAYOUT_CTX = 0"
    by (simp add: zero_APICID_BIT_LAYOUT_CTX_def)
  then have p0: "unat (PackageDomainIndex ?c0) = 0" by simp
  have l0: "ManyDomain_levels ?c0 = []" by (simp add: ManyDomain_levels_def z)
  have k: "Tools_IsDomainKnownEnumeration
      (drop_bit 8 (Ecx (Tools_ReadCpuid api w Leaf 0)) AND 0xFF)"
    by (simp add: assms(4) Tools_IsDomainKnownEnumeration_def)
  from ManyDomain_loop_levels [of n api w Leaf 0 ?c0] assms(1,2,5) k p0
  obtain ctx' where r: "ParseCpu_CpuidManyDomainExample_loop api w Leaf 0
        (Tools_ReadCpuid api w Leaf 0) ?c0 = Some (Inr ctx')"
    and l: "ManyDomain_levels ctx' =
            ManyDomain_levels_spec (ManyDomain_levels ?c0)
              (map (\<lambda>k. Tools_ReadCpuid api w Leaf (0 + of_nat k)) [0..<n])"
    and g: "unat (PackageDomainIndex ctx') = unat (PackageDomainIndex ?c0) +
        length (filter (\<lambda>r. Tools_IsDomainKnownEnumeration (drop_bit 8 (Ecx r) AND 0xFF))
          (map (\<lambda>k. Tools_ReadCpuid api w Leaf (0 + of_nat k)) [0..<n]))"
    and i: "\<forall>i < unat (PackageDomainIndex ctx'). unat (ShiftValues ctx' i) < 32"
    by (auto simp: enumerated_subleafs_def simp del: upt_Suc)
  from g p0 assms(5) have "unat (PackageDomainIndex ctx') < MAXIMUM_DOMAINS"
    by (simp add: enumerated_subleafs_def del: upt_Suc)
  from CreateDomainMaskMatrix_succeeds [OF this i]
  obtain M where M: "ParseCpu_Internal_CreateDomainMaskMatrix ctx' =
      Inr (ctx'\<lparr>DomainRelativeMasks := M\<rparr>)" by blast
  have "ParseCpu_CpuidManyDomainExample api w Leaf = Some (Inr (ctx'\<lparr>DomainRelativeMasks := M\<rparr>))"
    using r M by (simp add: ParseCpu_CpuidManyDomainExample_def)
  moreover have "ManyDomain_levels (ctx'\<lparr>DomainRelativeMasks := M\<rparr>) = ManyDomain_levels ctx'"
    by (simp add: ManyDomain_levels_def)
  ultimately show ?thesis using l l0
    by (simp add: enumerated_subleafs_def del: upt_Suc)
qed

text \<open>Leaf 0x1F of the recorded platform enumerates LogicalProcessor at shift 1, the
  unknown type 99 at shift 2, Core at shift 3 and the terminator: exactly two levels result,
  LogicalProcessor at shift 2 and Core at shift 3.\<close>

theorem C3_many_domain_levels_witness:
  "Ebx (Tools_ReadCpuid recorded_os recorded_world 0x1F 0) \<noteq> 0 \<and>
   Ebx (Tools_ReadCpuid recorded_os recorded_world 0x1F 1) \<noteq> 0 \<and>
   Ebx (Tools_ReadCpuid recorded_os recorded_world 0x1F 2) \<noteq> 0 \<and>
   Ebx (Tools_ReadCpuid recorded_os recorded_world 0x1F 3) = 0 \<and>
   drop_bit 8 (Ecx (Tools_ReadCpuid recorded_os recorded_world 0x1F 0)) AND 0xFF =
     LogicalProcessorDomain \<and>
   drop_bit 8 (Ecx (Tools_ReadCpuid recorded_os recorded_world 0x1F 1)) AND 0xFF = 99 \<and>
   (\<exists>ctx. ParseCpu_CpuidManyDomainExample recorded_os recorded_world 0x1F = Some (Inr ctx) \<and>
          ManyDomain_levels ctx = [(LogicalProcessorDomain, 2), (CoreDomain, 3)] \<and>
          PackageDomainIndex ctx = 2)"
proof -
  have t: "drop_bit 8 (Ecx (Tools_ReadCpuid recorded_os recorded_world 0x1F 0)) AND 0xFF =
     LogicalProcessorDomain"
    by (simp add: recorded_leaf_1F LogicalProcessorDomain_def)
  have n: "(0::nat) < 3" by simp
  have c: "length (filter (\<lambda>r. Tools_IsDomainKnownEnumeration (drop_bit 8 (Ecx r) AND 0xFF))
           (enumerated_subleafs recorded_os recorded_world 0x1F 3)) < MAXIMUM_DOMAINS"
    by (simp add: recorded_leaf_1F_subleafs MAXIMUM_DOMAINS_def)
  from C3_many_domain_levels [OF recorded_leaf_1F_enumerates n t c]
  obtain ctx where c: "ParseCpu_CpuidManyDomainExample recorded_os recorded_world 0x1F = Some (Inr ctx)"
    and l: "ManyDomain_levels ctx =
             ManyDomain_levels_spec [] (enumerated_subleafs recorded_os recorded_world 0x1F 3)"
    by blast
  from l have l': "ManyDomain_levels ctx = [(LogicalProcessorDomain, 2), (CoreDomain, 3)]"
    by (simp add: recorded_leaf_1F_subleafs Tools_IsDomainKnownEnumeration_def
        InvalidDomain_def LogicalProcessorDomain_def CoreDomain_def ModuleDomain_def
        TileDomain_def DieDomain_def DieGrpDomain_def)
  then have "length (ManyDomain_levels ctx) = 2" by simp
  then have "unat (PackageDomainIndex ctx) = 2" by (simp add: ManyDomain_levels_def)
  then have "PackageDomainIndex ctx = 2" by (simp add: word_unat_eq_iff)
  with c l' t show ?thesis by (auto simp: recorded_leaf_1F)
qed

text \<open>
  Claim C3, as stated for every enumerated sequence that starts with LogicalProcessor, fails
  when \<open>MAXIMUM_DOMAINS\<close> subleaves have a known type: on the platform with thirty-two
  domains the loop stores the thirty-two levels and leaves \<open>PackageDomainIndex = 32\<close>, and the
  mask matrix built from them is written at \<open>DomainRelativeMasks[32][32]\<close>, outside the
  context; the run does not return the levels.
\<close>

theorem C3_many_domain_levels_counterexample:
  "drop_bit 8 (Ecx (Tools_ReadCpuid many_domains_os many_domains_world 0x1F 0)) AND 0xFF =
     LogicalProcessorDomain \<and>
   list_all (\<lambda>r. Ebx r \<noteq> 0 \<and> Tools_IsDomainKnownEnumeration (drop_bit 8 (Ecx r) AND 0xFF))
     (enumerated_subleafs many_domains_os many_domains_world 0x1F 32) \<and>
   Ebx (Tools_ReadCpuid many_domains_os many_domains_world 0x1F 32) = 0 \<and>
   ParseCpu_CpuidManyDomainExample many_domains_os many_domains_world 0x1F =
     Some (Inl OutOfBounds)"
proof -
  have a: "drop_bit 8 (Ecx (Tools_ReadCpuid many_domains_os many_domains_world 0x1F 0)) AND 0xFF =
     LogicalProcessorDomain" by code_simp
  have b: "list_all (\<lambda>r. Ebx r \<noteq> 0 \<and> Tools_IsDomainKnownEnumeration (drop_bit 8 (Ecx r) AND 0xFF))
     (enumerated_subleafs many_domains_os many_domains_world 0x1F 32)" by code_simp
  have c: "Ebx (Tools_ReadCpuid many_domains_os many_domains_world 0x1F 32) = 0" by code_simp
  have "case ParseCpu_CpuidManyDomainExample many_domains_os many_domains_world 0x1F of
          Some (Inl f) \<Rightarrow> f = OutOfBounds | _ \<Rightarrow> False"
    by code_simp
  then have d: "ParseCpu_CpuidManyDomainExample many_domains_os many_domains_world 0x1F =
     Some (Inl OutOfBounds)"
    by (auto split: option.splits sum.splits)
  from a b c d show ?thesis by simp
qed

section \<open>Resource grouping\<close>

text \<open>An index below a count is not \<open>0xFFFFFFFF\<close> and its successor does not wrap.\<close>

lemma index_below_count_valid:
  "(i::u32) < n \<Longrightarrow> i \<noteq> - 1 \<and> unat (i + 1) = Suc (unat i) \<and> unat i < unat n"
proof -
  assume "i < n"
  then have lt: "unat i < unat n" by (simp add: word_less_nat_alt)
  moreover have "unat n < 2 ^ 32" using unsigned_less [of n, where 'a = nat] by simp
  ultimately have "unat i + 1 < 2 ^ 32" by simp
  then have "unat (i + 1) = Suc (unat i)" by (simp add: unat_word_ariths)
  moreover have "i \<noteq> - 1"
  proof
    assume "i = - 1"
    then have "unat i = 2 ^ 32 - 1" by (simp add: unsigned_minus_1_eq_mask mask_eq_exp_minus_1)
    with \<open>unat i + 1 < 2 ^ 32\<close> show False by simp
  qed
  ultimately show ?thesis using lt by simp
qed

text \<open>The search loop returns the first group, from \<open>CacheIndex\<close> on, with the identifier
  and the snapshot looked for, and \<open>INVALID_CACHE_INDEX\<close> when there is none.\<close>

lemma FindMatchingCacheEntry_loop_found:
  "f \<noteq> INVALID_CACHE_INDEX \<Longrightarrow>
   ParseCache_Internal_FindMatchingCacheEntry_loop p n c r i f = Inr f"
  by (subst ParseCache_Internal_FindMatchingCacheEntry_loop.simps) simp

lemma FindMatchingCacheEntry_loop_result:
  "unat n \<le> length p \<Longrightarrow> d = unat n - unat i \<Longrightarrow> i \<le> n \<Longrightarrow>
   \<exists>res. ParseCache_Internal_FindMatchingCacheEntry_loop p n c r i INVALID_CACHE_INDEX = Inr res \<and>
     (if \<exists>k. unat i \<le> k \<and> k < unat n \<and> CacheId (p ! k) = c \<and> CachedCpuidRegisters (p ! k) = r
      then res \<noteq> INVALID_CACHE_INDEX \<and> unat i \<le> unat res \<and> unat res < unat n \<and>
           CacheId (p ! unat res) = c \<and> CachedCpuidRegisters (p ! unat res) = r \<and>
           (\<forall>k. unat i \<le> k \<and> k < unat res \<longrightarrow>
              \<not> (CacheId (p ! k) = c \<and> CachedCpuidRegisters (p ! k) = r))
      else res = INVALID_CACHE_INDEX)"
proof (induction d arbitrary: i)
  case 0
  then have "\<not> i < n" by (simp add: word_less_nat_alt word_le_nat_alt)
  moreover from this have "\<not> (\<exists>k. unat i \<le> k \<and> k < unat n \<and> CacheId (p ! k) = c \<and>
      CachedCpuidRegisters (p ! k) = r)" by (auto simp: word_less_nat_alt)
  ultimately show ?case
    by (subst ParseCache_Internal_FindMatchingCacheEntry_loop.simps) simp
next
  case (Suc d)
  from Suc.prems(2) have lt: "i < n" by (simp add: word_less_nat_alt)
  from index_below_count_valid [OF lt]
  have ni: "i \<noteq> INVALID_CACHE_INDEX" and su: "unat (i + 1) = Suc (unat i)"
    and ul: "unat i < unat n" by (simp_all add: INVALID_CACHE_INDEX_def)
  from ul Suc.prems(1) have inb: "\<not> length p \<le> unat i" by simp
  show ?case
  proof (cases "CacheId (p ! unat i) = c \<and> CachedCpuidRegisters (p ! unat i) = r")
    case True
    have "ParseCache_Internal_FindMatchingCacheEntry_loop p n c r i INVALID_CACHE_INDEX = Inr i"
      using lt inb True ni
      by (subst ParseCache_Internal_FindMatchingCacheEntry_loop.simps)
         (simp add: FindMatchingCacheEntry_loop_found)
    with True ul ni show ?thesis by auto
  next
    case False
    have d': "d = unat n - unat (i + 1)" using Suc.prems(2) su by simp
    have le: "i + 1 \<le> n" using ul su by (simp add: word_le_nat_alt)
    have st: "ParseCache_Internal_FindMatchingCacheEntry_loop p n c r i INVALID_CACHE_INDEX =
        ParseCache_Internal_FindMatchingCacheEntry_loop p n c r (i + 1) INVALID_CACHE_INDEX"
      using lt inb False
      by (subst ParseCache_Internal_FindMatchingCacheEntry_loop.simps) auto
    have ex: "(\<exists>k. unat i \<le> k \<and> k < unat n \<and> CacheId (p ! k) = c \<and>
          CachedCpuidRegisters (p ! k) = r) \<longleftrightarrow>
        (\<exists>k. unat (i + 1) \<le> k \<and> k < unat n \<and> CacheId (p ! k) = c \<and>
          CachedCpuidRegisters (p ! k) = r)"
      using False su by (metis Suc_leI le_neq_implies_less Suc_leD)
    from Suc.IH [OF Suc.prems(1) d' le]
    obtain res where res:
      "ParseCache_Internal_FindMatchingCacheEntry_loop p n c r (i + 1) INVALID_CACHE_INDEX = Inr res"
      "if \<exists>k. unat (i + 1) \<le> k \<and> k < unat n \<and> CacheId (p ! k) = c \<and>
            CachedCpuidRegisters (p ! k) = r
       then res \<noteq> INVALID_CACHE_INDEX \<and> unat (i + 1) \<le> unat res \<and> unat res < unat n \<and>
           CacheId (p ! unat res) = c \<and> CachedCpuidRegisters (p ! unat res) = r \<and>
           (\<forall>k. unat (i + 1) \<le> k \<and> k < unat res \<longrightarrow>
              \<not> (CacheId (p ! k) = c \<and> CachedCpuidRegisters (p ! k) = r))
       else res = INVALID_CACHE_INDEX" by blast
    show ?thesis
    proof (cases "\<exists>k. unat (i + 1) \<le> k \<and> k < unat n \<and> CacheId (p ! k) = c \<and>
            CachedCpuidRegisters (p ! k) = r")
      case True
      with res(2) have r2: "res \<noteq> INVALID_CACHE_INDEX" "unat (i + 1) \<le> unat res"
        "unat res < unat n" "CacheId (p ! unat res) = c"
        "CachedCpuidRegisters (p ! unat res) = r"
        "\<forall>k. unat (i + 1) \<le> k \<and> k < unat res \<longrightarrow>
              \<not> (CacheId (p ! k) = c \<and> CachedCpuidRegisters (p ! k) = r)" by simp_all
      have "\<forall>k. unat i \<le> k \<and> k < unat res \<longrightarrow>
              \<not> (CacheId (p ! k) = c \<and> CachedCpuidRegisters (p ! k) = r)"
      proof (intro allI impI)
        fix k assume k: "unat i \<le> k \<and> k < unat res"
        show "\<not> (CacheId (p ! k) = c \<and> CachedCpuidRegisters (p ! k) = r)"
        proof (cases "k = unat i")
          case True with False show ?thesis by simp
        next
          case False with k su have "unat (i + 1) \<le> k \<and> k < unat res" by simp
          with r2(6) show ?thesis by blast
        qed
      qed
      moreover from True ex have "\<exists>k. unat i \<le> k \<and> k < unat n \<and> CacheId (p ! k) = c \<and>
          CachedCpuidRegisters (p ! k) = r" by simp
      moreover from r2(2) su have "unat i \<le> unat res" by simp
      ultimately show ?thesis using st res(1) r2 by simp
    next
      case F: False
      with res(2) have "res = INVALID_CACHE_INDEX" by simp
      moreover from F ex have "\<not> (\<exists>k. unat i \<le> k \<and> k < unat n \<and> CacheId (p ! k) = c \<and>
          CachedCpuidRegisters (p ! k) = r)" by simp
      ultimately show ?thesis using st res(1) by simp
    qed
  qed
qed

lemma FindMatchingCacheEntry_result:
  assumes "unat n \<le> length p"
  shows "\<exists>res. ParseCache_Internal_FindMatchingCacheEntry p n c r = Inr res \<and>
     (if \<exists>k < unat n. cache_group_matches (p ! k) c r
      then res \<noteq> INVALID_CACHE_INDEX \<and> unat res < unat n \<and>
           cache_group_matches (p ! unat res) c r \<and>
           (\<forall>k < unat res. \<not> cache_group_matches (p ! k) c r)
      else res = INVALID_CACHE_INDEX)"
proof -
  have "(0::u32) \<le> n" by simp
  from FindMatchingCacheEntry_loop_result [OF assms refl this, of c r]
  show ?thesis
    unfolding ParseCache_Internal_FindMatchingCacheEntry_def cache_group_matches_def
    by (simp only: unsigned_0 le0 simp_thms conj_assoc)
qed


text \<open>The body of the subleaf loop when the group exists, and when it does not.\<close>

lemma subleaf_found:
  assumes "ParseCache_Internal_FindMatchingCacheEntry p n (group_id a (Eax r)) r = Inr i"
    and "i \<noteq> INVALID_CACHE_INDEX" and "unat i < length p"
  shows "ParseCache_CpuidCacheExample_subleaf a r p n =
     (if unat MAX_PROCESSORS \<le> unat (NumberOfLPsSharingThisCache (p ! unat i))
      then Inl OutOfBounds
      else Inr (p[unat i := (p ! unat i)
                  \<lparr>NumberOfLPsSharingThisCache := NumberOfLPsSharingThisCache (p ! unat i) + 1,
                   ListOfApicIDsSharingThisCache :=
                     (ListOfApicIDsSharingThisCache (p ! unat i))
                       (unat (NumberOfLPsSharingThisCache (p ! unat i)) := a)\<rparr>], n, i))"
  using assms
  by (simp add: ParseCache_CpuidCacheExample_subleaf_def Let_def group_id_def group_mask_def)

lemma subleaf_added:
  assumes "ParseCache_Internal_FindMatchingCacheEntry p n (group_id a (Eax r)) r =
      Inr INVALID_CACHE_INDEX"
    and "n \<noteq> INVALID_CACHE_INDEX"
  shows "ParseCache_CpuidCacheExample_subleaf a r p n =
     (if length p \<le> unat n then Inl OutOfBounds
      else Inr (p[unat n := (p ! unat n)
                  \<lparr>CacheType := Eax r AND 0x1F,
                   CacheLevel := drop_bit 5 (Eax r) AND 0x7,
                   CacheId := group_id a (Eax r),
                   CacheMask := group_mask (Eax r),
                   CacheWays := drop_bit 22 (Ebx r) + 1,
                   CachePartitions := (drop_bit 12 (Ebx r) AND 0x3FF) + 1,
                   CacheLineSize := (Ebx r AND 0xFFF) + 1,
                   CacheSets := Ecx r + 1,
                   CacheSizeInBytes := (drop_bit 22 (Ebx r) + 1) * ((Ebx r AND 0xFFF) + 1) *
                     ((drop_bit 12 (Ebx r) AND 0x3FF) + 1) * (Ecx r + 1),
                   SelfInitializing := (Eax r AND push_bit 8 1 \<noteq> 0),
                   CacheIsFullyAssociative := (Eax r AND push_bit 9 1 \<noteq> 0),
                   WbinvdFlushsLowerLevelsSharing := \<not> (Edx r AND 1 \<noteq> 0),
                   CacheIsInclusive := (Edx r AND 2 \<noteq> 0),
                   CacheIsDirectMapped := \<not> (Edx r AND 4 \<noteq> 0),
                   CacheIsComplex := (Edx r AND 4 \<noteq> 0),
                   CachedCpuidRegisters := r,
                   NumberOfLPsSharingThisCache := 1,
                   ListOfApicIDsSharingThisCache :=
                     (ListOfApicIDsSharingThisCache (p ! unat n))(0 := a)\<rparr>], n + 1, n))"
  using assms
  by (simp add: ParseCache_CpuidCacheExample_subleaf_def ParseCache_Internal_AddCacheEntry_def
      Let_def group_id_def group_mask_def MAX_PROCESSORS_def)

text \<open>The same for the TLB search.\<close>

lemma FindMatchingTlbEntry_loop_found:
  "f \<noteq> INVALID_TLB_INDEX \<Longrightarrow>
   ParseTlb_Internal_FindMatchingTlbEntry_loop p n c r i f = Inr f"
  by (subst ParseTlb_Internal_FindMatchingTlbEntry_loop.simps) simp

lemma FindMatchingTlbEntry_loop_result:
  "unat n \<le> length p \<Longrightarrow> d = unat n - unat i \<Longrightarrow> i \<le> n \<Longrightarrow>
   \<exists>res. ParseTlb_Internal_FindMatchingTlbEntry_loop p n c r i INVALID_TLB_INDEX = Inr res \<and>
     (if \<exists>k. unat i \<le> k \<and> k < unat n \<and> TlbId (p ! k) = c \<and> TlbCachedCpuidRegisters (p ! k) = r
      then res \<noteq> INVALID_TLB_INDEX \<and> unat i \<le> unat res \<and> unat res < unat n \<and>
           TlbId (p ! unat res) = c \<and> TlbCachedCpuidRegisters (p ! unat res) = r \<and>
           (\<forall>k. unat i \<le> k \<and> k < unat res \<longrightarrow>
              \<not> (TlbId (p ! k) = c \<and> TlbCachedCpuidRegisters (p ! k) = r))
      else res = INVALID_TLB_INDEX)"
proof (induction d arbitrary: i)
  case 0
  then have "\<not> i < n" by (simp add: word_less_nat_alt word_le_nat_alt)
  moreover from this have "\<not> (\<exists>k. unat i \<le> k \<and> k < unat n \<and> TlbId (p ! k) = c \<and>
      TlbCachedCpuidRegisters (p ! k) = r)" by (auto simp: word_less_nat_alt)
  ultimately show ?case
    by (subst ParseTlb_Internal_FindMatchingTlbEntry_loop.simps) simp
next
  case (Suc d)
  from Suc.prems(2) have lt: "i < n" by (simp add: word_less_nat_alt)
  from index_below_count_valid [OF lt]
  have ni: "i \<noteq> INVALID_TLB_INDEX" and su: "unat (i + 1) = Suc (unat i)"
    and ul: "unat i < unat n" by (simp_all add: INVALID_TLB_INDEX_def)
  from ul Suc.prems(1) have inb: "\<not> length p \<le> unat i" by simp
  show ?case
  proof (cases "TlbId (p ! unat i) = c \<and> TlbCachedCpuidRegisters (p ! unat i) = r")
    case True
    have "ParseTlb_Internal_FindMatchingTlbEntry_loop p n c r i INVALID_TLB_INDEX = Inr i"
      using lt inb True ni
      by (subst ParseTlb_Internal_FindMatchingTlbEntry_loop.simps)
         (simp add: FindMatchingTlbEntry_loop_found)
    with True ul ni show ?thesis by auto
  next
    case False
    have d': "d = unat n - unat (i + 1)" using Suc.prems(2) su by simp
    have le: "i + 1 \<le> n" using ul su by (simp add: word_le_nat_alt)
    have st: "ParseTlb_Internal_FindMatchingTlbEntry_loop p n c r i INVALID_TLB_INDEX =
        ParseTlb_Internal_FindMatchingTlbEntry_loop p n c r (i + 1) INVALID_TLB_INDEX"
      using lt inb False
      by (subst ParseTlb_Internal_FindMatchingTlbEntry_loop.simps) auto
    have ex: "(\<exists>k. unat i \<le> k \<and> k < unat n \<and> TlbId (p ! k) = c \<and>
          TlbCachedCpuidRegisters (p ! k) = r) \<longleftrightarrow>
        (\<exists>k. unat (i + 1) \<le> k \<and> k < unat n \<and> TlbId (p ! k) = c \<and>
          TlbCachedCpuidRegisters (p ! k) = r)"
      using False su by (metis Suc_leI le_neq_implies_less Suc_leD)
    from Suc.IH [OF Suc.prems(1) d' le]
    obtain res where res:
      "ParseTlb_Internal_FindMatchingTlbEntry_loop p n c r (i + 1) INVALID_TLB_INDEX = Inr res"
      "if \<exists>k. unat (i + 1) \<le> k \<and> k < unat n \<and> TlbId (p ! k) = c \<and>
            TlbCachedCpuidRegisters (p ! k) = r
       then res \<noteq> INVALID_TLB_INDEX \<and> unat (i + 1) \<le> unat res \<and> unat res < unat n \<and>
           TlbId (p ! unat res) = c \<and> TlbCachedCpuidRegisters (p ! unat res) = r \<and>
           (\<forall>k. unat (i + 1) \<le> k \<and> k < unat res \<longrightarrow>
              \<not> (TlbId (p ! k) = c \<and> TlbCachedCpuidRegisters (p ! k) = r))
       else res = INVALID_TLB_INDEX" by blast
    show ?thesis
    proof (cases "\<exists>k. unat (i + 1) \<le> k \<and> k < unat n \<and> TlbId (p ! k) = c \<and>
            TlbCachedCpuidRegisters (p ! k) = r")
      case True
      with res(2) have r2: "res \<noteq> INVALID_TLB_INDEX" "unat (i + 1) \<le> unat res"
        "unat res < unat n" "TlbId (p ! unat res) = c"
        "TlbCachedCpuidRegisters (p ! unat res) = r"
        "\<forall>k. unat (i + 1) \<le> k \<and> k < unat res \<longrightarrow>
              \<not> (TlbId (p ! k) = c \<and> TlbCachedCpuidRegisters (p ! k) = r)" by simp_all
      have "\<forall>k. unat i \<le> k \<and> k < unat res \<longrightarrow>
              \<not> (TlbId (p ! k) = c \<and> TlbCachedCpuidRegisters (p ! k) = r)"
      proof (intro allI impI)
        fix k assume k: "unat i \<le> k \<and> k < unat res"
        show "\<not> (TlbId (p ! k) = c \<and> TlbCachedCpuidRegisters (p ! k) = r)"
        proof (cases "k = unat i")
          case True with False show ?thesis by simp
        next
          case False with k su have "unat (i + 1) \<le> k \<and> k < unat res" by simp
          with r2(6) show ?thesis by blast
        qed
      qed
      moreover from True ex have "\<exists>k. unat i \<le> k \<and> k < unat n \<and> TlbId (p ! k) = c \<and>
          TlbCachedCpuidRegisters (p ! k) = r" by simp
      moreover from r2(2) su have "unat i \<le> unat res" by simp
      ultimately show ?thesis using st res(1) r2 by simp
    next
      case F: False
      with res(2) have "res = INVALID_TLB_INDEX" by simp
      moreover from F ex have "\<not> (\<exists>k. unat i \<le> k \<and> k < unat n \<and> TlbId (p ! k) = c \<and>
          TlbCachedCpuidRegisters (p ! k) = r)" by simp
      ultimately show ?thesis using st res(1) by simp
    qed
  qed
qed

lemma FindMatchingTlbEntry_result:
  assumes "unat n \<le> length p"
  shows "\<exists>res. ParseTlb_Internal_FindMatchingTlbEntry p n c r = Inr res \<and>
     (if \<exists>k < unat n. tlb_group_matches (p ! k) c r
      then res \<noteq> INVALID_TLB_INDEX \<and> unat res < unat n \<and>
           tlb_group_matches (p ! unat res) c r \<and>
           (\<forall>k < unat res. \<not> tlb_group_matches (p ! k) c r)
      else res = INVALID_TLB_INDEX)"
proof -
  have "(0::u32) \<le> n" by simp
  from FindMatchingTlbEntry_loop_result [OF assms refl this, of c r]
  show ?thesis
    unfolding ParseTlb_Internal_FindMatchingTlbEntry_def tlb_group_matches_def
    by (simp only: unsigned_0 le0 simp_thms conj_assoc)
qed


lemma count_plus_one:
  "unat (c::u32) + 1 < unat MAX_PROCESSORS \<Longrightarrow>
   unat (c + 1) = Suc (unat c) \<and> \<not> unat MAX_PROCESSORS \<le> unat (c + 1) \<and>
   \<not> unat MAX_PROCESSORS \<le> unat c"
  by (simp add: unat_word_ariths MAX_PROCESSORS_def)


text \<open>One subleaf, processed on a table with room for a new group.\<close>

lemma subleaf_step:
  fixes p :: "CPUID_CACHE_INFO list"
  assumes room: "unat n < length p" and len: "length p < 2 ^ 32"
    and cnt: "\<forall>k < unat n. \<not> unat MAX_PROCESSORS \<le> unat (NumberOfLPsSharingThisCache (p ! k))"
  shows "\<exists>p1 n1 i.
     ParseCache_CpuidCacheExample_subleaf a r p n = Inr (p1, n1, i) \<and>
     unat i < unat n1 \<and> unat i \<le> unat n \<and>
     unat n1 = (if unat i < unat n then unat n else Suc (unat n)) \<and> length p1 = length p \<and>
     cache_group_matches (p1 ! unat i) (group_id a (Eax r)) r \<and>
     (\<forall>k. k \<noteq> unat i \<longrightarrow> p1 ! k = p ! k) \<and>
     (if unat i < unat n
      then cache_group_matches (p ! unat i) (group_id a (Eax r)) r \<and>
           NumberOfLPsSharingThisCache (p1 ! unat i) =
             NumberOfLPsSharingThisCache (p ! unat i) + 1
      else NumberOfLPsSharingThisCache (p1 ! unat i) = 1)"
proof -
  let ?g = "group_id a (Eax r)"
  from room have nl: "unat n \<le> length p" by simp
  from FindMatchingCacheEntry_result [OF nl, of ?g r]
  obtain res where f: "ParseCache_Internal_FindMatchingCacheEntry p n ?g r = Inr res"
    and fr: "if \<exists>k < unat n. cache_group_matches (p ! k) ?g r
      then res \<noteq> INVALID_CACHE_INDEX \<and> unat res < unat n \<and>
           cache_group_matches (p ! unat res) ?g r \<and>
           (\<forall>k < unat res. \<not> cache_group_matches (p ! k) ?g r)
      else res = INVALID_CACHE_INDEX" by blast
  show ?thesis
  proof (cases "\<exists>k < unat n. cache_group_matches (p ! k) ?g r")
    case True
    with fr have ri: "res \<noteq> INVALID_CACHE_INDEX" and rn: "unat res < unat n"
      and rm: "cache_group_matches (p ! unat res) ?g r" by simp_all
    from rn room have rl: "unat res < length p" by simp
    from cnt rn have c1: "\<not> unat MAX_PROCESSORS \<le> unat (NumberOfLPsSharingThisCache (p ! unat res))"
      by blast
    show ?thesis
      using subleaf_found [OF f ri rl] c1 rn rl rm
      by (simp add: cache_group_matches_def)
  next
    case False
    with fr have ri: "res = INVALID_CACHE_INDEX" by simp
    from room len have nn: "unat n + 1 < 2 ^ 32" by simp
    then have su: "unat (n + 1) = Suc (unat n)" by (simp add: unat_word_ariths)
    have ni: "n \<noteq> INVALID_CACHE_INDEX"
    proof
      assume "n = INVALID_CACHE_INDEX"
      then have "unat n = 2 ^ 32 - 1"
        by (simp add: INVALID_CACHE_INDEX_def unsigned_minus_1_eq_mask mask_eq_exp_minus_1)
      with nn show False by simp
    qed
    from room have nb: "\<not> length p \<le> unat n" by simp
    show ?thesis
      using subleaf_added [OF f [unfolded ri] ni, unfolded if_not_P [OF nb]] room su
      by (simp add: cache_group_matches_def)
  qed
qed

text \<open>The body of the TLB subleaf loop when the group exists, and when it does not.\<close>

lemma tlb_subleaf_found:
  assumes "ParseTlb_Internal_FindMatchingTlbEntry q m (group_id a (Edx t)) (t\<lparr>Eax := 0\<rparr>) = Inr i"
    and "i \<noteq> INVALID_TLB_INDEX" and "unat i < length q"
    and "Edx t AND 0x1F \<noteq> TlbType_InvalidSubleaf"
  shows "ParseTlb_CpuidTlbExample_subleaf a t q m ti =
     (if unat MAX_PROCESSORS \<le> unat (NumberOfLPsSharingThisTlb (q ! unat i))
      then Inl OutOfBounds
      else Inr (q[unat i := tlb_add_member a (q ! unat i)], m, i))"
  using assms
  by (simp add: ParseTlb_CpuidTlbExample_subleaf_def Let_def group_id_def group_mask_def
      tlb_add_member_def)

lemma tlb_subleaf_added:
  assumes "ParseTlb_Internal_FindMatchingTlbEntry q m (group_id a (Edx t)) (t\<lparr>Eax := 0\<rparr>) =
      Inr INVALID_TLB_INDEX"
    and "m \<noteq> INVALID_TLB_INDEX"
    and "Edx t AND 0x1F \<noteq> TlbType_InvalidSubleaf"
  shows "ParseTlb_CpuidTlbExample_subleaf a t q m ti =
     (if length q \<le> unat m then Inl OutOfBounds
      else Inr (q[unat m := (q ! unat m)
                  \<lparr>TlbType := Edx t AND 0x1F,
                   TlbLevel := drop_bit 5 (Edx t) AND 0x7,
                   TlbId := group_id a (Edx t),
                   TlbMask := group_mask (Edx t),
                   PageSizeEntries_4K := (Ebx t AND 1 \<noteq> 0),
                   PageSizeEntries_2MB := (Ebx t AND 2 \<noteq> 0),
                   PageSizeEntries_4MB := (Ebx t AND 4 \<noteq> 0),
                   PageSizeEntries_1GB := (Ebx t AND 8 \<noteq> 0),
                   TlbParitioning := drop_bit 8 (Ebx t) AND 0x7,
                   TlbWays := drop_bit 16 (Ebx t) AND 0xFF,
                   TlbSets := Ecx t,
                   FullyAssociative := (Edx t AND push_bit 8 1 \<noteq> 0),
                   TlbCachedCpuidRegisters := t\<lparr>Eax := 0\<rparr>,
                   NumberOfLPsSharingThisTlb := 1,
                   ListOfApicIDsSharingThisTlb :=
                     (ListOfApicIDsSharingThisTlb (q ! unat m))(0 := a)\<rparr>], m + 1, m))"
  using assms
  by (simp add: ParseTlb_CpuidTlbExample_subleaf_def ParseTlb_Internal_AddTlbEntry_def
      Let_def group_id_def group_mask_def MAX_PROCESSORS_def)

text \<open>A count that is the length of an array of fewer than \<open>2 ^ 32\<close> elements, or is below
  it, is a valid index value.\<close>

lemma full_count_cases:
  fixes n :: u32
  assumes "unat n \<le> len" "len < 2 ^ 32"
  shows "len \<le> unat n \<or> (n \<noteq> - 1 \<and> unat n < len \<and> unat (n + 1) = Suc (unat n))"
proof (cases "len \<le> unat n")
  case True then show ?thesis by simp
next
  case False
  then have l: "unat n < len" by simp
  with assms(2) have "unat n + 1 < 2 ^ 32" by simp
  then have s: "unat (n + 1) = Suc (unat n)" by (simp add: unat_word_ariths)
  have "n \<noteq> - 1"
  proof
    assume "n = - 1"
    then have "unat n = 2 ^ 32 - 1" by (simp add: unsigned_minus_1_eq_mask mask_eq_exp_minus_1)
    with \<open>unat n + 1 < 2 ^ 32\<close> show False by simp
  qed
  with l s show ?thesis by simp
qed

text \<open>
  One step of cache grouping on a table whose groups lie inside the array: the processor
  joins the first group with its group id and the subleaf's snapshot, if there is one, and
  otherwise becomes the only member of a new group behind the last one.
\<close>

lemma cache_step_result:
  fixes p :: "CPUID_CACHE_INFO list"
  assumes nl: "unat n \<le> length p" and len: "length p < 2 ^ 32"
  shows "if \<exists>k < unat n. cache_group_matches (p ! k) (group_id a (Eax r)) r
     then \<exists>i. unat i < unat n \<and> cache_group_matches (p ! unat i) (group_id a (Eax r)) r \<and>
            (\<forall>k < unat i. \<not> cache_group_matches (p ! k) (group_id a (Eax r)) r) \<and>
            ParseCache_CpuidCacheExample_subleaf a r p n =
              (if unat MAX_PROCESSORS \<le> unat (NumberOfLPsSharingThisCache (p ! unat i))
               then Inl OutOfBounds
               else Inr (p[unat i := cache_add_member a (p ! unat i)], n, i))
     else if length p \<le> unat n
          then ParseCache_CpuidCacheExample_subleaf a r p n = Inl OutOfBounds
          else \<exists>e. cache_group_matches e (group_id a (Eax r)) r \<and>
                 CacheMask e = group_mask (Eax r) \<and>
                 NumberOfLPsSharingThisCache e = 1 \<and> ListOfApicIDsSharingThisCache e 0 = a \<and>
                 ParseCache_CpuidCacheExample_subleaf a r p n = Inr (p[unat n := e], n + 1, n)"
proof -
  let ?g = "group_id a (Eax r)"
  from FindMatchingCacheEntry_result [OF nl, of ?g r]
  obtain res where f: "ParseCache_Internal_FindMatchingCacheEntry p n ?g r = Inr res"
    and fr: "if \<exists>k < unat n. cache_group_matches (p ! k) ?g r
      then res \<noteq> INVALID_CACHE_INDEX \<and> unat res < unat n \<and>
           cache_group_matches (p ! unat res) ?g r \<and>
           (\<forall>k < unat res. \<not> cache_group_matches (p ! k) ?g r)
      else res = INVALID_CACHE_INDEX" by blast
  show ?thesis
  proof (cases "\<exists>k < unat n. cache_group_matches (p ! k) ?g r")
    case True
    with fr have ri: "res \<noteq> INVALID_CACHE_INDEX" and rn: "unat res < unat n"
      and rm: "cache_group_matches (p ! unat res) ?g r"
      and rf: "\<forall>k < unat res. \<not> cache_group_matches (p ! k) ?g r" by simp_all
    from rn nl have rl: "unat res < length p" by simp
    note s = subleaf_found [OF f ri rl, folded cache_add_member_def]
    from rn rm rf s have "\<exists>i. unat i < unat n \<and> cache_group_matches (p ! unat i) ?g r \<and>
            (\<forall>k < unat i. \<not> cache_group_matches (p ! k) ?g r) \<and>
            ParseCache_CpuidCacheExample_subleaf a r p n =
              (if unat MAX_PROCESSORS \<le> unat (NumberOfLPsSharingThisCache (p ! unat i))
               then Inl OutOfBounds
               else Inr (p[unat i := cache_add_member a (p ! unat i)], n, i))" by blast
    then show ?thesis by (subst if_P [OF True])
  next
    case False
    with fr have ri: "res = INVALID_CACHE_INDEX" by simp
    show ?thesis
    proof (cases "length p \<le> unat n")
      case T: True
      have "ParseCache_CpuidCacheExample_subleaf a r p n = Inl OutOfBounds"
        using f ri T
        by (simp add: ParseCache_CpuidCacheExample_subleaf_def
            ParseCache_Internal_AddCacheEntry_def Let_def group_id_def group_mask_def)
      then show ?thesis by (subst if_not_P [OF False], subst if_P [OF T])
    next
      case F: False
      with full_count_cases [OF nl len] have ni: "n \<noteq> INVALID_CACHE_INDEX"
        by (simp add: INVALID_CACHE_INDEX_def)
      note s = subleaf_added [OF f [unfolded ri] ni, unfolded if_not_P [OF F]]
      have "\<exists>e. cache_group_matches e ?g r \<and> CacheMask e = group_mask (Eax r) \<and>
                 NumberOfLPsSharingThisCache e = 1 \<and> ListOfApicIDsSharingThisCache e 0 = a \<and>
                 ParseCache_CpuidCacheExample_subleaf a r p n = Inr (p[unat n := e], n + 1, n)"
        by (rule exI, intro conjI, rule_tac [5] s) (simp_all add: cache_group_matches_def)
      then show ?thesis by (subst if_not_P [OF False], subst if_not_P [OF F])
    qed
  qed
qed

text \<open>One step of TLB grouping: the same, on the identifier masked by the field of the subleaf's
  \<open>Edx\<close> and on the snapshot with \<open>Eax\<close> cleared; a subleaf of the invalid type changes nothing.\<close>

lemma tlb_step_result:
  fixes q :: "CPUID_TLB_INFO list"
  assumes ml: "unat m \<le> length q" and len: "length q < 2 ^ 32"
  shows "if Edx t AND 0x1F = TlbType_InvalidSubleaf
     then ParseTlb_CpuidTlbExample_subleaf a t q m ti = Inr (q, m, ti)
     else if \<exists>k < unat m. tlb_group_matches (q ! k) (group_id a (Edx t)) (t\<lparr>Eax := 0\<rparr>)
     then \<exists>i. unat i < unat m \<and>
            tlb_group_matches (q ! unat i) (group_id a (Edx t)) (t\<lparr>Eax := 0\<rparr>) \<and>
            (\<forall>k < unat i. \<not> tlb_group_matches (q ! k) (group_id a (Edx t)) (t\<lparr>Eax := 0\<rparr>)) \<and>
            ParseTlb_CpuidTlbExample_subleaf a t q m ti =
              (if unat MAX_PROCESSORS \<le> unat (NumberOfLPsSharingThisTlb (q ! unat i))
               then Inl OutOfBounds
               else Inr (q[unat i := tlb_add_member a (q ! unat i)], m, i))
     else if length q \<le> unat m
          then ParseTlb_CpuidTlbExample_subleaf a t q m ti = Inl OutOfBounds
          else \<exists>e. tlb_group_matches e (group_id a (Edx t)) (t\<lparr>Eax := 0\<rparr>) \<and>
                 TlbMask e = group_mask (Edx t) \<and>
                 NumberOfLPsSharingThisTlb e = 1 \<and> ListOfApicIDsSharingThisTlb e 0 = a \<and>
                 ParseTlb_CpuidTlbExample_subleaf a t q m ti = Inr (q[unat m := e], m + 1, m)"
proof (cases "Edx t AND 0x1F = TlbType_InvalidSubleaf")
  case True
  then show ?thesis by (simp add: ParseTlb_CpuidTlbExample_subleaf_def Let_def)
next
  case valid: False
  let ?g = "group_id a (Edx t)" and ?s = "t\<lparr>Eax := 0\<rparr>"
  from FindMatchingTlbEntry_result [OF ml, of ?g ?s]
  obtain res where f: "ParseTlb_Internal_FindMatchingTlbEntry q m ?g ?s = Inr res"
    and fr: "if \<exists>k < unat m. tlb_group_matches (q ! k) ?g ?s
      then res \<noteq> INVALID_TLB_INDEX \<and> unat res < unat m \<and>
           tlb_group_matches (q ! unat res) ?g ?s \<and>
           (\<forall>k < unat res. \<not> tlb_group_matches (q ! k) ?g ?s)
      else res = INVALID_TLB_INDEX" by blast
  show ?thesis
  proof (cases "\<exists>k < unat m. tlb_group_matches (q ! k) ?g ?s")
    case True
    with fr have ri: "res \<noteq> INVALID_TLB_INDEX" and rn: "unat res < unat m"
      and rm: "tlb_group_matches (q ! unat res) ?g ?s"
      and rf: "\<forall>k < unat res. \<not> tlb_group_matches (q ! k) ?g ?s" by simp_all
    from rn ml have rl: "unat res < length q" by simp
    note s = tlb_subleaf_found [OF f ri rl valid, of ti]
    from rn rm rf s have "\<exists>i. unat i < unat m \<and> tlb_group_matches (q ! unat i) ?g ?s \<and>
            (\<forall>k < unat i. \<not> tlb_group_matches (q ! k) ?g ?s) \<and>
            ParseTlb_CpuidTlbExample_subleaf a t q m ti =
              (if unat MAX_PROCESSORS \<le> unat (NumberOfLPsSharingThisTlb (q ! unat i))
               then Inl OutOfBounds
               else Inr (q[unat i := tlb_add_member a (q ! unat i)], m, i))" by blast
    then show ?thesis by (subst if_not_P [OF valid], subst if_P [OF True])
  next
    case False
    with fr have ri: "res = INVALID_TLB_INDEX" by simp
    show ?thesis
    proof (cases "length q \<le> unat m")
      case T: True
      have "ParseTlb_CpuidTlbExample_subleaf a t q m ti = Inl OutOfBounds"
        using f ri T valid
        by (simp add: ParseTlb_CpuidTlbExample_subleaf_def
            ParseTlb_Internal_AddTlbEntry_def Let_def group_id_def group_mask_def)
      then show ?thesis
        by (subst if_not_P [OF valid], subst if_not_P [OF False], subst if_P [OF T])
    next
      case F: False
      with full_count_cases [OF ml len] have ni: "m \<noteq> INVALID_TLB_INDEX"
        by (simp add: INVALID_TLB_INDEX_def)
      note s = tlb_subleaf_added [OF f [unfolded ri] ni valid, of ti, unfolded if_not_P [OF F]]
      have "\<exists>e. tlb_group_matches e ?g ?s \<and> TlbMask e = group_mask (Edx t) \<and>
                 NumberOfLPsSharingThisTlb e = 1 \<and> ListOfApicIDsSharingThisTlb e 0 = a \<and>
                 ParseTlb_CpuidTlbExample_subleaf a t q m ti = Inr (q[unat m := e], m + 1, m)"
        by (rule exI, intro conjI, rule_tac [5] s) (simp_all add: tlb_group_matches_def)
      then show ?thesis
        by (subst if_not_P [OF valid], subst if_not_P [OF False], subst if_not_P [OF F])
    qed
  qed
qed

text \<open>Two subleaves with different snapshots, processed one after the other on a table with
  room for them, end in two distinct groups, whatever their group ids are.\<close>

lemma cache_distinct_groups:
  fixes p :: "CPUID_CACHE_INFO list"
  assumes room2: "unat n + 1 < length p" and len: "length p < 2 ^ 32"
    and cnt: "\<forall>k < unat n. unat (NumberOfLPsSharingThisCache (p ! k)) + 1 < unat MAX_PROCESSORS"
    and ne: "r1 \<noteq> r2"
  shows "\<exists>p1 n1 i1 p2 n2 i2.
         ParseCache_CpuidCacheExample_subleaf a1 r1 p n = Inr (p1, n1, i1) \<and>
         ParseCache_CpuidCacheExample_subleaf a2 r2 p1 n1 = Inr (p2, n2, i2) \<and>
         i1 \<noteq> i2 \<and> unat i1 < unat n2 \<and> unat i2 < unat n2 \<and>
         cache_group_matches (p2 ! unat i1) (group_id a1 (Eax r1)) r1 \<and>
         cache_group_matches (p2 ! unat i2) (group_id a2 (Eax r2)) r2"
proof -
  from room2 have room: "unat n < length p" by simp
  from cnt have cnt0: "\<forall>k < unat n. \<not> unat MAX_PROCESSORS \<le> unat (NumberOfLPsSharingThisCache (p ! k))"
    by auto
  let ?g1 = "group_id a1 (Eax r1)" and ?g2 = "group_id a2 (Eax r2)"
  from subleaf_step [OF room len cnt0, of a1 r1]
  obtain p1 n1 i1 where s1: "ParseCache_CpuidCacheExample_subleaf a1 r1 p n = Inr (p1, n1, i1)"
    and b1: "unat i1 < unat n1" "unat i1 \<le> unat n"
      "unat n1 = (if unat i1 < unat n then unat n else Suc (unat n))" "length p1 = length p"
    and m1: "cache_group_matches (p1 ! unat i1) ?g1 r1"
    and u1: "\<forall>k. k \<noteq> unat i1 \<longrightarrow> p1 ! k = p ! k"
    and c1: "if unat i1 < unat n
      then cache_group_matches (p ! unat i1) ?g1 r1 \<and>
           NumberOfLPsSharingThisCache (p1 ! unat i1) =
             NumberOfLPsSharingThisCache (p ! unat i1) + 1
      else NumberOfLPsSharingThisCache (p1 ! unat i1) = 1" by blast
  from room2 len b1 have room1: "unat n1 < length p1" and len1: "length p1 < 2 ^ 32"
    by (simp_all split: if_splits)
  have cnt1: "\<forall>k < unat n1. \<not> unat MAX_PROCESSORS \<le> unat (NumberOfLPsSharingThisCache (p1 ! k))"
  proof (intro allI impI)
    fix k assume k: "k < unat n1"
    show "\<not> unat MAX_PROCESSORS \<le> unat (NumberOfLPsSharingThisCache (p1 ! k))"
    proof (cases "k = unat i1")
      case True
      show ?thesis
      proof (cases "unat i1 < unat n")
        case T: True
        with c1 have "NumberOfLPsSharingThisCache (p1 ! unat i1) =
             NumberOfLPsSharingThisCache (p ! unat i1) + 1" by simp
        moreover from cnt T
        have "unat (NumberOfLPsSharingThisCache (p ! unat i1)) + 1 < unat MAX_PROCESSORS"
          by blast
        ultimately show ?thesis using True count_plus_one by simp
      next
        case False
        with c1 have "NumberOfLPsSharingThisCache (p1 ! unat i1) = 1" by simp
        with True show ?thesis by (simp add: MAX_PROCESSORS_def)
      qed
    next
      case False
      with u1 have e: "p1 ! k = p ! k" by simp
      from False k b1 have "k < unat n" by (simp split: if_splits)
      with cnt0 e show ?thesis by simp
    qed
  qed
  from subleaf_step [OF room1 len1 cnt1, of a2 r2]
  obtain p2 n2 i2 where s2: "ParseCache_CpuidCacheExample_subleaf a2 r2 p1 n1 = Inr (p2, n2, i2)"
    and b2: "unat i2 < unat n2" "unat i2 \<le> unat n1"
      "unat n2 = (if unat i2 < unat n1 then unat n1 else Suc (unat n1))"
    and m2: "cache_group_matches (p2 ! unat i2) ?g2 r2"
    and u2: "\<forall>k. k \<noteq> unat i2 \<longrightarrow> p2 ! k = p1 ! k"
    and c2: "if unat i2 < unat n1
      then cache_group_matches (p1 ! unat i2) ?g2 r2 \<and>
           NumberOfLPsSharingThisCache (p2 ! unat i2) =
             NumberOfLPsSharingThisCache (p1 ! unat i2) + 1
      else NumberOfLPsSharingThisCache (p2 ! unat i2) = 1" by blast
  have d: "unat i1 \<noteq> unat i2"
  proof (cases "unat i2 < unat n1")
    case True
    with c2 have "CachedCpuidRegisters (p1 ! unat i2) = r2"
      by (simp add: cache_group_matches_def)
    moreover from m1 have "CachedCpuidRegisters (p1 ! unat i1) = r1"
      by (simp add: cache_group_matches_def)
    ultimately show ?thesis using ne by auto
  next
    case False
    with b1(1) show ?thesis by simp
  qed
  then have "i1 \<noteq> i2" by auto
  moreover from d u2 m1 have "cache_group_matches (p2 ! unat i1) ?g1 r1" by simp
  moreover from b1(1) b2(3) have "unat i1 < unat n2" by (simp split: if_splits)
  ultimately show ?thesis using s1 s2 b2(1) m2 by blast
qed

text \<open>The same for the TLB table.\<close>

lemma tlb_subleaf_step:
  fixes q :: "CPUID_TLB_INFO list"
  assumes room: "unat m < length q" and len: "length q < 2 ^ 32"
    and cnt: "\<forall>k < unat m. \<not> unat MAX_PROCESSORS \<le> unat (NumberOfLPsSharingThisTlb (q ! k))"
    and valid: "Edx t AND 0x1F \<noteq> TlbType_InvalidSubleaf"
  shows "\<exists>q1 m1 i.
     ParseTlb_CpuidTlbExample_subleaf a t q m ti = Inr (q1, m1, i) \<and>
     unat i < unat m1 \<and> unat i \<le> unat m \<and>
     unat m1 = (if unat i < unat m then unat m else Suc (unat m)) \<and> length q1 = length q \<and>
     tlb_group_matches (q1 ! unat i) (group_id a (Edx t)) (t\<lparr>Eax := 0\<rparr>) \<and>
     (\<forall>k. k \<noteq> unat i \<longrightarrow> q1 ! k = q ! k) \<and>
     (if unat i < unat m
      then tlb_group_matches (q ! unat i) (group_id a (Edx t)) (t\<lparr>Eax := 0\<rparr>) \<and>
           NumberOfLPsSharingThisTlb (q1 ! unat i) =
             NumberOfLPsSharingThisTlb (q ! unat i) + 1
      else NumberOfLPsSharingThisTlb (q1 ! unat i) = 1)"
proof -
  let ?g = "group_id a (Edx t)" and ?s = "t\<lparr>Eax := 0\<rparr>"
  from room have ml: "unat m \<le> length q" by simp
  from FindMatchingTlbEntry_result [OF ml, of ?g ?s]
  obtain res where f: "ParseTlb_Internal_FindMatchingTlbEntry q m ?g ?s = Inr res"
    and fr: "if \<exists>k < unat m. tlb_group_matches (q ! k) ?g ?s
      then res \<noteq> INVALID_TLB_INDEX \<and> unat res < unat m \<and>
           tlb_group_matches (q ! unat res) ?g ?s \<and>
           (\<forall>k < unat res. \<not> tlb_group_matches (q ! k) ?g ?s)
      else res = INVALID_TLB_INDEX" by blast
  show ?thesis
  proof (cases "\<exists>k < unat m. tlb_group_matches (q ! k) ?g ?s")
    case True
    with fr have ri: "res \<noteq> INVALID_TLB_INDEX" and rn: "unat res < unat m"
      and rm: "tlb_group_matches (q ! unat res) ?g ?s" by simp_all
    from rn room have rl: "unat res < length q" by simp
    from cnt rn have c1: "\<not> unat MAX_PROCESSORS \<le> unat (NumberOfLPsSharingThisTlb (q ! unat res))"
      by blast
    show ?thesis
      using tlb_subleaf_found [OF f ri rl valid, of ti] c1 rn rl rm
      by (simp add: tlb_group_matches_def tlb_add_member_def)
  next
    case False
    with fr have ri: "res = INVALID_TLB_INDEX" by simp
    from room have nb: "\<not> length q \<le> unat m" by simp
    with full_count_cases [OF ml len]
    have ni: "m \<noteq> INVALID_TLB_INDEX" and su: "unat (m + 1) = Suc (unat m)"
      by (simp_all add: INVALID_TLB_INDEX_def)
    show ?thesis
      using tlb_subleaf_added [OF f [unfolded ri] ni valid, of ti, unfolded if_not_P [OF nb]]
        room su
      by (simp add: tlb_group_matches_def)
  qed
qed

lemma tlb_distinct_groups:
  fixes q :: "CPUID_TLB_INFO list"
  assumes room2: "unat m + 1 < length q" and len: "length q < 2 ^ 32"
    and cnt: "\<forall>k < unat m. unat (NumberOfLPsSharingThisTlb (q ! k)) + 1 < unat MAX_PROCESSORS"
    and v1: "Edx t1 AND 0x1F \<noteq> TlbType_InvalidSubleaf"
    and v2: "Edx t2 AND 0x1F \<noteq> TlbType_InvalidSubleaf"
    and ne: "t1\<lparr>Eax := 0\<rparr> \<noteq> t2\<lparr>Eax := 0\<rparr>"
  shows "\<exists>q1 m1 i1 q2 m2 i2.
         ParseTlb_CpuidTlbExample_subleaf a1 t1 q m ti = Inr (q1, m1, i1) \<and>
         ParseTlb_CpuidTlbExample_subleaf a2 t2 q1 m1 i1 = Inr (q2, m2, i2) \<and>
         i1 \<noteq> i2 \<and> unat i1 < unat m2 \<and> unat i2 < unat m2 \<and>
         tlb_group_matches (q2 ! unat i1) (group_id a1 (Edx t1)) (t1\<lparr>Eax := 0\<rparr>) \<and>
         tlb_group_matches (q2 ! unat i2) (group_id a2 (Edx t2)) (t2\<lparr>Eax := 0\<rparr>)"
proof -
  from room2 have room: "unat m < length q" by simp
  from cnt have cnt0: "\<forall>k < unat m. \<not> unat MAX_PROCESSORS \<le> unat (NumberOfLPsSharingThisTlb (q ! k))"
    by auto
  let ?g1 = "group_id a1 (Edx t1)" and ?g2 = "group_id a2 (Edx t2)"
  let ?s1 = "t1\<lparr>Eax := 0\<rparr>" and ?s2 = "t2\<lparr>Eax := 0\<rparr>"
  from tlb_subleaf_step [OF room len cnt0 v1, of a1 ti]
  obtain q1 m1 i1 where s1: "ParseTlb_CpuidTlbExample_subleaf a1 t1 q m ti = Inr (q1, m1, i1)"
    and b1: "unat i1 < unat m1" "unat i1 \<le> unat m"
      "unat m1 = (if unat i1 < unat m then unat m else Suc (unat m))" "length q1 = length q"
    and m1: "tlb_group_matches (q1 ! unat i1) ?g1 ?s1"
    and u1: "\<forall>k. k \<noteq> unat i1 \<longrightarrow> q1 ! k = q ! k"
    and c1: "if unat i1 < unat m
      then tlb_group_matches (q ! unat i1) ?g1 ?s1 \<and>
           NumberOfLPsSharingThisTlb (q1 ! unat i1) =
             NumberOfLPsSharingThisTlb (q ! unat i1) + 1
      else NumberOfLPsSharingThisTlb (q1 ! unat i1) = 1" by blast
  from room2 len b1 have room1: "unat m1 < length q1" and len1: "length q1 < 2 ^ 32"
    by (simp_all split: if_splits)
  have cnt1: "\<forall>k < unat m1. \<not> unat MAX_PROCESSORS \<le> unat (NumberOfLPsSharingThisTlb (q1 ! k))"
  proof (intro allI impI)
    fix k assume k: "k < unat m1"
    show "\<not> unat MAX_PROCESSORS \<le> unat (NumberOfLPsSharingThisTlb (q1 ! k))"
    proof (cases "k = unat i1")
      case True
      show ?thesis
      proof (cases "unat i1 < unat m")
        case T: True
        with c1 have "NumberOfLPsSharingThisTlb (q1 ! unat i1) =
             NumberOfLPsSharingThisTlb (q ! unat i1) + 1" by simp
        moreover from cnt T
        have "unat (NumberOfLPsSharingThisTlb (q ! unat i1)) + 1 < unat MAX_PROCESSORS"
          by blast
        ultimately show ?thesis using True count_plus_one by simp
      next
        case False
        with c1 have "NumberOfLPsSharingThisTlb (q1 ! unat i1) = 1" by simp
        with True show ?thesis by (simp add: MAX_PROCESSORS_def)
      qed
    next
      case False
      with u1 have e: "q1 ! k = q ! k" by simp
      from False k b1 have "k < unat m" by (simp split: if_splits)
      with cnt0 e show ?thesis by simp
    qed
  qed
  from tlb_subleaf_step [OF room1 len1 cnt1 v2, of a2 i1]
  obtain q2 m2 i2 where s2: "ParseTlb_CpuidTlbExample_subleaf a2 t2 q1 m1 i1 = Inr (q2, m2, i2)"
    and b2: "unat i2 < unat m2" "unat i2 \<le> unat m1"
      "unat m2 = (if unat i2 < unat m1 then unat m1 else Suc (unat m1))"
    and m2: "tlb_group_matches (q2 ! unat i2) ?g2 ?s2"
    and u2: "\<forall>k. k \<noteq> unat i2 \<longrightarrow> q2 ! k = q1 ! k"
    and c2: "if unat i2 < unat m1
      then tlb_group_matches (q1 ! unat i2) ?g2 ?s2 \<and>
           NumberOfLPsSharingThisTlb (q2 ! unat i2) =
             NumberOfLPsSharingThisTlb (q1 ! unat i2) + 1
      else NumberOfLPsSharingThisTlb (q2 ! unat i2) = 1" by blast
  have d: "unat i1 \<noteq> unat i2"
  proof (cases "unat i2 < unat m1")
    case True
    with c2 have "TlbCachedCpuidRegisters (q1 ! unat i2) = ?s2"
      by (simp add: tlb_group_matches_def)
    moreover from m1 have "TlbCachedCpuidRegisters (q1 ! unat i1) = ?s1"
      by (simp add: tlb_group_matches_def)
    ultimately show ?thesis using ne by auto
  next
    case False
    with b1(1) show ?thesis by simp
  qed
  then have "i1 \<noteq> i2" by auto
  moreover from d u2 m1 have "tlb_group_matches (q2 ! unat i1) ?g1 ?s1" by simp
  moreover from b1(1) b2(3) have "unat i1 < unat m2" by (simp split: if_splits)
  ultimately show ?thesis using s1 s2 b2(1) m2 by blast
qed

text \<open>
  Claim C4: on a table whose groups lie inside the array (of fewer than \<open>2 ^ 32\<close> elements,
  as \<open>calloc\<close> is called with an \<open>unsigned int\<close>):

  \<^item> the cache search and the TLB search return a group exactly when some group has both the
    identifier and the snapshot looked for, and then return the first such group; otherwise
    they return the invalid index;

  \<^item> one step of cache grouping searches with the processor's identifier under the subleaf's
    group mask and with the subleaf's four registers: if a group has both, the processor is
    appended to the member list of the first such group and no group is added; if none has,
    a new group with that group id and snapshot is added behind the last one, with the
    processor as its only member. The step leaves the table only where an array ends: the
    member list of the group found is full, or the table has no element left;

  \<^item> one step of TLB grouping does the same with the group mask from \<open>Edx\<close> and the snapshot
    with \<open>Eax\<close> cleared, and changes nothing for a subleaf of the invalid type;

  \<^item> consequently two subleaves with different snapshots, processed one after the other on
    a table with room for them, end in two distinct groups, also when their group ids are
    equal.
\<close>

theorem C4_group_match:
  fixes p :: "CPUID_CACHE_INFO list" and q :: "CPUID_TLB_INFO list"
  assumes "unat n \<le> length p" and "length p < 2 ^ 32"
    and "unat m \<le> length q" and "length q < 2 ^ 32"
  shows
   "(\<exists>res. ParseCache_Internal_FindMatchingCacheEntry p n c r = Inr res \<and>
       (res \<noteq> INVALID_CACHE_INDEX \<longleftrightarrow> (\<exists>k < unat n. cache_group_matches (p ! k) c r)) \<and>
       (res \<noteq> INVALID_CACHE_INDEX \<longrightarrow>
          unat res < unat n \<and> cache_group_matches (p ! unat res) c r \<and>
          (\<forall>k < unat res. \<not> cache_group_matches (p ! k) c r))) \<and>
    (\<exists>res. ParseTlb_Internal_FindMatchingTlbEntry q m c r = Inr res \<and>
       (res \<noteq> INVALID_TLB_INDEX \<longleftrightarrow> (\<exists>k < unat m. tlb_group_matches (q ! k) c r)) \<and>
       (res \<noteq> INVALID_TLB_INDEX \<longrightarrow>
          unat res < unat m \<and> tlb_group_matches (q ! unat res) c r \<and>
          (\<forall>k < unat res. \<not> tlb_group_matches (q ! k) c r))) \<and>
    (if \<exists>k < unat n. cache_group_matches (p ! k) (group_id a (Eax r)) r
     then \<exists>i. unat i < unat n \<and> cache_group_matches (p ! unat i) (group_id a (Eax r)) r \<and>
            (\<forall>k < unat i. \<not> cache_group_matches (p ! k) (group_id a (Eax r)) r) \<and>
            ParseCache_CpuidCacheExample_subleaf a r p n =
              (if unat MAX_PROCESSORS \<le> unat (NumberOfLPsSharingThisCache (p ! unat i))
               then Inl OutOfBounds
               else Inr (p[unat i := cache_add_member a (p ! unat i)], n, i))
     else if length p \<le> unat n
          then ParseCache_CpuidCacheExample_subleaf a r p n = Inl OutOfBounds
          else \<exists>e. cache_group_matches e (group_id a (Eax r)) r \<and>
                 CacheMask e = group_mask (Eax r) \<and>
                 NumberOfLPsSharingThisCache e = 1 \<and> ListOfApicIDsSharingThisCache e 0 = a \<and>
                 ParseCache_CpuidCacheExample_subleaf a r p n = Inr (p[unat n := e], n + 1, n)) \<and>
    (if Edx t AND 0x1F = TlbType_InvalidSubleaf
     then ParseTlb_CpuidTlbExample_subleaf a t q m ti = Inr (q, m, ti)
     else if \<exists>k < unat m. tlb_group_matches (q ! k) (group_id a (Edx t)) (t\<lparr>Eax := 0\<rparr>)
     then \<exists>i. unat i < unat m \<and>
            tlb_group_matches (q ! unat i) (group_id a (Edx t)) (t\<lparr>Eax := 0\<rparr>) \<and>
            (\<forall>k < unat i. \<not> tlb_group_matches (q ! k) (group_id a (Edx t)) (t\<lparr>Eax := 0\<rparr>)) \<and>
            ParseTlb_CpuidTlbExample_subleaf a t q m ti =
              (if unat MAX_PROCESSORS \<le> unat (NumberOfLPsSharingThisTlb (q ! unat i))
               then Inl OutOfBounds
               else Inr (q[unat i := tlb_add_member a (q ! unat i)], m, i))
     else if length q \<le> unat m
          then ParseTlb_CpuidTlbExample_subleaf a t q m ti = Inl OutOfBounds
          else \<exists>e. tlb_group_matches e (group_id a (Edx t)) (t\<lparr>Eax := 0\<rparr>) \<and>
                 TlbMask e = group_mask (Edx t) \<and>
                 NumberOfLPsSharingThisTlb e = 1 \<and> ListOfApicIDsSharingThisTlb e 0 = a \<and>
                 ParseTlb_CpuidTlbExample_subleaf a t q m ti = Inr (q[unat m := e], m + 1, m)) \<and>
    (unat n + 1 < length p \<and>
     (\<forall>k < unat n. unat (NumberOfLPsSharingThisCache (p ! k)) + 1 < unat MAX_PROCESSORS) \<and>
     r1 \<noteq> r2 \<longrightarrow>
      (\<exists>p1 n1 i1 p2 n2 i2.
         ParseCache_CpuidCacheExample_subleaf a1 r1 p n = Inr (p1, n1, i1) \<and>
         ParseCache_CpuidCacheExample_subleaf a2 r2 p1 n1 = Inr (p2, n2, i2) \<and>
         i1 \<noteq> i2 \<and> unat i1 < unat n2 \<and> unat i2 < unat n2 \<and>
         cache_group_matches (p2 ! unat i1) (group_id a1 (Eax r1)) r1 \<and>
         cache_group_matches (p2 ! unat i2) (group_id a2 (Eax r2)) r2)) \<and>
    (unat m + 1 < length q \<and>
     (\<forall>k < unat m. unat (NumberOfLPsSharingThisTlb (q ! k)) + 1 < unat MAX_PROCESSORS) \<and>
     Edx t1 AND 0x1F \<noteq> TlbType_InvalidSubleaf \<and> Edx t2 AND 0x1F \<noteq> TlbType_InvalidSubleaf \<and>
     t1\<lparr>Eax := 0\<rparr> \<noteq> t2\<lparr>Eax := 0\<rparr> \<longrightarrow>
      (\<exists>q1 m1 i1 q2 m2 i2.
         ParseTlb_CpuidTlbExample_subleaf a1 t1 q m ti = Inr (q1, m1, i1) \<and>
         ParseTlb_CpuidTlbExample_subleaf a2 t2 q1 m1 i1 = Inr (q2, m2, i2) \<and>
         i1 \<noteq> i2 \<and> unat i1 < unat m2 \<and> unat i2 < unat m2 \<and>
         tlb_group_matches (q2 ! unat i1) (group_id a1 (Edx t1)) (t1\<lparr>Eax := 0\<rparr>) \<and>
         tlb_group_matches (q2 ! unat i2) (group_id a2 (Edx t2)) (t2\<lparr>Eax := 0\<rparr>)))"
proof (intro conjI impI)
  from FindMatchingCacheEntry_result [OF assms(1), of c r]
  show "\<exists>res. ParseCache_Internal_FindMatchingCacheEntry p n c r = Inr res \<and>
       (res \<noteq> INVALID_CACHE_INDEX \<longleftrightarrow> (\<exists>k < unat n. cache_group_matches (p ! k) c r)) \<and>
       (res \<noteq> INVALID_CACHE_INDEX \<longrightarrow>
          unat res < unat n \<and> cache_group_matches (p ! unat res) c r \<and>
          (\<forall>k < unat res. \<not> cache_group_matches (p ! k) c r))"
    by (cases "\<exists>k < unat n. cache_group_matches (p ! k) c r") auto
next
  from FindMatchingTlbEntry_result [OF assms(3), of c r]
  show "\<exists>res. ParseTlb_Internal_FindMatchingTlbEntry q m c r = Inr res \<and>
       (res \<noteq> INVALID_TLB_INDEX \<longleftrightarrow> (\<exists>k < unat m. tlb_group_matches (q ! k) c r)) \<and>
       (res \<noteq> INVALID_TLB_INDEX \<longrightarrow>
          unat res < unat m \<and> tlb_group_matches (q ! unat res) c r \<and>
          (\<forall>k < unat res. \<not> tlb_group_matches (q ! k) c r))"
    by (cases "\<exists>k < unat m. tlb_group_matches (q ! k) c r") auto
next
  show "if \<exists>k < unat n. cache_group_matches (p ! k) (group_id a (Eax r)) r
     then \<exists>i. unat i < unat n \<and> cache_group_matches (p ! unat i) (group_id a (Eax r)) r \<and>
            (\<forall>k < unat i. \<not> cache_group_matches (p ! k) (group_id a (Eax r)) r) \<and>
            ParseCache_CpuidCacheExample_subleaf a r p n =
              (if unat MAX_PROCESSORS \<le> unat (NumberOfLPsSharingThisCache (p ! unat i))
               then Inl OutOfBounds
               else Inr (p[unat i := cache_add_member a (p ! unat i)], n, i))
     else if length p \<le> unat n
          then ParseCache_CpuidCacheExample_subleaf a r p n = Inl OutOfBounds
          else \<exists>e. cache_group_matches e (group_id a (Eax r)) r \<and>
                 CacheMask e = group_mask (Eax r) \<and>
                 NumberOfLPsSharingThisCache e = 1 \<and> ListOfApicIDsSharingThisCache e 0 = a \<and>
                 ParseCache_CpuidCacheExample_subleaf a r p n = Inr (p[unat n := e], n + 1, n)"
    using assms(1,2) by (rule cache_step_result)
next
  show "if Edx t AND 0x1F = TlbType_InvalidSubleaf
     then ParseTlb_CpuidTlbExample_subleaf a t q m ti = Inr (q, m, ti)
     else if \<exists>k < unat m. tlb_group_matches (q ! k) (group_id a (Edx t)) (t\<lparr>Eax := 0\<rparr>)
     then \<exists>i. unat i < unat m \<and>
            tlb_group_matches (q ! unat i) (group_id a (Edx t)) (t\<lparr>Eax := 0\<rparr>) \<and>
            (\<forall>k < unat i. \<not> tlb_group_matches (q ! k) (group_id a (Edx t)) (t\<lparr>Eax := 0\<rparr>)) \<and>
            ParseTlb_CpuidTlbExample_subleaf a t q m ti =
              (if unat MAX_PROCESSORS \<le> unat (NumberOfLPsSharingThisTlb (q ! unat i))
               then Inl OutOfBounds
               else Inr (q[unat i := tlb_add_member a (q ! unat i)], m, i))
     else if length q \<le> unat m
          then ParseTlb_CpuidTlbExample_subleaf a t q m ti = Inl OutOfBounds
          else \<exists>e. tlb_group_matches e (group_id a (Edx t)) (t\<lparr>Eax := 0\<rparr>) \<and>
                 TlbMask e = group_mask (Edx t) \<and>
                 NumberOfLPsSharingThisTlb e = 1 \<and> ListOfApicIDsSharingThisTlb e 0 = a \<and>
                 ParseTlb_CpuidTlbExample_subleaf a t q m ti = Inr (q[unat m := e], m + 1, m)"
    using assms(3,4) by (rule tlb_step_result)
next
  assume h: "unat n + 1 < length p \<and>
     (\<forall>k < unat n. unat (NumberOfLPsSharingThisCache (p ! k)) + 1 < unat MAX_PROCESSORS) \<and>
     r1 \<noteq> r2"
  then have "unat n + 1 < length p"
    and "\<forall>k < unat n. unat (NumberOfLPsSharingThisCache (p ! k)) + 1 < unat MAX_PROCESSORS"
    and "r1 \<noteq> r2" by simp_all
  from cache_distinct_groups [OF this(1) assms(2) this(2,3)]
  show "\<exists>p1 n1 i1 p2 n2 i2.
         ParseCache_CpuidCacheExample_subleaf a1 r1 p n = Inr (p1, n1, i1) \<and>
         ParseCache_CpuidCacheExample_subleaf a2 r2 p1 n1 = Inr (p2, n2, i2) \<and>
         i1 \<noteq> i2 \<and> unat i1 < unat n2 \<and> unat i2 < unat n2 \<and>
         cache_group_matches (p2 ! unat i1) (group_id a1 (Eax r1)) r1 \<and>
         cache_group_matches (p2 ! unat i2) (group_id a2 (Eax r2)) r2" .
next
  assume h: "unat m + 1 < length q \<and>
     (\<forall>k < unat m. unat (NumberOfLPsSharingThisTlb (q ! k)) + 1 < unat MAX_PROCESSORS) \<and>
     Edx t1 AND 0x1F \<noteq> TlbType_InvalidSubleaf \<and> Edx t2 AND 0x1F \<noteq> TlbType_InvalidSubleaf \<and>
     t1\<lparr>Eax := 0\<rparr> \<noteq> t2\<lparr>Eax := 0\<rparr>"
  then have "unat m + 1 < length q"
    and "\<forall>k < unat m. unat (NumberOfLPsSharingThisTlb (q ! k)) + 1 < unat MAX_PROCESSORS"
    and "Edx t1 AND 0x1F \<noteq> TlbType_InvalidSubleaf" "Edx t2 AND 0x1F \<noteq> TlbType_InvalidSubleaf"
    and "t1\<lparr>Eax := 0\<rparr> \<noteq> t2\<lparr>Eax := 0\<rparr>" by simp_all
  from tlb_distinct_groups [OF this(1) assms(4) this(2,3,4,5)]
  show "\<exists>q1 m1 i1 q2 m2 i2.
         ParseTlb_CpuidTlbExample_subleaf a1 t1 q m ti = Inr (q1, m1, i1) \<and>
         ParseTlb_CpuidTlbExample_subleaf a2 t2 q1 m1 i1 = Inr (q2, m2, i2) \<and>
         i1 \<noteq> i2 \<and> unat i1 < unat m2 \<and> unat i2 < unat m2 \<and>
         tlb_group_matches (q2 ! unat i1) (group_id a1 (Edx t1)) (t1\<lparr>Eax := 0\<rparr>) \<and>
         tlb_group_matches (q2 ! unat i2) (group_id a2 (Edx t2)) (t2\<lparr>Eax := 0\<rparr>)" .
qed

text \<open>On the recorded platform the first-level and the second-level cache of processor 0
  have the same group id \<open>0\<close> and different snapshots.\<close>

lemma recorded_group_ids:
  "group_id 0 (Eax (recorded_leaf4 0 0)) = 0" "group_id 1 (Eax (recorded_leaf4 0 0)) = 0"
  "group_id 0 (Eax (recorded_leaf4 0 1)) = 0"
  by code_simp+


text \<open>
  On the recorded platform, with one cache group (identifier 0, the first-level cache) and one
  TLB group (identifier 0, the TLB of subleaf 0) in the tables: processor 1 reporting the
  same subleaf joins the group; the second-level subleaf of processor 0, with the same group
  id and another snapshot, opens a second group; the first-level subleaf of processor 2, with
  the same snapshot and another group id, opens a second group; and the two subleaves of
  processor 0 end in distinct groups of an empty table.
\<close>

lemma recorded_group_ids_more:
  "group_id 2 (Eax (recorded_leaf4 0 0)) = 2"
  "group_id 0 (Edx (recorded_leaf18 0 0)) = 0" "group_id 1 (Edx (recorded_leaf18 0 0)) = 0"
  "group_id 0 (Edx (recorded_leaf18 0 1)) = 0"
  by code_simp+

theorem C4_group_match_witness:
  "unat (1 :: u32) \<le> length one_group_table \<and> length one_group_table < 2 ^ 32 \<and>
   unat (1 :: u32) \<le> length one_tlb_table \<and> length one_tlb_table < 2 ^ 32 \<and>
   ParseCache_Internal_FindMatchingCacheEntry one_group_table 1 0 (recorded_leaf4 0 0) = Inr 0 \<and>
   ParseCache_Internal_FindMatchingCacheEntry one_group_table 1 0 (recorded_leaf4 0 1) =
     Inr INVALID_CACHE_INDEX \<and>
   ParseCache_CpuidCacheExample_subleaf 1 (recorded_leaf4 0 0) one_group_table 1 =
     Inr (one_group_table[0 := cache_add_member 1 (one_group_table ! 0)], 1, 0) \<and>
   (\<exists>e. cache_group_matches e 0 (recorded_leaf4 0 1) \<and> NumberOfLPsSharingThisCache e = 1 \<and>
        ListOfApicIDsSharingThisCache e 0 = 0 \<and>
        ParseCache_CpuidCacheExample_subleaf 0 (recorded_leaf4 0 1) one_group_table 1 =
          Inr (one_group_table[1 := e], 2, 1)) \<and>
   (\<exists>e. cache_group_matches e 2 (recorded_leaf4 0 0) \<and> NumberOfLPsSharingThisCache e = 1 \<and>
        ListOfApicIDsSharingThisCache e 0 = 2 \<and>
        ParseCache_CpuidCacheExample_subleaf 2 (recorded_leaf4 0 0) one_group_table 1 =
          Inr (one_group_table[1 := e], 2, 1)) \<and>
   ParseTlb_CpuidTlbExample_subleaf 1 (recorded_leaf18 0 0) one_tlb_table 1 0 =
     Inr (one_tlb_table[0 := tlb_add_member 1 (one_tlb_table ! 0)], 1, 0) \<and>
   (\<exists>e. tlb_group_matches e 0 ((recorded_leaf18 0 1)\<lparr>Eax := 0\<rparr>) \<and>
        NumberOfLPsSharingThisTlb e = 1 \<and> ListOfApicIDsSharingThisTlb e 0 = 0 \<and>
        ParseTlb_CpuidTlbExample_subleaf 0 (recorded_leaf18 0 1) one_tlb_table 1 0 =
          Inr (one_tlb_table[1 := e], 2, 1)) \<and>
   ParseTlb_CpuidTlbExample_subleaf 0 (recorded_leaf18 0 2) one_tlb_table 1 0 =
     Inr (one_tlb_table, 1, 0) \<and>
   group_id 0 (Eax (recorded_leaf4 0 0)) = group_id 0 (Eax (recorded_leaf4 0 1)) \<and>
   recorded_leaf4 0 0 \<noteq> recorded_leaf4 0 1 \<and>
   (\<exists>p1 n1 i1 p2 n2 i2.
      ParseCache_CpuidCacheExample_subleaf 0 (recorded_leaf4 0 0) recorded_cache_table 0 =
        Inr (p1, n1, i1) \<and>
      ParseCache_CpuidCacheExample_subleaf 0 (recorded_leaf4 0 1) p1 n1 = Inr (p2, n2, i2) \<and>
      i1 \<noteq> i2 \<and>
      cache_group_matches (p2 ! unat i1) 0 (recorded_leaf4 0 0) \<and>
      cache_group_matches (p2 ! unat i2) 0 (recorded_leaf4 0 1))"
proof -
  let ?L1 = "recorded_leaf4 0 0" and ?L2 = "recorded_leaf4 0 1"
  let ?T0 = "recorded_leaf18 0 0" and ?T1 = "recorded_leaf18 0 1" and ?T2 = "recorded_leaf18 0 2"
  have l1: "unat (1 :: u32) \<le> length one_group_table"
    and l2: "length one_group_table < 2 ^ 32"
    by (simp_all add: one_group_table_def recorded_cache_table_def)
  have l3: "unat (1 :: u32) \<le> length one_tlb_table"
    and l4: "length one_tlb_table < 2 ^ 32"
    by (simp_all add: one_tlb_table_def)
  have e0: "one_group_table ! 0 = zero_CPUID_CACHE_INFO
          \<lparr>CacheId := 0, CacheMask := 0xFFFFFFFE, NumberOfLPsSharingThisCache := 1,
           CachedCpuidRegisters := ?L1\<rparr>"
    by (simp add: one_group_table_def recorded_cache_table_def)
  have f0: "one_tlb_table ! 0 = zero_CPUID_TLB_INFO
          \<lparr>TlbId := 0, TlbMask := 0xFFFFFFFE, NumberOfLPsSharingThisTlb := 1,
           TlbCachedCpuidRegisters := ?T0\<lparr>Eax := 0\<rparr>\<rparr>"
    by (simp add: one_tlb_table_def)
  have ne: "?L1 \<noteq> ?L2" by (simp add: recorded_leaf4_def)
  have te: "?T0\<lparr>Eax := 0\<rparr> \<noteq> ?T1\<lparr>Eax := 0\<rparr>" by (simp add: recorded_leaf18_def)
  have m: "cache_group_matches (one_group_table ! 0) 0 ?L1"
    "\<not> cache_group_matches (one_group_table ! 0) 0 ?L2"
    "\<not> cache_group_matches (one_group_table ! 0) 2 ?L1"
    using ne by (simp_all add: e0 cache_group_matches_def)
  have tm: "tlb_group_matches (one_tlb_table ! 0) 0 (?T0\<lparr>Eax := 0\<rparr>)"
    "\<not> tlb_group_matches (one_tlb_table ! 0) 0 (?T1\<lparr>Eax := 0\<rparr>)"
    using te by (simp_all add: f0 tlb_group_matches_def)
  have c0: "\<not> unat MAX_PROCESSORS \<le> unat (NumberOfLPsSharingThisCache (one_group_table ! 0))"
    by (simp add: e0 MAX_PROCESSORS_def)
  have d0: "\<not> unat MAX_PROCESSORS \<le> unat (NumberOfLPsSharingThisTlb (one_tlb_table ! 0))"
    by (simp add: f0 MAX_PROCESSORS_def)
  have v: "Edx ?T0 AND 0x1F \<noteq> TlbType_InvalidSubleaf" "Edx ?T1 AND 0x1F \<noteq> TlbType_InvalidSubleaf"
    "Edx ?T2 AND 0x1F = TlbType_InvalidSubleaf"
    by (simp_all add: recorded_leaf18_def TlbType_InvalidSubleaf_def zero_registers_def)
  have one: "\<And>i :: u32. unat i < unat (1 :: u32) \<Longrightarrow> i = 0" by (simp add: unat_eq_0)
  have nf: "\<not> length one_group_table \<le> unat (1 :: u32)"
    by (simp add: one_group_table_def recorded_cache_table_def)
  have tf: "\<not> length one_tlb_table \<le> unat (1 :: u32)" by (simp add: one_tlb_table_def)
  note T = C4_group_match [OF l1 l2 l3 l4]
  have y1: "\<exists>k < unat (1 :: u32). cache_group_matches (one_group_table ! k) 0 ?L1"
    using m(1) by simp
  have y2: "\<not> (\<exists>k < unat (1 :: u32). cache_group_matches (one_group_table ! k) 0 ?L2)"
    using m(2) by simp
  have y3: "\<not> (\<exists>k < unat (1 :: u32). cache_group_matches (one_group_table ! k) 2 ?L1)"
    using m(3) by simp
  have z1: "\<exists>k < unat (1 :: u32). tlb_group_matches (one_tlb_table ! k) 0 (?T0\<lparr>Eax := 0\<rparr>)"
    using tm(1) by simp
  have z2: "\<not> (\<exists>k < unat (1 :: u32). tlb_group_matches (one_tlb_table ! k) 0 (?T1\<lparr>Eax := 0\<rparr>))"
    using tm(2) by simp
  \<comment> \<open>the searches\<close>
  from T [where c = 0 and r = ?L1, THEN conjunct1] y1
  obtain res where "ParseCache_Internal_FindMatchingCacheEntry one_group_table 1 0 ?L1 = Inr res"
    and "unat res < unat (1 :: u32)" by blast
  with one [of res]
  have a: "ParseCache_Internal_FindMatchingCacheEntry one_group_table 1 0 ?L1 = Inr 0" by simp
  from T [where c = 0 and r = ?L2, THEN conjunct1] y2
  have b: "ParseCache_Internal_FindMatchingCacheEntry one_group_table 1 0 ?L2 =
      Inr INVALID_CACHE_INDEX" by blast
  \<comment> \<open>processor 1 joins the cache group\<close>
  from T [where a = 1 and r = ?L1, THEN conjunct2, THEN conjunct2, THEN conjunct1,
      unfolded recorded_group_ids if_P [OF y1]]
  obtain i where "unat i < unat (1 :: u32)"
    and "ParseCache_CpuidCacheExample_subleaf 1 ?L1 one_group_table 1 =
              (if unat MAX_PROCESSORS \<le> unat (NumberOfLPsSharingThisCache (one_group_table ! unat i))
               then Inl OutOfBounds
               else Inr (one_group_table[unat i := cache_add_member 1 (one_group_table ! unat i)], 1, i))"
    by blast
  with one [of i] c0
  have c: "ParseCache_CpuidCacheExample_subleaf 1 ?L1 one_group_table 1 =
     Inr (one_group_table[0 := cache_add_member 1 (one_group_table ! 0)], 1, 0)" by simp
  \<comment> \<open>same group id, another snapshot: a new group\<close>
  from T [where a = 0 and r = ?L2, THEN conjunct2, THEN conjunct2, THEN conjunct1,
      unfolded recorded_group_ids if_not_P [OF y2] if_not_P [OF nf]]
  have d: "\<exists>e. cache_group_matches e 0 ?L2 \<and> NumberOfLPsSharingThisCache e = 1 \<and>
        ListOfApicIDsSharingThisCache e 0 = 0 \<and>
        ParseCache_CpuidCacheExample_subleaf 0 ?L2 one_group_table 1 =
          Inr (one_group_table[1 := e], 2, 1)" by auto
  \<comment> \<open>same snapshot, another group id: a new group\<close>
  from T [where a = 2 and r = ?L1, THEN conjunct2, THEN conjunct2, THEN conjunct1,
      unfolded recorded_group_ids_more if_not_P [OF y3] if_not_P [OF nf]]
  have e: "\<exists>e. cache_group_matches e 2 ?L1 \<and> NumberOfLPsSharingThisCache e = 1 \<and>
        ListOfApicIDsSharingThisCache e 0 = 2 \<and>
        ParseCache_CpuidCacheExample_subleaf 2 ?L1 one_group_table 1 =
          Inr (one_group_table[1 := e], 2, 1)" by auto
  \<comment> \<open>the same for the TLB table\<close>
  from T [where a = 1 and t = ?T0 and ti = 0, THEN conjunct2, THEN conjunct2, THEN conjunct2,
      THEN conjunct1, unfolded recorded_group_ids_more if_not_P [OF v(1)] if_P [OF z1]]
  obtain j where "unat j < unat (1 :: u32)"
    and "ParseTlb_CpuidTlbExample_subleaf 1 ?T0 one_tlb_table 1 0 =
              (if unat MAX_PROCESSORS \<le> unat (NumberOfLPsSharingThisTlb (one_tlb_table ! unat j))
               then Inl OutOfBounds
               else Inr (one_tlb_table[unat j := tlb_add_member 1 (one_tlb_table ! unat j)], 1, j))"
    by blast
  with one [of j] d0
  have f: "ParseTlb_CpuidTlbExample_subleaf 1 ?T0 one_tlb_table 1 0 =
     Inr (one_tlb_table[0 := tlb_add_member 1 (one_tlb_table ! 0)], 1, 0)" by simp
  from T [where a = 0 and t = ?T1 and ti = 0, THEN conjunct2, THEN conjunct2, THEN conjunct2,
      THEN conjunct1, unfolded recorded_group_ids_more if_not_P [OF v(2)] if_not_P [OF z2]
      if_not_P [OF tf]]
  have g: "\<exists>e. tlb_group_matches e 0 (?T1\<lparr>Eax := 0\<rparr>) \<and>
        NumberOfLPsSharingThisTlb e = 1 \<and> ListOfApicIDsSharingThisTlb e 0 = 0 \<and>
        ParseTlb_CpuidTlbExample_subleaf 0 ?T1 one_tlb_table 1 0 =
          Inr (one_tlb_table[1 := e], 2, 1)" by auto
  from T [where a = 0 and t = ?T2 and ti = 0, THEN conjunct2, THEN conjunct2, THEN conjunct2,
      THEN conjunct1, unfolded if_P [OF v(3)]]
  have h: "ParseTlb_CpuidTlbExample_subleaf 0 ?T2 one_tlb_table 1 0 = Inr (one_tlb_table, 1, 0)" .
  \<comment> \<open>two distinct groups\<close>
  have r0: "unat (0 :: u32) \<le> length recorded_cache_table" "length recorded_cache_table < 2 ^ 32"
    "unat (0 :: u32) \<le> length ([] :: CPUID_TLB_INFO list)"
    "length ([] :: CPUID_TLB_INFO list) < 2 ^ 32"
    by (simp_all add: recorded_cache_table_def)
  have hy: "unat (0 :: u32) + 1 < length recorded_cache_table \<and>
     (\<forall>k < unat (0 :: u32).
        unat (NumberOfLPsSharingThisCache (recorded_cache_table ! k)) + 1 < unat MAX_PROCESSORS) \<and>
     ?L1 \<noteq> ?L2"
    using ne by (simp add: recorded_cache_table_def)
  from C4_group_match [OF r0, where ?a1.0 = 0 and ?a2.0 = 0 and ?r1.0 = ?L1 and ?r2.0 = ?L2,
      THEN conjunct2, THEN conjunct2, THEN conjunct2, THEN conjunct2, THEN conjunct1,
      unfolded recorded_group_ids, rule_format, OF hy]
  have k: "\<exists>p1 n1 i1 p2 n2 i2.
      ParseCache_CpuidCacheExample_subleaf 0 ?L1 recorded_cache_table 0 = Inr (p1, n1, i1) \<and>
      ParseCache_CpuidCacheExample_subleaf 0 ?L2 p1 n1 = Inr (p2, n2, i2) \<and>
      i1 \<noteq> i2 \<and>
      cache_group_matches (p2 ! unat i1) 0 ?L1 \<and>
      cache_group_matches (p2 ! unat i2) 0 ?L2" by blast
  have gi: "group_id 0 (Eax ?L1) = group_id 0 (Eax ?L2)"
    by (simp only: recorded_group_ids)
  from l1 l2 l3 l4 a b c d e f g h gi ne k show ?thesis by blast
qed

text \<open>
  The whole of \<open>ParseCache_CpuidCacheExample\<close> and \<open>ParseTlb_CpuidTlbExample\<close> on the recorded
  platform: the eight processors fall into four first-level and two second-level cache groups
  and into four first-level and four second-level TLB groups; each group is listed with its
  id, its level and its members.
\<close>

lemma recorded_platform_groups:
  "(case ParseCache_CpuidCacheExample recorded_os recorded_world (\<lambda>_. 0) of
      Some (Inr (Some (p, n))) \<Rightarrow>
        map (\<lambda>e. (CacheId e, CacheLevel e,
                   map (ListOfApicIDsSharingThisCache e) [0..<unat (NumberOfLPsSharingThisCache e)]))
          (take (unat n) p) =
        [(0, 1, [0, 1]), (0, 2, [0, 1, 2, 3]), (2, 1, [2, 3]),
         (4, 1, [4, 5]), (4, 2, [4, 5, 6, 7]), (6, 1, [6, 7])]
    | _ \<Rightarrow> False)"
  "(case ParseTlb_CpuidTlbExample recorded_os recorded_world (\<lambda>_. 0) 0 of
      Some (Inr (Some (q, m))) \<Rightarrow>
        map (\<lambda>e. (TlbId e, TlbLevel e,
                   map (ListOfApicIDsSharingThisTlb e) [0..<unat (NumberOfLPsSharingThisTlb e)]))
          (take (unat m) q) =
        [(0, 1, [0, 1]), (0, 2, [0, 1]), (2, 1, [2, 3]), (2, 2, [2, 3]),
         (4, 1, [4, 5]), (4, 2, [4, 5]), (6, 1, [6, 7]), (6, 2, [6, 7])]
    | _ \<Rightarrow> False)"
  by code_simp+

section \<open>The identifier gatherer\<close>

text \<open>The flags of the loop body select the first successful strategy, where leaf 0x1F and
  leaf 0xB are tried only when leaf 0 reports them.\<close>

lemma gather_body_strategy:
  "Tools_GatherPlatformApicIds_body api R w =
     first_successful_strategy (0x1F \<le> Eax R) (0xB \<le> Eax R) (Tools_ReadCpuid api w)"
  by (simp add: Tools_GatherPlatformApicIds_body_def first_successful_strategy_def Let_def)

text \<open>The loop, entered at \<open>Index\<close>, fills the entries from \<open>Index\<close> up to the smaller of the
  processor count and the array size, and returns that bound.\<close>

lemma unat_min: "unat (min (a::u32) b) = min (unat a) (unat b)"
  by (simp add: min_def word_le_nat_alt)

lemma gather_loop_result:
  "d = unat (min N A) - unat Index \<Longrightarrow>
   (case Tools_GatherPlatformApicIds_loop api R N A Index w arr of
      (w', ids, n) \<Rightarrow>
        n = (if Index \<le> min N A then min N A else Index) \<and>
        (\<forall>j. ids j =
           (if unat Index \<le> j \<and> j < unat (min N A)
            then first_successful_strategy (0x1F \<le> Eax R) (0xB \<le> Eax R)
                   (Tools_ReadCpuid api (bound_to api w (unat Index) j))
            else arr j)))"
proof (induction d arbitrary: Index w arr)
  case 0
  then have "\<not> (Index < N \<and> Index < A)"
    by (auto simp: word_less_nat_alt unat_min)
  moreover from 0 have "\<And>j. \<not> (unat Index \<le> j \<and> j < unat (min N A))" by simp
  moreover from 0 have "Index \<le> min N A \<longrightarrow> min N A = Index"
    by (auto simp: word_le_nat_alt word_unat_eq_iff)
  ultimately show ?case
    by (subst Tools_GatherPlatformApicIds_loop.simps) auto
next
  case (Suc d)
  let ?M = "min N A"
  let ?S = "first_successful_strategy (0x1F \<le> Eax R) (0xB \<le> Eax R)"
  from Suc.prems have lt: "unat Index < unat ?M" by simp
  then have c: "Index < N \<and> Index < A"
    by (simp add: word_less_nat_alt unat_min)
  have "unat ?M < 2 ^ 32" using unsigned_less [of ?M, where 'a = nat] by simp
  with lt have "unat Index + 1 < 2 ^ 32" by simp
  then have su: "unat (Index + 1) = Suc (unat Index)" by (simp add: unat_word_ariths)
  with Suc.prems have d': "d = unat ?M - unat (Index + 1)" by simp
  let ?w1 = "Tools_SetAffinity api Index w"
  let ?arr1 = "arr(unat Index := Tools_GatherPlatformApicIds_body api R ?w1)"
  have st: "Tools_GatherPlatformApicIds_loop api R N A Index w arr =
      Tools_GatherPlatformApicIds_loop api R N A (Index + 1) ?w1 ?arr1"
    using c by (subst Tools_GatherPlatformApicIds_loop.simps) (simp add: Let_def)
  obtain w' ids n where r: "Tools_GatherPlatformApicIds_loop api R N A (Index + 1) ?w1 ?arr1 =
      (w', ids, n)" by (cases "Tools_GatherPlatformApicIds_loop api R N A (Index + 1) ?w1 ?arr1")
  from Suc.IH [OF d', of ?w1 ?arr1, unfolded r]
  have n: "n = (if Index + 1 \<le> ?M then ?M else Index + 1)"
    and ids: "\<forall>j. ids j =
           (if unat (Index + 1) \<le> j \<and> j < unat ?M
            then ?S (Tools_ReadCpuid api (bound_to api ?w1 (unat (Index + 1)) j))
            else ?arr1 j)" by simp_all
  from lt su have le1: "Index + 1 \<le> ?M" "Index \<le> ?M" by (simp_all add: word_le_nat_alt)
  have b0: "bound_to api w (unat Index) (unat Index) = ?w1"
    by (simp add: bound_to_def)
  have bs: "\<And>j. Suc (unat Index) \<le> j \<Longrightarrow>
      bound_to api w (unat Index) j = bound_to api ?w1 (Suc (unat Index)) j"
    by (simp add: bound_to_def upt_conv_Cons del: upt_Suc)
  have "\<forall>j. ids j =
           (if unat Index \<le> j \<and> j < unat ?M
            then ?S (Tools_ReadCpuid api (bound_to api w (unat Index) j))
            else arr j)"
  proof
    fix j
    show "ids j =
           (if unat Index \<le> j \<and> j < unat ?M
            then ?S (Tools_ReadCpuid api (bound_to api w (unat Index) j))
            else arr j)"
    proof (cases "j = unat Index")
      case True
      with ids su lt show ?thesis by (simp add: b0 gather_body_strategy)
    next
      case False
      show ?thesis
      proof (cases "Suc (unat Index) \<le> j")
        case True
        with ids su bs [OF True] show ?thesis by simp
      next
        case F: False
        with False have "j < unat Index" by simp
        with ids su show ?thesis by simp
      qed
    qed
  qed
  with n le1 st r show ?case by simp
qed

lemma gather_result:
  "case Tools_GatherPlatformApicIds api w pApicIdArray ArraySize of
     (w', ids, n) \<Rightarrow>
       unat n = min (min (unat (Tools_GetNumberOfProcessors api w)) (unat MAX_PROCESSORS))
                  (unat ArraySize) \<and>
       (\<forall>i < unat n. ids i =
          first_successful_strategy (0x1F \<le> Eax (Tools_ReadCpuid api w 0 0))
            (0xB \<le> Eax (Tools_ReadCpuid api w 0 0))
            (Tools_ReadCpuid api (bound_to api w 0 i))) \<and>
       (\<forall>i \<ge> unat n. ids i = pApicIdArray i)"
proof -
  let ?P = "Tools_GetNumberOfProcessors api w"
  let ?N = "if MAX_PROCESSORS < ?P then MAX_PROCESSORS else ?P"
  let ?R = "Tools_ReadCpuid api w 0 0"
  have N: "unat ?N = min (unat ?P) (unat MAX_PROCESSORS)"
    by (auto simp: word_less_nat_alt)
  obtain w' ids n where r: "Tools_GatherPlatformApicIds_loop api ?R ?N ArraySize 0 w pApicIdArray =
      (w', ids, n)"
    by (cases "Tools_GatherPlatformApicIds_loop api ?R ?N ArraySize 0 w pApicIdArray")
  from gather_loop_result [OF refl, where N = ?N and A = ArraySize and Index = 0 and api = api
      and R = ?R and w = w and arr = pApicIdArray, unfolded r]
  have n: "n = min ?N ArraySize"
    and ids: "\<forall>j. ids j =
           (if j < unat (min ?N ArraySize)
            then first_successful_strategy (0x1F \<le> Eax ?R) (0xB \<le> Eax ?R)
                   (Tools_ReadCpuid api (bound_to api w 0 j))
            else pApicIdArray j)" by simp_all
  have "Tools_GatherPlatformApicIds api w pApicIdArray ArraySize = (w', ids, n)"
    using r by (simp add: Tools_GatherPlatformApicIds_def Let_def)
  moreover have u: "unat n = min (min (unat ?P) (unat MAX_PROCESSORS)) (unat ArraySize)"
    unfolding n unat_min N ..
  moreover have "\<forall>i < unat n. ids i =
          first_successful_strategy (0x1F \<le> Eax ?R) (0xB \<le> Eax ?R)
            (Tools_ReadCpuid api (bound_to api w 0 i))"
    using ids by (simp add: n)
  moreover have "\<forall>i \<ge> unat n. ids i = pApicIdArray i"
    using ids by (simp add: n)
  ultimately show ?thesis by simp
qed

text \<open>
  Claim C8 (amended): the gatherer always returns; the returned count is the smallest of
  the processor count, \<open>MAX_PROCESSORS\<close> (1024) and the array size; every entry below it is
  the identifier of the first successful strategy for that processor, in the order leaf 0x1F
  (tried when leaf 0 reports a highest leaf of at least 0x1F), leaf 0xB (tried when leaf 0
  reports at least 0xB), leaf 1; the entries from the count on are left as they were.
\<close>

theorem C8_gather_platform_ids:
  "case Tools_GatherPlatformApicIds api w pApicIdArray ArraySize of
     (w', ids, n) \<Rightarrow>
       unat n = min (min (unat (Tools_GetNumberOfProcessors api w)) (unat MAX_PROCESSORS))
                  (unat ArraySize) \<and>
       (\<forall>i < unat n. ids i =
          first_successful_strategy (0x1F \<le> Eax (Tools_ReadCpuid api w 0 0))
            (0xB \<le> Eax (Tools_ReadCpuid api w 0 0))
            (Tools_ReadCpuid api (bound_to api w 0 i))) \<and>
       (\<forall>i \<ge> unat n. ids i = pApicIdArray i)"
  by (rule gather_result)

text \<open>Bound to processor 1 of the large native platform, the OS state is \<open>1\<close>.\<close>

lemma large_native_bound_1:
  "bound_to large_native_os large_native_world 0 (Suc 0) =
     large_native_world\<lparr>os_state := 1\<rparr>"
  by (simp add: bound_to_def upt_rec Tools_SetAffinity_def large_native_world_def
      large_native_os_def)

text \<open>
  Claim C8, as stated, fails on the large native platform with an array of 2048 entries: the
  count is 1024, not \<open>min 1792 2048\<close>; and for processor 1 the gatherer answers the
  identifier \<open>1\<close> of leaf 0xB, while trying leaf 0x1F unconditionally would take the fourth
  register of the leaf 0x16 data, which is \<open>0\<close>.
\<close>

theorem C8_gather_platform_ids_counterexample:
  "case Tools_GatherPlatformApicIds large_native_os large_native_world (\<lambda>_. 0) 2048 of
     (w', ids, n) \<Rightarrow>
       unat n \<noteq> min (unat (Tools_GetNumberOfProcessors large_native_os large_native_world))
                   (unat (2048 :: u32)) \<and>
       ids 1 \<noteq> first_successful_strategy True
                  (0xB \<le> Eax (Tools_ReadCpuid large_native_os large_native_world 0 0))
                  (Tools_ReadCpuid large_native_os
                     (bound_to large_native_os large_native_world 0 1))"
proof -
  obtain w' ids n where r:
    "Tools_GatherPlatformApicIds large_native_os large_native_world (\<lambda>_. 0) 2048 = (w', ids, n)"
    by (cases "Tools_GatherPlatformApicIds large_native_os large_native_world (\<lambda>_. 0) 2048")
  have P: "Tools_GetNumberOfProcessors large_native_os large_native_world = 1792"
    by (simp add: Tools_GetNumberOfProcessors_def large_native_world_def large_native_os_def)
  have R: "Eax (Tools_ReadCpuid large_native_os large_native_world 0 0) = 0x16"
    by (simp add: Tools_ReadCpuid_def large_native_world_def large_native_os_def
        large_native_cpuid_def)
  have q: "Tools_ReadCpuid large_native_os (large_native_world\<lparr>os_state := 1\<rparr>) =
      large_native_cpuid 1"
    by (simp add: Tools_ReadCpuid_def large_native_world_def large_native_os_def fun_eq_iff)
  from gather_result [where api = large_native_os and w = large_native_world
      and pApicIdArray = "\<lambda>_. 0" and ArraySize = 2048, unfolded r]
  have n: "unat n = 1024"
    and ids: "\<forall>i < unat n. ids i =
          first_successful_strategy (0x1F \<le> Eax (Tools_ReadCpuid large_native_os large_native_world 0 0))
            (0xB \<le> Eax (Tools_ReadCpuid large_native_os large_native_world 0 0))
            (Tools_ReadCpuid large_native_os (bound_to large_native_os large_native_world 0 i))"
    by (simp_all add: P MAX_PROCESSORS_def)
  from ids n have "ids 1 = first_successful_strategy (0x1F \<le> (0x16 :: u32)) (0xB \<le> (0x16 :: u32))
      (large_native_cpuid 1)"
    by (simp add: R q large_native_bound_1)
  then have i1: "ids 1 = 1"
    by (simp add: first_successful_strategy_def large_native_cpuid_def)
  have "first_successful_strategy True
                  (0xB \<le> Eax (Tools_ReadCpuid large_native_os large_native_world 0 0))
                  (Tools_ReadCpuid large_native_os
                     (bound_to large_native_os large_native_world 0 1)) = 0"
    by (simp add: R q large_native_bound_1 first_successful_strategy_def large_native_cpuid_def)
  with i1 n show ?thesis unfolding r by (simp add: P)
qed

text \<open>On the recorded platform: eight identifiers, that of processor 3 is \<open>3\<close>, and entry 8
  of the array is untouched.\<close>

lemma recorded_bound_3:
  "bound_to recorded_os recorded_world 0 3 =
     recorded_world\<lparr>g_GlobalData := recorded_trace\<lparr>CurrentProcessorAffinity := 3\<rparr>\<rparr>"
  by (simp add: bound_to_def upt_rec Tools_SetAffinity_def recorded_world_def
      recorded_trace_def numeral_3_eq_3)

theorem C8_gather_platform_ids_witness:
  "case Tools_GatherPlatformApicIds recorded_os recorded_world (\<lambda>_. 0) 1024 of
     (w', ids, n) \<Rightarrow> unat n = 8 \<and> ids 3 = 3 \<and> ids 8 = 0"
proof -
  obtain w' ids n where r:
    "Tools_GatherPlatformApicIds recorded_os recorded_world (\<lambda>_. 0) 1024 = (w', ids, n)"
    by (cases "Tools_GatherPlatformApicIds recorded_os recorded_world (\<lambda>_. 0) 1024")
  have P: "Tools_GetNumberOfProcessors recorded_os recorded_world = 8"
    by (simp add: Tools_GetNumberOfProcessors_def recorded_world_def recorded_trace_def)
  have R: "Eax (Tools_ReadCpuid recorded_os recorded_world 0 0) = 0x1F"
    by (simp add: Tools_ReadCpuid_def recorded_world_def recorded_trace_def recorded_cpuid_def
        MAX_SIMULATED_LEAFS_def MAX_SIMULATED_SUBLEAFS_def)
  have q: "Tools_ReadCpuid recorded_os
       (recorded_world\<lparr>g_GlobalData := recorded_trace\<lparr>CurrentProcessorAffinity := 3\<rparr>\<rparr>) 0x1F 0 =
      \<lparr>Eax = 1, Ebx = 2, Ecx = 0x100, Edx = 3\<rparr>"
    by (simp add: Tools_ReadCpuid_def recorded_world_def recorded_trace_def recorded_cpuid_def
        MAX_SIMULATED_LEAFS_def MAX_SIMULATED_SUBLEAFS_def)
  from C8_gather_platform_ids [where api = recorded_os and w = recorded_world
      and pApicIdArray = "\<lambda>_. 0" and ArraySize = 1024, unfolded r]
  have n: "unat n = 8"
    and ids: "\<forall>i < unat n. ids i =
          first_successful_strategy (0x1F \<le> Eax (Tools_ReadCpuid recorded_os recorded_world 0 0))
            (0xB \<le> Eax (Tools_ReadCpuid recorded_os recorded_world 0 0))
            (Tools_ReadCpuid recorded_os (bound_to recorded_os recorded_world 0 i))"
    and rest: "\<forall>i \<ge> unat n. ids i = 0"
    by (simp_all add: P MAX_PROCESSORS_def)
  from ids n have "ids 3 = 3"
    by (simp add: R recorded_bound_3 first_successful_strategy_def q)
  moreover from rest n have "ids 8 = 0" by simp
  ultimately show ?thesis using n unfolding r by simp
qed

section \<open>The capacity of the cache array\<close>

text \<open>
  \<open>ParseCache_Internal_AddCacheEntry\<close> never answers \<open>INVALID_CACHE_INDEX\<close> for a count below
  \<open>0xFFFFFFFF\<close>: when it returns, the index is the old count and the count has grown by one;
  and on a full array it writes the element behind the last one.
\<close>

lemma AddCacheEntry_returns_old_count:
  "ParseCache_Internal_AddCacheEntry p n c m r = Inr (p', n', i) \<Longrightarrow> i = n \<and> n' = n + 1"
  by (auto simp: ParseCache_Internal_AddCacheEntry_def Let_def split: if_splits)

lemma AddCacheEntry_full_array:
  "length p \<le> unat n \<Longrightarrow> ParseCache_Internal_AddCacheEntry p n c m r = Inl OutOfBounds"
  by (simp add: ParseCache_Internal_AddCacheEntry_def Let_def)

text \<open>
  Claim C5 does not hold of the code. \<open>ParseCache_CpuidCacheExample\<close> tests the index that
  \<open>ParseCache_Internal_AddCacheEntry\<close> returns against \<open>INVALID_CACHE_INDEX\<close> and would drop
  the processor's membership silently, but the callee never compares \<open>*pNumberOfCaches\<close> with
  the number of elements allocated. On the platform with eleven caches the array has
  \<open>1 * MAX_CACHE_PER_LP = 10\<close> elements; the eleventh cache is written to element 10, outside
  the array, and the run ends in that access instead of leaving the table as it was.
\<close>

theorem C5_capacity_exceeded_overflows:
  "case ParseCache_CpuidCacheExample eleven_caches_os eleven_caches_world (\<lambda>_. 0) of
     Some (Inl f) \<Rightarrow> f = OutOfBounds
   | _ \<Rightarrow> False"
  by code_simp

end
